theory Spec2Isabelle
  imports Complex_Main
begin

section \<open>Arrays\<close>

text \<open>
  The program (\<^verbatim>\<open>src/ResCom.py\<close>) computes with numpy arrays and scipy sparse matrices of
  64-bit floats. The embedding takes the entries to be real numbers: a one-dimensional array
  is a list, a two-dimensional array or sparse matrix is its shape together with its rows.
  Rounding, overflow and the sparse/dense storage format are not part of the model.

  Errors are values. \<open>NonFinite\<close> marks a division by zero: numpy does not raise there, it
  stores \<open>inf\<close> or \<open>nan\<close> and goes on; the reals have neither, so the model stops with this
  result instead of using the value \<open>x / 0 = 0\<close> of HOL. The gain of the intrinsic plasticity is
  the exception: its entries may be \<^verbatim>\<open>nan\<close> (the type \<open>fl\<close> below), and the model goes on as
  the program does.

  A method that fails returns the error alone: the assignments a Python call makes before it
  raises are not kept, so nothing is stated about the object after a failed call. Indices and
  lengths (\<open>t_listen\<close>, \<open>epochs\<close>) are natural numbers; negative indices, which numpy counts
  from the end, are outside the model.
\<close>

datatype error =
  ValueError | IndexError | TypeError | AttributeError | LinAlgError | ArpackError | NonFinite

type_synonym vec = "real list"

datatype mat = Mat (nrows: nat) (ncols: nat) (rows: "real list list")

fun bindE :: "error + 'a \<Rightarrow> ('a \<Rightarrow> error + 'b) \<Rightarrow> error + 'b" where
  "bindE (Inl e) f = Inl e"
| "bindE (Inr x) f = f x"

definition wf_mat :: "mat \<Rightarrow> bool" where
  "wf_mat A = (length (rows A) = nrows A \<and> list_all (\<lambda>r. length r = ncols A) (rows A))"

definition np_zeros :: "nat \<Rightarrow> nat \<Rightarrow> mat" where
  "np_zeros m n = Mat m n (replicate m (replicate n 0))"

definition np_identity :: "nat \<Rightarrow> mat" where
  "np_identity n = Mat n n (map (\<lambda>i. map (\<lambda>j. if i = j then 1 else 0) [0..<n]) [0..<n])"

definition smul :: "real \<Rightarrow> mat \<Rightarrow> mat" where
  \<comment> \<open>\<^verbatim>\<open>c * A\<close> for a scalar \<open>c\<close>\<close>
  "smul c A = Mat (nrows A) (ncols A) (map (map ((*) c)) (rows A))"

definition col :: "mat \<Rightarrow> nat \<Rightarrow> vec" where
  \<comment> \<open>\<^verbatim>\<open>A[:, j]\<close>\<close>
  "col A j = map (\<lambda>r. r ! j) (rows A)"

definition np_transpose :: "mat \<Rightarrow> mat" where
  "np_transpose A = Mat (ncols A) (nrows A) (map (col A) [0..<ncols A])"

definition dot :: "vec \<Rightarrow> vec \<Rightarrow> real" where
  "dot xs ys = sum_list (map2 (*) xs ys)"

definition np_matmul :: "mat \<Rightarrow> mat \<Rightarrow> error + mat" where
  \<comment> \<open>\<^verbatim>\<open>np.matmul(A, B)\<close> and \<^verbatim>\<open>A @ B\<close>: the inner dimensions must agree\<close>
  "np_matmul A B =
     (if ncols A = nrows B
      then Inr (Mat (nrows A) (ncols B)
                  (map (\<lambda>r. map (\<lambda>j. dot r (col B j)) [0..<ncols B]) (rows A)))
      else Inl ValueError)"

definition madd :: "mat \<Rightarrow> mat \<Rightarrow> error + mat" where
  \<comment> \<open>\<^verbatim>\<open>A + B\<close> on arrays of one shape (the program never adds arrays of different shapes
      that numpy would broadcast)\<close>
  "madd A B =
     (if nrows A = nrows B \<and> ncols A = ncols B
      then Inr (Mat (nrows A) (ncols A) (map2 (map2 (+)) (rows A) (rows B)))
      else Inl ValueError)"

definition msub :: "mat \<Rightarrow> mat \<Rightarrow> error + mat" where
  \<comment> \<open>\<^verbatim>\<open>A - B\<close>, as \<open>madd\<close>\<close>
  "msub A B =
     (if nrows A = nrows B \<and> ncols A = ncols B
      then Inr (Mat (nrows A) (ncols A) (map2 (map2 (-)) (rows A) (rows B)))
      else Inl ValueError)"

definition matvec :: "mat \<Rightarrow> vec \<Rightarrow> error + vec" where
  \<comment> \<open>\<^verbatim>\<open>A.dot(v)\<close> for a one-dimensional \<open>v\<close>\<close>
  "matvec A v =
     (if ncols A = length v then Inr (map (\<lambda>r. dot r v) (rows A)) else Inl ValueError)"

definition vadd :: "vec \<Rightarrow> vec \<Rightarrow> error + vec" where
  \<comment> \<open>\<^verbatim>\<open>v + w\<close> on one-dimensional arrays of one length\<close>
  "vadd v w = (if length v = length w then Inr (map2 (+) v w) else Inl ValueError)"

definition np_diag :: "vec \<Rightarrow> mat" where
  \<comment> \<open>\<^verbatim>\<open>np.diag(v)\<close> for a one-dimensional \<open>v\<close>\<close>
  "np_diag v =
     Mat (length v) (length v)
       (map (\<lambda>i. map (\<lambda>j. if i = j then v ! i else 0) [0..<length v]) [0..<length v])"

definition outer :: "vec \<Rightarrow> vec \<Rightarrow> mat" where
  \<comment> \<open>\<^verbatim>\<open>np.asarray([v]).T @ np.asarray([w])\<close>\<close>
  "outer v w = Mat (length v) (length w) (map (\<lambda>x. map ((*) x) w) v)"

definition row_at :: "'a list \<Rightarrow> nat \<Rightarrow> error + 'a" where
  \<comment> \<open>\<^verbatim>\<open>x[i]\<close> for \<open>i \<ge> 0\<close>\<close>
  "row_at xs i = (if i < length xs then Inr (xs ! i) else Inl IndexError)"

text \<open>
  One array of the program can come to hold \<^verbatim>\<open>nan\<close> while the program runs on: the gain \<^verbatim>\<open>a\<close>
  of the intrinsic plasticity, and with it the matrices the gain is multiplied into. Their
  entries are of the type \<open>fl\<close>, a real number or \<^verbatim>\<open>nan\<close>. As in IEEE arithmetic, a sum or a
  product with \<^verbatim>\<open>nan\<close> is \<^verbatim>\<open>nan\<close>, and so is \<open>0 / 0\<close>. A nonzero number divided by zero is an
  infinity with the sign of the zero, which a real number does not carry: there the model
  stops with \<open>NonFinite\<close>.
\<close>

datatype fl = Fin real | NaN

fun fadd :: "fl \<Rightarrow> fl \<Rightarrow> fl" where
  "fadd (Fin x) (Fin y) = Fin (x + y)"
| "fadd (Fin x) NaN = NaN"
| "fadd NaN y = NaN"

fun fmul :: "fl \<Rightarrow> fl \<Rightarrow> fl" where
  "fmul (Fin x) (Fin y) = Fin (x * y)"
| "fmul (Fin x) NaN = NaN"
| "fmul NaN y = NaN"

fun fdiv :: "real \<Rightarrow> fl \<Rightarrow> error + fl" where
  \<comment> \<open>\<^verbatim>\<open>c / y\<close> for a scalar \<open>c\<close> and one entry \<open>y\<close> of an array\<close>
  "fdiv c (Fin y) =
     (if y \<noteq> 0 then Inr (Fin (c / y)) else if c = 0 then Inr NaN else Inl NonFinite)"
| "fdiv c NaN = Inr NaN"

definition fvadd :: "fl list \<Rightarrow> fl list \<Rightarrow> error + fl list" where
  \<comment> \<open>\<^verbatim>\<open>v + w\<close> on one-dimensional arrays of one length\<close>
  "fvadd v w = (if length v = length w then Inr (map2 fadd v w) else Inl ValueError)"

datatype fmat = FMat (fnrows: nat) (fncols: nat) (frows: "fl list list")

definition fin_mat :: "mat \<Rightarrow> fmat" where
  \<comment> \<open>a matrix of real numbers as a matrix that may hold \<^verbatim>\<open>nan\<close>\<close>
  "fin_mat A = FMat (nrows A) (ncols A) (map (map Fin) (rows A))"

definition fdiag :: "fl list \<Rightarrow> fmat" where
  \<comment> \<open>\<^verbatim>\<open>np.diag(v)\<close> for a one-dimensional \<open>v\<close>\<close>
  "fdiag v =
     FMat (length v) (length v)
       (map (\<lambda>i. map (\<lambda>j. if i = j then v ! i else Fin 0) [0..<length v]) [0..<length v])"

definition fdot :: "fl list \<Rightarrow> fl list \<Rightarrow> fl" where
  "fdot xs ys = foldr fadd (map2 fmul xs ys) (Fin 0)"

definition fmatmul :: "fmat \<Rightarrow> fmat \<Rightarrow> error + fmat" where
  \<comment> \<open>\<^verbatim>\<open>np.matmul(A, B)\<close>, as \<open>np_matmul\<close>\<close>
  "fmatmul A B =
     (if fncols A = fnrows B
      then Inr (FMat (fnrows A) (fncols B)
                  (map (\<lambda>r. map (\<lambda>j. fdot r (map (\<lambda>c. c ! j) (frows B))) [0..<fncols B])
                     (frows A)))
      else Inl ValueError)"

definition fsmul :: "real \<Rightarrow> fmat \<Rightarrow> fmat" where
  \<comment> \<open>\<^verbatim>\<open>c * A\<close> for a scalar \<open>c\<close>\<close>
  "fsmul c A = FMat (fnrows A) (fncols A) (map (map (fmul (Fin c))) (frows A))"

section \<open>The random structure\<close>

text \<open>
  \<^verbatim>\<open>sp.coo_matrix((values, (rows, cols))).tocsr()\<close>, with no \<^verbatim>\<open>shape\<close> argument: scipy
  takes the shape from the largest row and column index, and adds up the values given for one
  position.
\<close>

definition coo_tocsr :: "vec \<Rightarrow> nat list \<Rightarrow> nat list \<Rightarrow> error + mat" where
  "coo_tocsr vals rws cls =
     (if length rws \<noteq> length vals \<or> length cls \<noteq> length vals \<or> vals = [] then Inl ValueError
      else Inr (Mat (Suc (fold max rws 0)) (Suc (fold max cls 0))
             (map (\<lambda>i. map (\<lambda>j. sum_list (map ((!) vals)
                                   (filter (\<lambda>k. rws ! k = i \<and> cls ! k = j) [0..<length vals])))
                            [0..<Suc (fold max cls 0)])
                  [0..<Suc (fold max rws 0)])))"

text \<open>
  \<^verbatim>\<open>ESN.input_matrix\<close> (lines 112-125). The two draws of the seeded generator,
  \<^verbatim>\<open>stats.randint(0, d).rvs(N)\<close> and \<^verbatim>\<open>stats.uniform(loc=-1, scale=2).rvs(N)\<close>, are the
  arguments \<open>cols\<close> and \<open>vals\<close>: \<open>N\<close> column indices below \<open>d\<close> and \<open>N\<close> values of \<open>[-1, 1)\<close>.
\<close>

definition input_matrix :: "nat \<Rightarrow> nat list \<Rightarrow> vec \<Rightarrow> error + mat" where
  "input_matrix n cols vals = coo_tocsr vals [0..<n] cols"

definition draws_ok :: "nat \<Rightarrow> nat \<Rightarrow> nat list \<Rightarrow> vec \<Rightarrow> bool" where
  \<comment> \<open>what the generator guarantees of the two draws\<close>
  "draws_ok n k cols vals =
     (length cols = n \<and> length vals = n \<and> list_all (\<lambda>c. c < k) cols
      \<and> list_all (\<lambda>x. - 1 \<le> x \<and> x < 1) vals)"


section \<open>The libraries\<close>

text \<open>
  The eigensolver, the matrix inversion, the ODE integrator and the spline fit are library
  calls; the model takes them as one record of functions, and a theorem that needs a property
  of a library states it as a hypothesis.
  \<^item> \<open>eigs A\<close> is \<^verbatim>\<open>sp.linalg.eigs(A, 1, which='LM', return_eigenvectors=False)[0]\<close>;
  \<^item> \<open>linalg_inv A\<close> is \<^verbatim>\<open>np.linalg.inv(A)\<close>;
  \<^item> \<open>odeint f r0 t\<close> is \<^verbatim>\<open>integrate.odeint(f, r0, t)\<close>, the trajectory as the list of its rows;
  \<^item> \<open>splprep coords t\<close> is \<^verbatim>\<open>splprep(coords, u=t, s=0)\<close> followed by \<^verbatim>\<open>splev\<close>: the interpolant.
\<close>

record lib =
  eigs :: "mat \<Rightarrow> error + complex"
  linalg_inv :: "mat \<Rightarrow> error + mat"
  odeint :: "(vec \<Rightarrow> real \<Rightarrow> error + vec) \<Rightarrow> vec \<Rightarrow> vec \<Rightarrow> error + vec list"
  splprep :: "vec list \<Rightarrow> vec \<Rightarrow> error + (real \<Rightarrow> vec)"

section \<open>The model state\<close>

text \<open>
  The three classes \<^verbatim>\<open>ESN\<close>, \<^verbatim>\<open>AHESN(ESN)\<close> and \<^verbatim>\<open>IPESN(AHESN)\<close> are one record: \<open>kind\<close>
  says which class the object has (it selects the overridden \<^verbatim>\<open>f_LR\<close> and \<^verbatim>\<open>f_PR\<close>), and
  the fields a subclass adds are present, and unused, in the objects of its base classes.
\<close>

datatype variant = ESN | AHESN | IPESN

record esn =
  kind :: variant
  N :: nat
  d :: nat
  seed :: nat
  p :: real
  rho :: real
  sigma :: real
  gamma :: real
  beta :: real
  W_in_orig :: mat
  W_in :: mat
  M_orig :: mat
  M :: mat
  W_out :: "mat option"
  u :: "(real \<Rightarrow> vec) option"
  r_T :: "vec option"
  eta :: real
  epochs :: nat
  nu :: real
  mu :: real
  sd :: real
  a :: "fl list"
  b :: vec

definition set_rho :: "real \<Rightarrow> esn \<Rightarrow> esn" where
  \<comment> \<open>the setter of \<^verbatim>\<open>rho\<close> (lines 65-72)\<close>
  "set_rho r st = st\<lparr>rho := r, M := smul r (M_orig st)\<rparr>"

definition set_sigma :: "real \<Rightarrow> esn \<Rightarrow> esn" where
  \<comment> \<open>the setter of \<^verbatim>\<open>sigma\<close> (lines 80-87)\<close>
  "set_sigma s st = st\<lparr>sigma := s, W_in := smul s (W_in_orig st)\<rparr>"

definition adj_matrix :: "lib \<Rightarrow> mat \<Rightarrow> error + mat" where
  \<comment> \<open>\<^verbatim>\<open>ESN.adj_matrix\<close> (lines 99-109); \<open>raw\<close> is the draw
      \<^verbatim>\<open>sp.random(N, N, p, format='csr', data_rvs=rvs)\<close> of the seeded generator\<close>
  "adj_matrix L raw =
     bindE (eigs L raw) (\<lambda>ev.
       let max_eval = cmod ev
       in if max_eval = 0 then Inl NonFinite else Inr (smul (1 / max_eval) raw))"

definition ESN_init ::
  "lib \<Rightarrow> nat list \<Rightarrow> vec \<Rightarrow> mat \<Rightarrow> nat \<Rightarrow> real \<Rightarrow> nat \<Rightarrow> real \<Rightarrow> real \<Rightarrow> real \<Rightarrow> real \<Rightarrow> nat
     \<Rightarrow> error + esn" where
  \<comment> \<open>\<^verbatim>\<open>ESN.__init__(N, p, d, rho, sigma, gamma, beta, seed)\<close> (lines 38-57), for the draws
      \<open>cols\<close>, \<open>vals\<close> and \<open>raw\<close> of the generator seeded with \<open>seed\<close>\<close>
  "ESN_init L cols vals raw n pp dd r s g bt sd0 =
     bindE (input_matrix n cols vals) (\<lambda>W.
     bindE (adj_matrix L raw) (\<lambda>Mo.
       Inr \<lparr>kind = ESN, N = n, d = dd, seed = sd0, p = pp, rho = r, sigma = s, gamma = g,
            beta = bt, W_in_orig = W, W_in = smul s W, M_orig = Mo, M = smul r Mo,
            W_out = None, u = None, r_T = None,
            eta = 0, epochs = 0, nu = 0, mu = 0, sd = 0, a = [], b = []\<rparr>))"

definition AHESN_init ::
  "lib \<Rightarrow> nat list \<Rightarrow> vec \<Rightarrow> mat \<Rightarrow> nat \<Rightarrow> real \<Rightarrow> nat \<Rightarrow> real \<Rightarrow> real \<Rightarrow> real \<Rightarrow> real \<Rightarrow> real \<Rightarrow> nat
     \<Rightarrow> nat \<Rightarrow> error + esn" where
  \<comment> \<open>\<^verbatim>\<open>AHESN.__init__\<close> (lines 176-179)\<close>
  "AHESN_init L cols vals raw n pp dd r s g bt et ep sd0 =
     bindE (ESN_init L cols vals raw n pp dd r s g bt sd0) (\<lambda>st.
       Inr (st\<lparr>kind := AHESN, eta := et, epochs := ep\<rparr>))"

definition IPESN_init ::
  "lib \<Rightarrow> nat list \<Rightarrow> vec \<Rightarrow> mat \<Rightarrow> nat \<Rightarrow> real \<Rightarrow> nat \<Rightarrow> real \<Rightarrow> real \<Rightarrow> real \<Rightarrow> real \<Rightarrow> real \<Rightarrow> real
     \<Rightarrow> real \<Rightarrow> real \<Rightarrow> nat \<Rightarrow> nat \<Rightarrow> error + esn" where
  \<comment> \<open>\<^verbatim>\<open>IPESN.__init__\<close> (lines 252-258); the defaults \<^verbatim>\<open>eta=0, epochs=0, seed=1\<close> are
      the caller's to pass\<close>
  "IPESN_init L cols vals raw n pp dd r s g bt nu0 mu0 sdev et ep sd0 =
     bindE (AHESN_init L cols vals raw n pp dd r s g bt et ep sd0) (\<lambda>st.
       Inr (st\<lparr>kind := IPESN, nu := nu0, mu := mu0, sd := sdev,
               a := replicate n (Fin 1), b := replicate n 0\<rparr>))"

section \<open>Dynamics\<close>

definition q :: "nat \<Rightarrow> vec \<Rightarrow> error + vec" where
  \<comment> \<open>\<^verbatim>\<open>ESN.q\<close> (lines 128-133): the two slice assignments need \<open>r\<close> of length \<open>N\<close>\<close>
  "q n r = (if length r = n then Inr (r @ map (\<lambda>x. x ^ 2) r) else Inl ValueError)"

definition spline :: "lib \<Rightarrow> esn \<Rightarrow> mat \<Rightarrow> vec \<Rightarrow> error + (real \<Rightarrow> vec)" where
  \<comment> \<open>\<^verbatim>\<open>ESN.spline\<close> (lines 136-139)\<close>
  "spline L st data t =
     (if d st \<le> ncols data then splprep L (map (col data) [0..<d st]) t else Inl IndexError)"

definition drive :: "esn \<Rightarrow> vec \<Rightarrow> vec \<Rightarrow> error + vec" where
  \<comment> \<open>\<^verbatim>\<open>gamma*(-r + np.tanh(M.dot(r) + W_in.dot(v)))\<close>, with \<^verbatim>\<open>+ b\<close> inside the
      \<^verbatim>\<open>tanh\<close> for an \<^verbatim>\<open>IPESN\<close> (lines 92, 96, 184, 189, 263, 268)\<close>
  "drive st r v =
     bindE (matvec (M st) r) (\<lambda>mr.
     bindE (matvec (W_in st) v) (\<lambda>wv.
     bindE (vadd mr wv) (\<lambda>s.
     bindE (if kind st = IPESN then vadd s (b st) else Inr s) (\<lambda>s'.
     bindE (vadd (map uminus r) (map tanh s')) (\<lambda>y.
       Inr (map ((*) (gamma st)) y))))))"

definition f_LR :: "esn \<Rightarrow> vec \<Rightarrow> real \<Rightarrow> error + vec" where
  "f_LR st r t = (case u st of None \<Rightarrow> Inl TypeError | Some f \<Rightarrow> drive st r (f t))"

definition f_PR :: "esn \<Rightarrow> vec \<Rightarrow> real \<Rightarrow> error + vec" where
  "f_PR st r t =
     (case W_out st of
        None \<Rightarrow> Inl AttributeError
      | Some W \<Rightarrow> bindE (q (N st) r) (\<lambda>x. bindE (matvec W x) (\<lambda>v. drive st r v)))"

section \<open>Training and prediction\<close>

fun foldE :: "('s \<Rightarrow> 'i \<Rightarrow> error + 's) \<Rightarrow> 'i list \<Rightarrow> 's \<Rightarrow> error + 's" where
  \<comment> \<open>a \<^verbatim>\<open>for\<close> loop over a list of indices that stops at the first error\<close>
  "foldE f [] s = Inr s"
| "foldE f (i # ixs) s = bindE (f s i) (foldE f ixs)"

fun mapE :: "('i \<Rightarrow> error + 'x) \<Rightarrow> 'i list \<Rightarrow> error + 'x list" where
  \<comment> \<open>a list comprehension that stops at the first error\<close>
  "mapE f [] = Inr []"
| "mapE f (i # ixs) = bindE (f i) (\<lambda>y. bindE (mapE f ixs) (\<lambda>ys. Inr (y # ys)))"

definition set_col :: "mat \<Rightarrow> nat \<Rightarrow> vec \<Rightarrow> error + mat" where
  \<comment> \<open>\<^verbatim>\<open>X[:, j] = c\<close> for \<open>j \<ge> 0\<close>\<close>
  "set_col X j c =
     (if ncols X \<le> j then Inl IndexError
      else if length c \<noteq> nrows X then Inl ValueError
      else Inr (Mat (nrows X) (ncols X) (map2 (\<lambda>r x. r[j := x]) (rows X) c)))"

definition design_matrix :: "nat \<Rightarrow> vec list \<Rightarrow> nat \<Rightarrow> nat \<Rightarrow> error + mat" where
  \<comment> \<open>lines 148 and 150-151 of \<^verbatim>\<open>ESN.train\<close>: \<open>T\<close> is \<^verbatim>\<open>t.size\<close>; a negative number of
      columns is a \<^verbatim>\<open>ValueError\<close> of \<^verbatim>\<open>np.zeros\<close>\<close>
  "design_matrix n LR_traj T t_listen =
     (if T < t_listen then Inl ValueError
      else foldE (\<lambda>X i. bindE (row_at LR_traj (i + 1)) (\<lambda>r.
                        bindE (q n r) (\<lambda>c. set_col X (i + 1 - t_listen) c)))
             [t_listen..<T - 1] (np_zeros (2 * n) (T - t_listen)))"

definition target_matrix :: "mat \<Rightarrow> nat \<Rightarrow> mat" where
  \<comment> \<open>line 149: \<^verbatim>\<open>Y = np.transpose(data[t_listen:])\<close>\<close>
  "target_matrix data t_listen =
     np_transpose (Mat (nrows data - t_listen) (ncols data) (drop t_listen (rows data)))"

definition ridge_matrix :: "real \<Rightarrow> nat \<Rightarrow> mat \<Rightarrow> error + mat" where
  \<comment> \<open>the argument of \<^verbatim>\<open>np.linalg.inv\<close> in line 156\<close>
  "ridge_matrix bt n X =
     bindE (np_matmul X (np_transpose X)) (\<lambda>XX. madd XX (smul bt (np_identity (2 * n))))"

definition readout :: "lib \<Rightarrow> real \<Rightarrow> nat \<Rightarrow> mat \<Rightarrow> mat \<Rightarrow> error + mat" where
  \<comment> \<open>lines 154-157\<close>
  "readout L bt n X Y =
     bindE (np_matmul Y (np_transpose X)) (\<lambda>M_1.
     bindE (ridge_matrix bt n X) (\<lambda>R.
     bindE (linalg_inv L R) (\<lambda>M_2.
       np_matmul M_1 M_2)))"

definition last_row :: "'a list \<Rightarrow> error + 'a" where
  \<comment> \<open>\<^verbatim>\<open>x[-1]\<close>\<close>
  "last_row xs = (if xs = [] then Inl IndexError else Inr (last xs))"

definition train :: "lib \<Rightarrow> esn \<Rightarrow> mat \<Rightarrow> vec \<Rightarrow> nat \<Rightarrow> error + vec list \<times> esn" where
  \<comment> \<open>\<^verbatim>\<open>ESN.train(data, t, t_listen)\<close> (lines 142-160), for \<open>t_listen \<ge> 0\<close>: the trajectory
      it returns and the state it leaves\<close>
  "train L st data t t_listen =
     bindE (case u st of None \<Rightarrow> spline L st data t | Some f \<Rightarrow> Inr f) (\<lambda>f.
     let st1 = st\<lparr>u := Some f\<rparr> in
     bindE (odeint L (f_LR st1) (replicate (N st1) 0) t) (\<lambda>LR_traj.
     bindE (design_matrix (N st1) LR_traj (length t) t_listen) (\<lambda>X.
     bindE (readout L (beta st1) (N st1) X (target_matrix data t_listen)) (\<lambda>W.
     bindE (last_row LR_traj) (\<lambda>rT.
       Inr (LR_traj, st1\<lparr>W_out := Some W, r_T := Some rT\<rparr>))))))"

definition project :: "esn \<Rightarrow> vec list \<Rightarrow> error + vec list" where
  \<comment> \<open>line 171\<close>
  "project st PR_traj =
     (case W_out st of
        None \<Rightarrow> (if PR_traj = [] then Inr [] else Inl AttributeError)
      | Some W \<Rightarrow> mapE (\<lambda>x. bindE (q (N st) x) (matvec W)) PR_traj)"

definition predict ::
  "lib \<Rightarrow> esn \<Rightarrow> vec \<Rightarrow> mat option \<Rightarrow> vec option \<Rightarrow> error + vec list \<times> esn" where
  \<comment> \<open>\<^verbatim>\<open>ESN.predict(t_predict, data=None, t=None)\<close> (lines 163-172)\<close>
  "predict L st t_predict data t =
     (case data of
        None \<Rightarrow>
          (case r_T st of
             None \<Rightarrow> Inl TypeError
           | Some r0 \<Rightarrow>
               bindE (odeint L (f_PR st) r0 t_predict) (\<lambda>PR_traj.
               bindE (project st PR_traj) (\<lambda>prediction. Inr (prediction, st))))
      | Some dat \<Rightarrow>
          (case t of
             None \<Rightarrow> Inl TypeError
           | Some tt \<Rightarrow>
               bindE (spline L st dat tt) (\<lambda>f.
               let st1 = st\<lparr>u := Some f\<rparr> in
               bindE (odeint L (f_LR st1) (replicate (N st1) 0) tt) (\<lambda>LR_traj.
               bindE (last_row LR_traj) (\<lambda>r0.
               bindE (odeint L (f_PR st1) r0 t_predict) (\<lambda>PR_traj.
               bindE (project st1 PR_traj) (\<lambda>prediction. Inr (prediction, st1))))))))"


section \<open>Hebbian adaptation\<close>

definition set_row :: "mat \<Rightarrow> nat \<Rightarrow> vec \<Rightarrow> error + mat" where
  \<comment> \<open>\<^verbatim>\<open>X[i, :] = r\<close> for \<open>i \<ge> 0\<close>\<close>
  "set_row X i r =
     (if nrows X \<le> i then Inl IndexError
      else if length r \<noteq> ncols X then Inl ValueError
      else Inr (Mat (nrows X) (ncols X) ((rows X)[i := r])))"

definition hebb_step :: "esn \<Rightarrow> vec list \<Rightarrow> mat \<times> mat \<Rightarrow> nat \<Rightarrow> error + mat \<times> mat" where
  \<comment> \<open>lines 203-205, on the pair of the local arrays \<^verbatim>\<open>X\<close> and \<^verbatim>\<open>M\<close>\<close>
  "hebb_step st x XM t =
     bindE (foldE (\<lambda>X i. bindE (row_at x (t + 1)) (\<lambda>xa.
                        bindE (row_at xa i) (\<lambda>s.
                        bindE (row_at x t) (\<lambda>xb. set_row X i (map ((*) s) xb)))))
              [0..<N st] (fst XM)) (\<lambda>X.
     bindE (msub (snd XM) (smul (eta st) X)) (\<lambda>M'. Inr (X, M')))"

definition hebb_learn :: "lib \<Rightarrow> esn \<Rightarrow> mat \<Rightarrow> vec \<Rightarrow> nat \<Rightarrow> bool \<Rightarrow> error + esn" where
  \<comment> \<open>\<^verbatim>\<open>AHESN.hebb_learn(data, t, t_listen, rescale)\<close> (lines 193-208), for \<open>t_listen \<ge> 0\<close>\<close>
  "hebb_learn L st data t t_listen rescale =
     (let st0 = (if rescale then set_rho (rho st) st else st) in
      bindE (spline L st0 data t) (\<lambda>f.
      let st1 = st0\<lparr>u := Some f\<rparr> in
      bindE (odeint L (f_LR st1) (replicate (N st1) 0) t) (\<lambda>x.
      bindE (foldE (\<lambda>XM e. foldE (hebb_step st1 x) [t_listen..<nrows data - 1] XM)
               [0..<epochs st1] (np_zeros (N st1) (N st1), M_orig st1)) (\<lambda>XM.
        Inr (st1\<lparr>M := smul (rho st1) (snd XM)\<rparr>)))))"

text \<open>
  \<^verbatim>\<open>AHESN.hebb_learn_vector\<close> (lines 211-232). The calls of the eigensolver are an effect
  of the procedure: the model returns, with the state, the list of the matrices it handed to
  \<open>eigs\<close>, in the order of the calls.
\<close>

definition rescale_to :: "lib \<Rightarrow> real \<Rightarrow> mat \<times> mat list \<Rightarrow> error + mat \<times> mat list" where
  \<comment> \<open>lines 222-223 and 226-227: one call of the eigensolver and the division by its result\<close>
  "rescale_to L r Ml =
     bindE (eigs L (fst Ml)) (\<lambda>ev.
       let max_eval = cmod ev
       in if max_eval = 0 then Inl NonFinite
          else Inr (smul (r / max_eval) (fst Ml), snd Ml @ [fst Ml]))"

definition hebb_vector_step ::
  "lib \<Rightarrow> esn \<Rightarrow> int \<Rightarrow> vec list \<Rightarrow> mat \<times> mat list \<Rightarrow> nat \<Rightarrow> error + mat \<times> mat list" where
  \<comment> \<open>lines 220-223: the body of the loop over \<^verbatim>\<open>t\<close>\<close>
  "hebb_vector_step L st scale_M x Ml t =
     bindE (row_at x (t + 1)) (\<lambda>xa.
     bindE (row_at x t) (\<lambda>xb.
     bindE (msub (fst Ml) (smul (eta st) (outer xa xb))) (\<lambda>M'.
       if scale_M = 2 then rescale_to L (rho st) (M', snd Ml) else Inr (M', snd Ml))))"

definition hebb_learn_vector ::
  "lib \<Rightarrow> esn \<Rightarrow> mat \<Rightarrow> vec \<Rightarrow> nat \<Rightarrow> bool \<Rightarrow> int \<Rightarrow> error + esn \<times> mat list" where
  "hebb_learn_vector L st data t t_listen reset_M scale_M =
     (let st0 = (if reset_M then set_rho (rho st) st else st) in
      bindE (spline L st0 data t) (\<lambda>f.
      let st1 = st0\<lparr>u := Some f\<rparr> in
      bindE (odeint L (f_LR st1) (replicate (N st1) 0) t) (\<lambda>x.
      bindE (foldE (\<lambda>Ml e. foldE (hebb_vector_step L st1 scale_M x)
                                [t_listen..<nrows data - 1] Ml)
               [0..<epochs st1] (M st1, [])) (\<lambda>Ml.
        if scale_M = 1
        then bindE (rescale_to L (rho st1) Ml) (\<lambda>Ml'. Inr (st1\<lparr>M := fst Ml'\<rparr>, snd Ml'))
        else Inr (st1\<lparr>M := fst Ml\<rparr>, snd Ml)))))"

definition col_norms :: "mat \<Rightarrow> vec" where
  \<comment> \<open>\<^verbatim>\<open>np.linalg.norm(A, axis=0)\<close>\<close>
  "col_norms A = map (\<lambda>j. sqrt (sum_list (map (\<lambda>x. x ^ 2) (col A j)))) [0..<ncols A]"

definition recip :: "real \<Rightarrow> vec \<Rightarrow> error + vec" where
  \<comment> \<open>\<^verbatim>\<open>c / v\<close> for a scalar \<open>c\<close>\<close>
  "recip c v = (if 0 \<in> set v then Inl NonFinite else Inr (map (\<lambda>x. c / x) v))"

definition norm_hebb_step :: "esn \<Rightarrow> vec list \<Rightarrow> mat \<Rightarrow> nat \<Rightarrow> error + mat" where
  \<comment> \<open>lines 244-245\<close>
  "norm_hebb_step st x Mc t =
     bindE (row_at x (t + 1)) (\<lambda>xa.
     bindE (row_at x t) (\<lambda>xb.
     bindE (msub Mc (smul (eta st) (outer xa xb))) (\<lambda>M_hat.
     bindE (recip 1 (col_norms M_hat)) (\<lambda>w.
       np_matmul (np_diag w) M_hat))))"

definition norm_hebb_learn :: "lib \<Rightarrow> esn \<Rightarrow> mat \<Rightarrow> vec \<Rightarrow> nat \<Rightarrow> bool \<Rightarrow> error + esn" where
  \<comment> \<open>\<^verbatim>\<open>AHESN.norm_hebb_learn\<close> (lines 235-248)\<close>
  "norm_hebb_learn L st data t t_listen reset_M =
     (let st0 = (if reset_M then set_rho (rho st) st else st) in
      bindE (spline L st0 data t) (\<lambda>f.
      let st1 = st0\<lparr>u := Some f\<rparr> in
      bindE (odeint L (f_LR st1) (replicate (N st1) 0) t) (\<lambda>x.
      bindE (foldE (\<lambda>Mc e. foldE (norm_hebb_step st1 x) [t_listen..<nrows data - 1] Mc)
               [0..<epochs st1] (M_orig st1)) (\<lambda>Mc.
        Inr (st1\<lparr>M := smul (rho st1) Mc\<rparr>)))))"

section \<open>Intrinsic plasticity\<close>

definition H :: "esn \<Rightarrow> vec \<Rightarrow> error + vec" where
  \<comment> \<open>\<^verbatim>\<open>IPESN.H\<close> (lines 272-273), on a one-dimensional array\<close>
  "H st x =
     (if (sd st) ^ 2 = 0 then Inl NonFinite
      else Inr (map (\<lambda>y. - mu st / (sd st) ^ 2
                         + (y / (sd st) ^ 2) * (2 * (sd st) ^ 2 + 1 - y ^ 2 + mu st * y)) x))"

definition IP_step ::
  "esn \<Rightarrow> vec list \<Rightarrow> vec list \<Rightarrow> fl list \<times> vec \<Rightarrow> nat \<Rightarrow> error + fl list \<times> vec" where
  \<comment> \<open>lines 286-289, on the pair of the fields \<^verbatim>\<open>a\<close> and \<^verbatim>\<open>b\<close>. In \<^verbatim>\<open>self.nu/self.a\<close> a zero
      entry of the gain gives \<^verbatim>\<open>nan\<close> when \<open>nu = 0\<close>; numpy warns and goes on\<close>
  "IP_step st x z ab t =
     bindE (row_at x t) (\<lambda>xt.
     bindE (H st xt) (\<lambda>h.
     let delta_b = map ((*) (- nu st)) h in
     bindE (mapE (fdiv (nu st)) (fst ab)) (\<lambda>na.
     bindE (row_at z t) (\<lambda>zt.
     bindE (matvec (np_diag delta_b) zt) (\<lambda>dz.
     bindE (fvadd na (map Fin dz)) (\<lambda>delta_a.
     bindE (vadd (snd ab) delta_b) (\<lambda>b'.
     bindE (fvadd (fst ab) delta_a) (\<lambda>a'.
       Inr (a', b')))))))))"

text \<open>
  \<^verbatim>\<open>IPESN.IP_train(data, t_points, epochs, rescale)\<close> (lines 276-292). The matrices that lines
  291 and 292 assign to \<^verbatim>\<open>self.M\<close> and \<^verbatim>\<open>self.W_in\<close> hold \<^verbatim>\<open>nan\<close> where the gain does, so the model
  returns them beside the state: the object after the call is the first component, with the
  second stored in \<open>M\<close> and the third in \<open>W_in\<close>.
\<close>

definition IP_train ::
  "lib \<Rightarrow> esn \<Rightarrow> mat \<Rightarrow> vec \<Rightarrow> nat \<Rightarrow> bool \<Rightarrow> error + esn \<times> fmat \<times> fmat" where
  "IP_train L st data t_points n_epochs rescale =
     (let st0 = (if rescale then set_sigma (sigma (set_rho (rho st) st)) (set_rho (rho st) st)
                 else st) in
      bindE (spline L st0 data t_points) (\<lambda>f.
      let st1 = st0\<lparr>u := Some f\<rparr> in
      bindE (odeint L (f_LR st1) (replicate (N st1) 0) t_points) (\<lambda>x.
      bindE (mapE (\<lambda>t. bindE (row_at x t) (\<lambda>xt.
                       bindE (matvec (M st1) xt) (\<lambda>mx.
                       bindE (matvec (W_in st1) (f (t_points ! t))) (\<lambda>wu. vadd mx wu))))
               [0..<length t_points]) (\<lambda>z.
      bindE (foldE (\<lambda>ab e. foldE (IP_step st1 x z) [0..<length t_points] ab)
               [0..<n_epochs] (a st1, b st1)) (\<lambda>ab.
      bindE (fmatmul (fdiag (fst ab)) (fin_mat (M st1))) (\<lambda>aM.
      bindE (fmatmul (fdiag (fst ab)) (fin_mat (W_in st1))) (\<lambda>aW.
        Inr (st1\<lparr>a := fst ab, b := snd ab\<rparr>,
             fsmul (rho st1) aM, fsmul (sigma st1) aW))))))))"

section \<open>Vocabulary of the specification\<close>

text \<open>
  Eigenvalues are taken over the complex numbers: \<open>lam\<close> is an eigenvalue of \<open>A\<close> when some
  nonzero complex vector is mapped by \<open>A\<close> to its multiple by \<open>lam\<close>. The spectral radius is the
  modulus of an eigenvalue that no eigenvalue exceeds in modulus.
\<close>

definition cmatvec :: "mat \<Rightarrow> complex list \<Rightarrow> complex list" where
  "cmatvec A v = map (\<lambda>r. sum_list (map2 (\<lambda>x y. of_real x * y) r v)) (rows A)"

definition eigenvalue :: "mat \<Rightarrow> complex \<Rightarrow> bool" where
  "eigenvalue A lam =
     (\<exists>v. length v = ncols A \<and> (\<exists>x \<in> set v. x \<noteq> 0) \<and> cmatvec A v = map ((*) lam) v)"

definition dominant :: "mat \<Rightarrow> complex \<Rightarrow> bool" where
  "dominant A lam = (eigenvalue A lam \<and> (\<forall>k. eigenvalue A k \<longrightarrow> cmod k \<le> cmod lam))"

definition spectral_radius :: "mat \<Rightarrow> real \<Rightarrow> bool" where
  "spectral_radius A r = (\<exists>lam. dominant A lam \<and> cmod lam = r)"

text \<open>
  The matrices of the ridge regression, by their entries: the transpose, the product, and
  \<open>X X\<^sup>T + beta I\<close>.
\<close>

definition entry :: "mat \<Rightarrow> nat \<Rightarrow> nat \<Rightarrow> real" where
  "entry A i j = rows A ! i ! j"

definition transpose_of :: "mat \<Rightarrow> mat" where
  "transpose_of A =
     Mat (ncols A) (nrows A) (map (\<lambda>i. map (\<lambda>j. entry A j i) [0..<nrows A]) [0..<ncols A])"

definition product_of :: "mat \<Rightarrow> mat \<Rightarrow> mat" where
  "product_of A B =
     Mat (nrows A) (ncols B)
       (map (\<lambda>i. map (\<lambda>j. \<Sum>k<ncols A. entry A i k * entry B k j) [0..<ncols B])
          [0..<nrows A])"

definition ridge_of :: "real \<Rightarrow> mat \<Rightarrow> mat" where
  "ridge_of bt X =
     Mat (nrows X) (nrows X)
       (map (\<lambda>i. map (\<lambda>j. (\<Sum>k<ncols X. entry X i k * entry X j k) + (if i = j then bt else 0))
                 [0..<nrows X])
          [0..<nrows X])"

definition identity_of :: "nat \<Rightarrow> mat" where
  "identity_of n = Mat n n (map (\<lambda>i. map (\<lambda>j. if i = j then 1 else 0) [0..<n]) [0..<n])"

definition is_inverse :: "mat \<Rightarrow> mat \<Rightarrow> bool" where
  "is_inverse A B =
     (wf_mat B \<and> nrows B = ncols A \<and> ncols B = nrows A
      \<and> product_of A B = identity_of (nrows A) \<and> product_of B A = identity_of (nrows A))"

definition invertible :: "mat \<Rightarrow> bool" where
  "invertible A = (\<exists>B. is_inverse A B)"

text \<open>A gain entry is regular when it is a number, not \<^verbatim>\<open>nan\<close>, and not zero.\<close>

fun regular :: "fl \<Rightarrow> bool" where
  "regular (Fin y) = (y \<noteq> 0)"
| "regular NaN = False"

definition eigs_exact :: "lib \<Rightarrow> mat \<Rightarrow> bool" where
  \<comment> \<open>what the eigensolver promises at \<open>A\<close>, in exact arithmetic: when it returns, an
      eigenvalue of largest modulus\<close>
  "eigs_exact L A = (case eigs L A of Inr ev \<Rightarrow> dominant A ev | Inl e \<Rightarrow> True)"

section \<open>Concrete libraries and inputs\<close>

text \<open>
  The theorems hold for every library. The concrete runs below need one to compute with.
  \<open>fixed_lib traj\<close> has an integrator that returns the trajectory \<open>traj\<close> whatever it is
  asked, and the cofactor formula for the inverse of a two-by-two matrix.
\<close>

definition inv2 :: "mat \<Rightarrow> error + mat" where
  "inv2 A =
     (case rows A of
        [[x11, x12], [x21, x22]] \<Rightarrow>
          (let dt = x11 * x22 - x12 * x21
           in if dt = 0 then Inl LinAlgError
              else Inr (Mat 2 2 [[x22 / dt, - x12 / dt], [- x21 / dt, x11 / dt]]))
      | _ \<Rightarrow> Inl LinAlgError)"

definition fixed_lib :: "vec list \<Rightarrow> lib" where
  "fixed_lib traj =
     \<lparr>eigs = (\<lambda>A. Inl ArpackError), linalg_inv = inv2,
      odeint = (\<lambda>f r0 t. Inr traj), splprep = (\<lambda>coords t. Inr (\<lambda>x. map hd coords))\<rparr>"

text \<open>
  \<open>rest_lib\<close> is exact on the inputs it accepts: the eigenvalue of largest modulus and the
  inverse of a diagonal matrix, the interpolant of constant samples on a grid of four points or
  more (the constant function), and the solution of an initial value problem whose field
  vanishes at the initial state on the grid (the state stays where it is).
\<close>

definition diagonal :: "mat \<Rightarrow> vec" where
  "diagonal A = map (\<lambda>i. rows A ! i ! i) [0..<nrows A]"

definition is_diag :: "mat \<Rightarrow> bool" where
  "is_diag A = (A = np_diag (diagonal A))"

definition eigs_diag :: "mat \<Rightarrow> error + complex" where
  "eigs_diag A =
     (if is_diag A \<and> 0 < nrows A
      then Inr (of_real (fold (\<lambda>x m. if \<bar>m\<bar> < \<bar>x\<bar> then x else m) (diagonal A) 0))
      else Inl ArpackError)"

definition inv_diag :: "mat \<Rightarrow> error + mat" where
  "inv_diag A =
     (if is_diag A \<and> 0 \<notin> set (diagonal A) then Inr (np_diag (map inverse (diagonal A)))
      else Inl LinAlgError)"

definition splprep_const :: "vec list \<Rightarrow> vec \<Rightarrow> error + (real \<Rightarrow> vec)" where
  "splprep_const coords t =
     (if 4 \<le> length t \<and> list_all (\<lambda>c. c = replicate (length t) (hd c)) coords
      then Inr (\<lambda>x. map hd coords) else Inl ValueError)"

definition odeint_rest ::
  "(vec \<Rightarrow> real \<Rightarrow> error + vec) \<Rightarrow> vec \<Rightarrow> vec \<Rightarrow> error + vec list" where
  "odeint_rest f r0 t =
     (if list_all (\<lambda>x. f r0 x = Inr (replicate (length r0) 0)) t
      then Inr (map (\<lambda>x. r0) t) else Inl ValueError)"

definition rest_lib :: lib where
  "rest_lib =
     \<lparr>eigs = eigs_diag, linalg_inv = inv_diag, odeint = odeint_rest, splprep = splprep_const\<rparr>"

text \<open>A base model with one unit, and three samples of a one-dimensional signal.\<close>

definition unit_esn :: esn where
  "unit_esn =
     \<lparr>kind = ESN, N = 1, d = 1, seed = 1, p = 1, rho = 1 / 2, sigma = 1, gamma = 1, beta = 1,
      W_in_orig = Mat 1 1 [[1]], W_in = Mat 1 1 [[1]],
      M_orig = Mat 1 1 [[1]], M = Mat 1 1 [[1 / 2]],
      W_out = None, u = None, r_T = None,
      eta = 0, epochs = 0, nu = 0, mu = 0, sd = 0, a = [], b = []\<rparr>"

definition ramp_data :: mat where
  "ramp_data = Mat 3 1 [[1], [2], [3]]"

definition ramp_traj :: "vec list" where
  "ramp_traj = [[0], [1], [2]]"

text \<open>
  A Hebbian model of three units whose raw adjacency draw was \<open>diag(2, 1, 1)\<close>, with
  \<open>rho = 1\<close>, and the draw itself.
\<close>

definition diag_esn :: esn where
  "diag_esn =
     \<lparr>kind = AHESN, N = 3, d = 1, seed = 1, p = 1 / 3, rho = 1, sigma = 1, gamma = 1, beta = 1,
      W_in_orig = Mat 3 1 [[1 / 2], [- 1 / 2], [1 / 4]],
      W_in = Mat 3 1 [[1 / 2], [- 1 / 2], [1 / 4]],
      M_orig = Mat 3 3 [[1, 0, 0], [0, 1 / 2, 0], [0, 0, 1 / 2]],
      M = Mat 3 3 [[1, 0, 0], [0, 1 / 2, 0], [0, 0, 1 / 2]],
      W_out = None, u = None, r_T = None,
      eta = 1, epochs = 1, nu = 0, mu = 0, sd = 0, a = [], b = []\<rparr>"

definition diag_raw :: mat where
  "diag_raw = Mat 3 3 [[2, 0, 0], [0, 1, 0], [0, 0, 1]]"

text \<open>
  Four grid points, the constant signals \<open>0\<close> and \<open>1\<close> sampled on them, and the model
  \<open>diag_esn\<close> after it has built the interpolant of the signal \<open>0\<close>.
\<close>

definition grid4 :: vec where
  "grid4 = [0, 1, 2, 3]"

definition zero_data :: mat where
  "zero_data = Mat 4 1 [[0], [0], [0], [0]]"

definition ones_data :: mat where
  "ones_data = Mat 4 1 [[1], [1], [1], [1]]"

definition stale_esn :: esn where
  "stale_esn = diag_esn\<lparr>u := Some (\<lambda>x. [0])\<rparr>"

text \<open>The model \<open>unit_esn\<close> after it has been trained on \<open>ramp_data\<close>.\<close>

definition ramp_trained :: esn where
  "ramp_trained =
     unit_esn\<lparr>u := Some (\<lambda>x. [1]), W_out := Some (Mat 1 2 [[2 / 3, 4 / 9]]), r_T := Some [2]\<rparr>"

text \<open>
  An intrinsic-plasticity model of three units on the raw draw \<open>diag(2, 1, 1)\<close>, with
  \<open>rho = 2\<close>, the learning rates \<open>nu = 0\<close> and \<open>eta = 0\<close>, and no epochs configured.
\<close>

definition ip_esn :: esn where
  "ip_esn =
     \<lparr>kind = IPESN, N = 3, d = 1, seed = 1, p = 1 / 3, rho = 2, sigma = 1, gamma = 1, beta = 1,
      W_in_orig = Mat 3 1 [[1 / 2], [- 1 / 2], [1 / 4]],
      W_in = Mat 3 1 [[1 / 2], [- 1 / 2], [1 / 4]],
      M_orig = Mat 3 3 [[1, 0, 0], [0, 1 / 2, 0], [0, 0, 1 / 2]],
      M = Mat 3 3 [[2, 0, 0], [0, 1, 0], [0, 0, 1]],
      W_out = None, u = None, r_T = None,
      eta = 0, epochs = 0, nu = 0, mu = 1 / 2, sd = 1, a = [Fin 1, Fin 1, Fin 1], b = [0, 0, 0]\<rparr>"

text \<open>
  The same model after \<^verbatim>\<open>IP_train\<close> on the signal \<open>0\<close>, which stores \<open>rho * diag(a) * M\<close> in \<open>M\<close>.
\<close>

definition ip_folded :: esn where
  "ip_folded = ip_esn\<lparr>u := Some (\<lambda>x. [0]), M := Mat 3 3 [[4, 0, 0], [0, 2, 0], [0, 0, 2]]\<rparr>"

text \<open>The model \<open>ip_esn\<close> with a zero in its gain.\<close>

definition zero_gain_esn :: esn where
  "zero_gain_esn = ip_esn\<lparr>a := [Fin 1, Fin 0, Fin 1]\<rparr>"

text \<open>
  The model \<open>diag_esn\<close> with the learning rate \<open>eta = 0\<close>, and the same after the assignment
  \<^verbatim>\<open>self.rho = -1\<close>.
\<close>

definition quiet_esn :: esn where
  "quiet_esn = diag_esn\<lparr>eta := 0\<rparr>"

definition neg_esn :: esn where
  "neg_esn = set_rho (- 1) quiet_esn"

text \<open>
  The reservoir matrix of \<open>quiet_esn\<close>, and \<open>quiet_esn\<close> after it has built the interpolant of the
  signal \<open>1\<close>.
\<close>

abbreviation half_diag :: mat where
  "half_diag \<equiv> Mat 3 3 [[1, 0, 0], [0, 1 / 2, 0], [0, 0, 1 / 2]]"

abbreviation driven_esn :: esn where
  "driven_esn \<equiv> quiet_esn\<lparr>u := Some (\<lambda>x. [1])\<rparr>"

text \<open>
  \<open>drift_lib\<close> is \<open>rest_lib\<close> with an integrator that returns the trajectory \<open>drift_traj\<close>
  whatever it is asked.
\<close>

definition drift_traj :: "vec list" where
  "drift_traj = [[0, 0, 0], [1 / 2, 0, 0], [0, 1 / 2, 0], [0, 0, 1 / 2]]"

definition drift_lib :: lib where
  "drift_lib = rest_lib\<lparr>odeint := (\<lambda>f r0 t. Inr drift_traj)\<rparr>"

text \<open>
  A Hebbian model of three units whose stored raw matrix is not diagonal; its eigenvalues are
  \<open>0\<close>, \<open>1/2\<close> and \<open>1\<close>.
\<close>

definition block_esn :: esn where
  "block_esn =
     \<lparr>kind = AHESN, N = 3, d = 1, seed = 1, p = 5 / 9, rho = 1, sigma = 1, gamma = 1, beta = 1,
      W_in_orig = Mat 3 1 [[1 / 2], [- 1 / 2], [1 / 4]],
      W_in = Mat 3 1 [[1 / 2], [- 1 / 2], [1 / 4]],
      M_orig = Mat 3 3 [[3 / 5, 3 / 10, 0], [4 / 5, 2 / 5, 0], [0, 0, 1 / 2]],
      M = Mat 3 3 [[3 / 5, 3 / 10, 0], [4 / 5, 2 / 5, 0], [0, 0, 1 / 2]],
      W_out = None, u = None, r_T = None,
      eta = 1, epochs = 1, nu = 0, mu = 0, sd = 0, a = [], b = []\<rparr>"

text \<open>The model \<open>unit_esn\<close> without a ridge penalty.\<close>

definition bare_esn :: esn where
  "bare_esn = unit_esn\<lparr>beta := 0\<rparr>"

text \<open>
  \<^verbatim>\<open>np.linalg.inv\<close> factorizes its argument in floating point, and raises only when it meets a
  pivot that is exactly zero. \<open>off_lib traj dl\<close> is \<open>fixed_lib traj\<close> with an inversion that has
  the error \<open>dl\<close> in the determinant: for \<open>dl \<noteq> 0\<close> it returns a matrix for a singular argument.
  \<open>tenth_traj\<close> is a trajectory of one unit on four grid points.
\<close>

definition inv2_off :: "real \<Rightarrow> mat \<Rightarrow> error + mat" where
  "inv2_off dl A =
     (case rows A of
        [[x11, x12], [x21, x22]] \<Rightarrow>
          (let dt = x11 * x22 - x12 * x21 + dl
           in if dt = 0 then Inl LinAlgError
              else Inr (Mat 2 2 [[x22 / dt, - x12 / dt], [- x21 / dt, x11 / dt]]))
      | _ \<Rightarrow> Inl LinAlgError)"

definition off_lib :: "vec list \<Rightarrow> real \<Rightarrow> lib" where
  "off_lib traj dl = (fixed_lib traj)\<lparr>linalg_inv := inv2_off dl\<rparr>"

definition tenth_traj :: "vec list" where
  "tenth_traj = [[0], [1 / 40], [1 / 20], [1 / 10]]"

section \<open>Index alignment of the design and target matrices\<close>

lemma bindE_Inr_iff: "bindE m f = Inr y \<longleftrightarrow> (\<exists>x. m = Inr x \<and> f x = Inr y)"
  by (cases m) auto



lemma wf_np_zeros: "wf_mat (np_zeros m n)"
  by (simp add: wf_mat_def np_zeros_def list_all_iff)

lemma col_np_zeros: "j < n \<Longrightarrow> col (np_zeros m n) j = replicate m 0"
  by (simp add: col_def np_zeros_def map_replicate_const)

lemma set_col_shape:
  assumes "set_col X j c = Inr X'" "wf_mat X"
  shows "wf_mat X' \<and> nrows X' = nrows X \<and> ncols X' = ncols X"
  using assms
  by (auto simp: set_col_def wf_mat_def list_all_iff split: if_splits dest!: set_zip_leftD)

lemma set_col_same:
  assumes "set_col X j c = Inr X'" "wf_mat X"
  shows "col X' j = c"
proof -
  from assms have j: "j < ncols X" and len: "length c = length (rows X)"
    and X': "rows X' = map2 (\<lambda>r x. r[j := x]) (rows X) c"
    and rl: "\<forall>r \<in> set (rows X). length r = ncols X"
    by (auto simp: set_col_def wf_mat_def list_all_iff split: if_splits)
  show ?thesis
    unfolding col_def X'
    using len j rl by (intro nth_equalityI) auto
qed

lemma set_col_other:
  assumes "set_col X j c = Inr X'" "wf_mat X" "k \<noteq> j"
  shows "col X' k = col X k"
proof -
  from assms have len: "length c = length (rows X)" 
    and X': "rows X' = map2 (\<lambda>r x. r[j := x]) (rows X) c"
    by (auto simp: set_col_def wf_mat_def split: if_splits)
  show ?thesis
    unfolding col_def X'
    using assms(3) len by (intro nth_equalityI) auto
qed

lemma row_at_Inr_iff: "row_at xs i = Inr x \<longleftrightarrow> i < length xs \<and> x = xs ! i"
  by (auto simp: row_at_def)

lemma design_loop:
  assumes "foldE (\<lambda>X i. bindE (row_at traj (i + 1)) (\<lambda>r.
                        bindE (q n r) (\<lambda>c. set_col X (i + 1 - t_listen) c))) ixs X0 = Inr X"
    and "wf_mat X0" and "distinct ixs" and "\<forall>i \<in> set ixs. t_listen \<le> i"
  shows "wf_mat X \<and> nrows X = nrows X0 \<and> ncols X = ncols X0
         \<and> (\<forall>i \<in> set ixs. i + 1 < length traj \<and> q n (traj ! (i + 1)) = Inr (col X (i + 1 - t_listen)))
         \<and> (\<forall>j. j \<notin> (\<lambda>i. i + 1 - t_listen) ` set ixs \<longrightarrow> col X j = col X0 j)"
  using assms
proof (induction ixs arbitrary: X0)
  case Nil
  then show ?case by simp
next
  case (Cons i ixs)
  from Cons.prems(1) obtain c X1 where
    i: "i + 1 < length traj" and c: "q n (traj ! (i + 1)) = Inr c"
    and X1: "set_col X0 (i + 1 - t_listen) c = Inr X1"
    and rest: "foldE (\<lambda>X i. bindE (row_at traj (i + 1)) (\<lambda>r.
                        bindE (q n r) (\<lambda>c. set_col X (i + 1 - t_listen) c))) ixs X1 = Inr X"
    by (auto simp: bindE_Inr_iff row_at_Inr_iff)
  have wf1: "wf_mat X1" "nrows X1 = nrows X0" "ncols X1 = ncols X0"
    using set_col_shape[OF X1 Cons.prems(2)] by auto
  have IH: "wf_mat X \<and> nrows X = nrows X1 \<and> ncols X = ncols X1
         \<and> (\<forall>k \<in> set ixs. k + 1 < length traj \<and> q n (traj ! (k + 1)) = Inr (col X (k + 1 - t_listen)))
         \<and> (\<forall>j. j \<notin> (\<lambda>k. k + 1 - t_listen) ` set ixs \<longrightarrow> col X j = col X1 j)"
    using Cons.IH[OF rest wf1(1)] Cons.prems(3,4) by simp
  have notin: "i + 1 - t_listen \<notin> (\<lambda>k. k + 1 - t_listen) ` set ixs"
  proof
    assume "i + 1 - t_listen \<in> (\<lambda>k. k + 1 - t_listen) ` set ixs"
    then obtain k where k: "k \<in> set ixs" "i + 1 - t_listen = k + 1 - t_listen" by auto
    with Cons.prems(4) have "t_listen \<le> k" "t_listen \<le> i" by auto
    with k(2) have "i = k" by arith
    with k(1) Cons.prems(3) show False by simp
  qed
  have head: "col X (i + 1 - t_listen) = c"
    using IH notin set_col_same[OF X1 Cons.prems(2)] by simp
  have other: "col X j = col X0 j" if "j \<notin> (\<lambda>k. k + 1 - t_listen) ` set (i # ixs)" for j
  proof -
    from that have "j \<noteq> i + 1 - t_listen" "j \<notin> (\<lambda>k. k + 1 - t_listen) ` set ixs" by auto
    then show ?thesis using IH set_col_other[OF X1 Cons.prems(2)] by simp
  qed
  show ?case
    using IH wf1 i c head other by auto
qed


lemma design_matrix_Inr:
  assumes "design_matrix n traj T t_listen = Inr X"
  shows "wf_mat X \<and> nrows X = 2 * n \<and> ncols X = T - t_listen \<and> t_listen \<le> T
         \<and> (\<forall>i. t_listen \<le> i \<and> i < T - 1 \<longrightarrow>
               i + 1 < length traj \<and> q n (traj ! (i + 1)) = Inr (col X (i + 1 - t_listen)))
         \<and> (t_listen < T \<longrightarrow> col X 0 = replicate (2 * n) 0)"
proof -
  from assms have le: "t_listen \<le> T"
    and loop: "foldE (\<lambda>X i. bindE (row_at traj (i + 1)) (\<lambda>r.
                        bindE (q n r) (\<lambda>c. set_col X (i + 1 - t_listen) c)))
                 [t_listen..<T - 1] (np_zeros (2 * n) (T - t_listen)) = Inr X"
    by (auto simp: design_matrix_def split: if_splits)
  have inv: "wf_mat X \<and> nrows X = nrows (np_zeros (2 * n) (T - t_listen))
      \<and> ncols X = ncols (np_zeros (2 * n) (T - t_listen))
      \<and> (\<forall>i \<in> set [t_listen..<T - 1]. i + 1 < length traj
             \<and> q n (traj ! (i + 1)) = Inr (col X (i + 1 - t_listen)))
      \<and> (\<forall>j. j \<notin> (\<lambda>i. i + 1 - t_listen) ` set [t_listen..<T - 1]
             \<longrightarrow> col X j = col (np_zeros (2 * n) (T - t_listen)) j)"
    by (rule design_loop[OF loop wf_np_zeros]) auto
  have zero: "0 \<notin> (\<lambda>i. i + 1 - t_listen) ` set [t_listen..<T - 1]"
    by auto
  from inv zero have "col X 0 = col (np_zeros (2 * n) (T - t_listen)) 0"
    by blast
  then have "t_listen < T \<longrightarrow> col X 0 = replicate (2 * n) 0"
    by (simp add: col_np_zeros)
  with inv le show ?thesis
    by (simp add: np_zeros_def)
qed

lemma col_np_transpose:
  assumes "wf_mat A" "j < nrows A"
  shows "col (np_transpose A) j = rows A ! j"
proof -
  from assms have len: "length (rows A ! j) = ncols A"
    by (simp add: wf_mat_def list_all_iff)
  have "col (np_transpose A) j = map (\<lambda>k. (rows A ! j) ! k) [0..<ncols A]"
    using assms by (simp add: col_def np_transpose_def wf_mat_def)
  also have "\<dots> = rows A ! j"
    using len by (metis map_nth)
  finally show ?thesis .
qed

lemma col_target_matrix:
  assumes "wf_mat data" "t_listen + j < nrows data"
  shows "col (target_matrix data t_listen) j = rows data ! (t_listen + j)"
proof -
  let ?D = "Mat (nrows data - t_listen) (ncols data) (drop t_listen (rows data))"
  have wf: "wf_mat ?D"
    using assms(1) by (auto simp: wf_mat_def list_all_iff dest: in_set_dropD)
  have "col (np_transpose ?D) j = rows ?D ! j"
    using assms(2) by (intro col_np_transpose[OF wf]) simp
  then show ?thesis
    using assms by (simp add: target_matrix_def wf_mat_def)
qed

lemma train_Inr:
  assumes "train L st data t t_listen = Inr (traj, st')"
  shows "\<exists>f X W rT.
           (case u st of None \<Rightarrow> spline L st data t | Some g \<Rightarrow> Inr g) = Inr f
         \<and> odeint L (f_LR (st\<lparr>u := Some f\<rparr>)) (replicate (N st) 0) t = Inr traj
         \<and> design_matrix (N st) traj (length t) t_listen = Inr X
         \<and> readout L (beta st) (N st) X (target_matrix data t_listen) = Inr W
         \<and> last_row traj = Inr rT
         \<and> st' = st\<lparr>u := Some f, W_out := Some W, r_T := Some rT\<rparr>"
  using assms unfolding train_def Let_def bindE_Inr_iff by auto

lemma ncols_target_matrix: "ncols (target_matrix data t_listen) = nrows data - t_listen"
  by (simp add: target_matrix_def np_transpose_def)

lemma readout_shapes:
  assumes "readout L bt n X Y = Inr W"
  shows "ncols Y = ncols X"
  using assms unfolding readout_def bindE_Inr_iff
  by (auto simp: np_matmul_def np_transpose_def split: if_splits)


lemma ramp_design: "design_matrix 1 ramp_traj 3 0 = Inr (Mat 2 3 [[0, 1, 2], [0, 1, 4]])"
  by (simp add: design_matrix_def ramp_traj_def row_at_def q_def set_col_def np_zeros_def
      numeral_3_eq_3 numeral_2_eq_2)

lemma ramp_target: "target_matrix ramp_data 0 = Mat 1 3 [[1, 2, 3]]"
  by (simp add: target_matrix_def ramp_data_def np_transpose_def col_def)

lemma ramp_readout:
  "readout (fixed_lib ramp_traj) 1 1 (Mat 2 3 [[0, 1, 2], [0, 1, 4]]) (Mat 1 3 [[1, 2, 3]])
     = Inr (Mat 1 2 [[2 / 3, 4 / 9]])"
  by (simp add: readout_def ridge_matrix_def np_matmul_def np_transpose_def col_def dot_def
      madd_def smul_def np_identity_def fixed_lib_def inv2_def numeral_3_eq_3 numeral_2_eq_2)

lemma train_eq:
  assumes "(case u st of None \<Rightarrow> spline L st data t | Some g \<Rightarrow> Inr g) = Inr f"
    and "odeint L (f_LR (st\<lparr>u := Some f\<rparr>)) (replicate (N st) 0) t = Inr traj"
    and "design_matrix (N st) traj (length t) t_listen = Inr X"
    and "readout L (beta st) (N st) X (target_matrix data t_listen) = Inr W"
    and "last_row traj = Inr rT"
  shows "train L st data t t_listen
           = Inr (traj, st\<lparr>u := Some f, W_out := Some W, r_T := Some rT\<rparr>)"
  using assms unfolding train_def Let_def by simp

lemma ramp_train:
  "train (fixed_lib ramp_traj) unit_esn ramp_data [0, 1, 2] 0
     = Inr (ramp_traj, unit_esn\<lparr>u := Some (\<lambda>x. [1]), W_out := Some (Mat 1 2 [[2 / 3, 4 / 9]]),
                               r_T := Some [2]\<rparr>)"
proof (rule train_eq)
  show "(case u unit_esn of None \<Rightarrow> spline (fixed_lib ramp_traj) unit_esn ramp_data [0, 1, 2]
         | Some g \<Rightarrow> Inr g) = Inr (\<lambda>x. [1])"
    by (simp add: spline_def unit_esn_def ramp_data_def fixed_lib_def col_def)
  show "odeint (fixed_lib ramp_traj) (f_LR (unit_esn\<lparr>u := Some (\<lambda>x. [1])\<rparr>))
          (replicate (N unit_esn) 0) [0, 1, 2] = Inr ramp_traj"
    by (simp add: fixed_lib_def)
  show "design_matrix (N unit_esn) ramp_traj (length [0, 1, 2 :: real]) 0
          = Inr (Mat 2 3 [[0, 1, 2], [0, 1, 4]])"
    using ramp_design by (simp add: unit_esn_def numeral_3_eq_3)
  show "readout (fixed_lib ramp_traj) (beta unit_esn) (N unit_esn)
          (Mat 2 3 [[0, 1, 2], [0, 1, 4]]) (target_matrix ramp_data 0)
          = Inr (Mat 1 2 [[2 / 3, 4 / 9]])"
    using ramp_readout by (simp add: unit_esn_def ramp_target)
  show "last_row ramp_traj = Inr [2]"
    by (simp add: last_row_def ramp_traj_def)
qed

text \<open>
  C10. In a call \<^verbatim>\<open>train(data, t, t_listen)\<close> that returns, with \<open>0 \<le> t_listen < T - 1\<close> for
  \<open>T = t.size\<close>: the design matrix \<open>X\<close> has \<open>T - t_listen\<close> columns, the loop writes the columns
  \<open>1, \<dots>, T - 1 - t_listen\<close> (column \<open>j\<close> is the feature map of the trajectory state at index
  \<open>t_listen + j\<close>), column \<open>0\<close> is still the zero vector of \<^verbatim>\<open>np.zeros\<close>, and column \<open>0\<close> of the
  target matrix, which the regression pairs with it, is the data row at index \<open>t_listen\<close>.
\<close>

theorem train_first_column_unwritten:
  assumes "train L st data t t_listen = Inr (LR_traj, st')"
    and "wf_mat data"
    and "t_listen < length t - 1"
  shows "\<exists>X W. design_matrix (N st) LR_traj (length t) t_listen = Inr X
           \<and> readout L (beta st) (N st) X (target_matrix data t_listen) = Inr W
           \<and> W_out st' = Some W
           \<and> ncols X = length t - t_listen
           \<and> (\<forall>j. 1 \<le> j \<and> j \<le> length t - 1 - t_listen \<longrightarrow>
                  q (N st) (LR_traj ! (t_listen + j)) = Inr (col X j))
           \<and> col X 0 = replicate (2 * N st) 0
           \<and> col (target_matrix data t_listen) 0 = rows data ! t_listen"
proof -
  from train_Inr[OF assms(1)] obtain f X W rT where
    X: "design_matrix (N st) LR_traj (length t) t_listen = Inr X"
    and W: "readout L (beta st) (N st) X (target_matrix data t_listen) = Inr W"
    and st': "st' = st\<lparr>u := Some f, W_out := Some W, r_T := Some rT\<rparr>"
    by blast
  note D = design_matrix_Inr[OF X]
  from readout_shapes[OF W] D have "nrows data - t_listen = length t - t_listen"
    by (simp add: ncols_target_matrix)
  with assms(3) have rows: "nrows data = length t" by arith
  have written: "q (N st) (LR_traj ! (t_listen + j)) = Inr (col X j)"
    if "1 \<le> j" "j \<le> length t - 1 - t_listen" for j
  proof -
    from that have "t_listen \<le> t_listen + j - 1 \<and> t_listen + j - 1 < length t - 1"
      by arith
    with D have "q (N st) (LR_traj ! (t_listen + j - 1 + 1))
                   = Inr (col X (t_listen + j - 1 + 1 - t_listen))"
      by blast
    with that show ?thesis by simp
  qed
  have zero: "col X 0 = replicate (2 * N st) 0"
    using D assms(3) by simp
  have tgt: "col (target_matrix data t_listen) 0 = rows data ! t_listen"
    using col_target_matrix[OF assms(2), of t_listen 0] rows assms(3) by simp
  show ?thesis
    using X W st' D written zero tgt by auto
qed

theorem train_first_column_unwritten_witness:
  "train (fixed_lib ramp_traj) unit_esn ramp_data [0, 1, 2] 0
     = Inr (ramp_traj, unit_esn\<lparr>u := Some (\<lambda>x. [1]), W_out := Some (Mat 1 2 [[2 / 3, 4 / 9]]),
                               r_T := Some [2]\<rparr>)
   \<and> wf_mat ramp_data \<and> (0 :: nat) < length [0, 1, 2 :: real] - 1
   \<and> (\<exists>X W. design_matrix (N unit_esn) ramp_traj (length [0, 1, 2 :: real]) 0 = Inr X
           \<and> readout (fixed_lib ramp_traj) (beta unit_esn) (N unit_esn) X
                (target_matrix ramp_data 0) = Inr W
           \<and> col X 0 = replicate (2 * N unit_esn) 0
           \<and> col (target_matrix ramp_data 0) 0 = rows ramp_data ! 0)"
proof -
  have wf: "wf_mat ramp_data"
    by (simp add: wf_mat_def ramp_data_def)
  have lt: "(0 :: nat) < length [0, 1, 2 :: real] - 1"
    by simp
  from train_first_column_unwritten[OF ramp_train wf lt] show ?thesis
    using ramp_train wf lt by blast
qed

text \<open>
  C2, as the code has it. The regression pairs column \<open>j\<close> of the design matrix with column \<open>j\<close>
  of the target matrix. For \<open>t_listen \<le> i \<le> T - 2\<close> the feature map of the trajectory state at
  index \<open>i + 1\<close> is column \<open>i + 1 - t_listen\<close> of \<open>X\<close>, and that column of \<open>Y\<close> is the data row
  at the same index \<open>i + 1\<close>: \<^verbatim>\<open>Y = np.transpose(data[t_listen:])\<close> starts at row \<open>t_listen\<close>,
  the written columns of \<open>X\<close> at column \<open>1\<close>.
\<close>

theorem train_pairs_same_index:
  assumes "train L st data t t_listen = Inr (LR_traj, st')"
    and "wf_mat data"
    and "t_listen \<le> i" and "i + 2 \<le> length t"
  shows "\<exists>X W. design_matrix (N st) LR_traj (length t) t_listen = Inr X
           \<and> readout L (beta st) (N st) X (target_matrix data t_listen) = Inr W
           \<and> W_out st' = Some W
           \<and> q (N st) (LR_traj ! (i + 1)) = Inr (col X (i + 1 - t_listen))
           \<and> col (target_matrix data t_listen) (i + 1 - t_listen) = rows data ! (i + 1)"
proof -
  from train_Inr[OF assms(1)] obtain f X W rT where
    X: "design_matrix (N st) LR_traj (length t) t_listen = Inr X"
    and W: "readout L (beta st) (N st) X (target_matrix data t_listen) = Inr W"
    and st': "st' = st\<lparr>u := Some f, W_out := Some W, r_T := Some rT\<rparr>"
    by blast
  note D = design_matrix_Inr[OF X]
  from readout_shapes[OF W] D have "nrows data - t_listen = length t - t_listen"
    by (simp add: ncols_target_matrix)
  with assms(3,4) have rows: "nrows data = length t" by arith
  from assms(3,4) have "t_listen \<le> i \<and> i < length t - 1" by arith
  with D have feat: "q (N st) (LR_traj ! (i + 1)) = Inr (col X (i + 1 - t_listen))"
    by blast
  have "col (target_matrix data t_listen) (i + 1 - t_listen)
          = rows data ! (t_listen + (i + 1 - t_listen))"
    using assms(3,4) rows by (intro col_target_matrix[OF assms(2)]) arith
  with assms(3) have tgt: "col (target_matrix data t_listen) (i + 1 - t_listen)
          = rows data ! (i + 1)"
    by simp
  show ?thesis
    using X W st' feat tgt by auto
qed

theorem train_pairs_same_index_witness:
  "train (fixed_lib ramp_traj) unit_esn ramp_data [0, 1, 2] 0
     = Inr (ramp_traj, unit_esn\<lparr>u := Some (\<lambda>x. [1]), W_out := Some (Mat 1 2 [[2 / 3, 4 / 9]]),
                               r_T := Some [2]\<rparr>)
   \<and> wf_mat ramp_data \<and> (0 :: nat) \<le> 1 \<and> (1 :: nat) + 2 \<le> length [0, 1, 2 :: real]
   \<and> (\<exists>X W. design_matrix (N unit_esn) ramp_traj (length [0, 1, 2 :: real]) 0 = Inr X
           \<and> readout (fixed_lib ramp_traj) (beta unit_esn) (N unit_esn) X
                (target_matrix ramp_data 0) = Inr W
           \<and> q (N unit_esn) (ramp_traj ! (1 + 1)) = Inr (col X (1 + 1 - 0))
           \<and> col (target_matrix ramp_data 0) (1 + 1 - 0) = rows ramp_data ! (1 + 1))"
proof -
  have wf: "wf_mat ramp_data"
    by (simp add: wf_mat_def ramp_data_def)
  have le: "(0 :: nat) \<le> 1" "(1 :: nat) + 2 \<le> length [0, 1, 2 :: real]"
    by simp_all
  from train_pairs_same_index[OF ramp_train wf le] show ?thesis
    using ramp_train wf le by blast
qed

text \<open>
  C2 as the specification states it pairs that feature with the data row at index \<open>i\<close>. For the
  three samples \<open>1, 2, 3\<close>, \<open>t_listen = 0\<close> and \<open>i = 0\<close>: the feature of state \<open>1\<close> is column \<open>1\<close>
  of \<open>X\<close>, and column \<open>1\<close> of \<open>Y\<close> is the sample \<open>2\<close> at index \<open>1\<close>, not the sample \<open>1\<close> at index
  \<open>0\<close>.
\<close>

theorem one_step_ahead_pairing_counterexample:
  "design_matrix 1 ramp_traj 3 0 = Inr (Mat 2 3 [[0, 1, 2], [0, 1, 4]])
   \<and> q 1 (ramp_traj ! (0 + 1)) = Inr (col (Mat 2 3 [[0, 1, 2], [0, 1, 4]]) (0 + 1 - 0))
   \<and> col (target_matrix ramp_data 0) (0 + 1 - 0) \<noteq> rows ramp_data ! 0"
proof -
  have feat: "q 1 (ramp_traj ! (0 + 1))
                = Inr (col (Mat 2 3 [[0, 1, 2], [0, 1, 4]]) (0 + 1 - 0))"
    by (simp add: q_def ramp_traj_def col_def)
  have "col (target_matrix ramp_data 0) (0 + 1 - 0) = [2]"
    by (simp add: ramp_target col_def)
  moreover have "rows ramp_data ! 0 = [1]"
    by (simp add: ramp_data_def)
  ultimately have tgt: "col (target_matrix ramp_data 0) (0 + 1 - 0) \<noteq> rows ramp_data ! 0"
    by simp
  from ramp_design feat tgt show ?thesis
    by blast
qed

section \<open>The shape of the raw input matrix\<close>

text \<open>
  For draws as the generator gives them, \<^verbatim>\<open>input_matrix\<close> returns a matrix of \<open>N\<close> rows in which
  row \<open>i\<close> is zero but for the value \<open>vals[i]\<close> at column \<open>cols[i]\<close>. Its number of columns is
  one more than the largest column index drawn, which is at most \<open>d\<close>.
\<close>

lemma fold_max_upt: "fold max [0..<n] 0 = n - 1"
  by (induction n) auto

lemma fold_max_less:
  assumes "\<forall>c \<in> set cols. c < k" "m < k"
  shows "fold max cols m < (k :: nat)"
  using assms by (induction cols arbitrary: m) auto

lemma fold_max_ge_start: "m \<le> fold max cols (m :: nat)"
proof (induction cols arbitrary: m)
  case Nil
  then show ?case by simp
next
  case (Cons c cols)
  have "m \<le> max c m" by simp
  also have "\<dots> \<le> fold max cols (max c m)" by (rule Cons.IH)
  finally show ?case by simp
qed

lemma fold_max_ge:
  assumes "c \<in> set cols"
  shows "c \<le> fold max cols (m :: nat)"
  using assms
proof (induction cols arbitrary: m)
  case Nil
  then show ?case by simp
next
  case (Cons x cols)
  show ?case
  proof (cases "c = x")
    case True
    have "c \<le> max x m" using True by simp
    also have "\<dots> \<le> fold max cols (max x m)" by (rule fold_max_ge_start)
    finally show ?thesis by simp
  next
    case False
    with Cons.prems have "c \<in> set cols" by simp
    from Cons.IH[OF this] show ?thesis by simp
  qed
qed

lemma filter_single:
  assumes "i < n"
  shows "filter (\<lambda>k. k = i \<and> P k) [0..<n] = (if P i then [i] else [])"
  using assms
proof (induction n)
  case 0
  then show ?case by simp
next
  case (Suc n)
  show ?case
  proof (cases "i = n")
    case True
    have "filter (\<lambda>k. k = i \<and> P k) [0..<n] = []"
      using True by (auto simp: filter_empty_conv)
    with True show ?thesis by simp
  next
    case False
    with Suc.prems have "i < n" by simp
    from Suc.IH[OF this] False show ?thesis by simp
  qed
qed

lemma coo_entry:
  assumes "i < n"
  shows "sum_list (map ((!) vals) (filter (\<lambda>k. [0..<n] ! k = i \<and> cols ! k = j) [0..<n]))
           = (if cols ! i = j then vals ! i else 0)"
proof -
  have "filter (\<lambda>k. [0..<n] ! k = i \<and> cols ! k = j) [0..<n]
          = filter (\<lambda>k. k = i \<and> cols ! k = j) [0..<n]"
    by (rule filter_cong) auto
  with filter_single[OF assms, of "\<lambda>k. cols ! k = j"] show ?thesis
    by simp
qed

lemma unit_row:
  assumes "c < w"
  shows "map (\<lambda>j. if c = j then v else 0) [0..<w] = (replicate w (0 :: real))[c := v]"
  using assms by (intro nth_equalityI) (auto simp: nth_list_update)

lemma input_matrix_rows:
  assumes "draws_ok n k cols vals" "0 < n"
  shows "input_matrix n cols vals
           = Inr (Mat n (Suc (fold max cols 0))
                    (map (\<lambda>i. (replicate (Suc (fold max cols 0)) 0)[cols ! i := vals ! i])
                       [0..<n]))
         \<and> Suc (fold max cols 0) \<le> k"
proof -
  from assms have len: "length cols = n" "length vals = n" "vals \<noteq> []"
    and lt: "\<forall>c \<in> set cols. c < k"
    by (auto simp: draws_ok_def list_all_iff)
  define w where "w = Suc (fold max cols 0)"
  from assms(2) len(1) obtain c where "c \<in> set cols" by (cases cols) auto
  with lt have "0 < k" by auto
  with lt have wk: "w \<le> k"
    using fold_max_less[of cols k 0] by (simp add: w_def)
  have row: "map (\<lambda>j. sum_list (map ((!) vals)
                 (filter (\<lambda>k. [0..<n] ! k = i \<and> cols ! k = j) [0..<n]))) [0..<w]
             = (replicate w 0)[cols ! i := vals ! i]" if "i \<in> set [0..<n]" for i
  proof -
    from that have i: "i < n" by simp
    then have "cols ! i \<in> set cols" using len(1) by simp
    then have "cols ! i < w" using fold_max_ge[of "cols ! i" cols 0] by (simp add: w_def)
    from unit_row[OF this, of "vals ! i"] show ?thesis
      by (simp only: coo_entry[OF i])
  qed
  have rows_eq: "map (\<lambda>i. map (\<lambda>j. sum_list (map ((!) vals)
                 (filter (\<lambda>k. [0..<n] ! k = i \<and> cols ! k = j) [0..<n]))) [0..<w]) [0..<n]
          = map (\<lambda>i. (replicate w 0)[cols ! i := vals ! i]) [0..<n]"
    by (rule map_cong[OF refl]) (rule row)
  have hn: "Suc (fold max [0..<n] 0) = n"
    using assms(2) by (simp add: fold_max_upt)
  have "input_matrix n cols vals
          = Inr (Mat n w (map (\<lambda>i. (replicate w 0)[cols ! i := vals ! i]) [0..<n]))"
    unfolding input_matrix_def coo_tocsr_def
    by (simp only: hn w_def[symmetric] len(2) rows_eq) (simp add: len)
  with wk show ?thesis
    by (simp only: w_def simp_thms)
qed

text \<open>
  C4. For \<open>N = 1\<close>, \<open>d = 2\<close> and a seed whose column draw is \<open>0\<close> (the draw \<open>cols = [0]\<close>, with
  the value \<open>1/2\<close>), \<^verbatim>\<open>input_matrix\<close> returns a matrix of shape \<open>1 \<times> 1\<close>, not \<open>N \<times> d = 1 \<times> 2\<close>:
  \<^verbatim>\<open>coo_matrix\<close> is given no shape and takes the number of columns from the largest column
  index drawn.
\<close>

theorem input_matrix_one_by_one:
  "draws_ok 1 2 [0] [1 / 2] \<and> input_matrix 1 [0] [1 / 2] = Inr (Mat 1 1 [[1 / 2]])"
  by (simp add: draws_ok_def input_matrix_def coo_tocsr_def)

section \<open>The ridge regression of the readout\<close>

lemma sum_list_map2_nth:
  assumes "length xs = length ys"
  shows "sum_list (map2 f xs ys) = (\<Sum>k<length xs. f (xs ! k) (ys ! k) :: real)"
  using assms
proof (induction xs ys rule: list_induct2)
  case Nil
  then show ?case by simp
next
  case (Cons x xs y ys)
  then show ?case
    by (simp add: sum.lessThan_Suc_shift del: sum.lessThan_Suc)
qed

lemma wf_rows:
  assumes "wf_mat A" "i < nrows A"
  shows "length (rows A ! i) = ncols A"
  using assms by (simp add: wf_mat_def list_all_length)

lemma rows_by_index:
  assumes "wf_mat A"
  shows "rows A = map (\<lambda>i. rows A ! i) [0..<nrows A]"
  using assms map_nth[of "rows A"] by (simp add: wf_mat_def)

lemma wf_transpose_of: "wf_mat (transpose_of A)"
  by (simp add: wf_mat_def transpose_of_def list_all_iff)

lemma wf_product_of: "wf_mat (product_of A B)"
  by (simp add: wf_mat_def product_of_def list_all_iff)

lemma np_transpose_entries:
  assumes "wf_mat A"
  shows "np_transpose A = transpose_of A"
proof -
  have "col A j = map (\<lambda>i. entry A i j) [0..<nrows A]" for j
  proof -
    have "col A j = map (\<lambda>r. r ! j) (map (\<lambda>i. rows A ! i) [0..<nrows A])"
      unfolding col_def using rows_by_index[OF assms] by simp
    then show ?thesis
      by (simp add: entry_def o_def)
  qed
  then show ?thesis
    by (simp add: np_transpose_def transpose_of_def)
qed

lemma entry_transpose_of:
  assumes "i < ncols A" "j < nrows A"
  shows "entry (transpose_of A) i j = entry A j i"
  using assms by (simp add: entry_def transpose_of_def)

lemma np_matmul_entries:
  assumes "wf_mat A" "wf_mat B" "ncols A = nrows B"
  shows "np_matmul A B = Inr (product_of A B)"
proof -
  have cell: "dot (rows A ! i) (col B j) = (\<Sum>k<ncols A. entry A i k * entry B k j)"
    if "i < nrows A" for i j
  proof -
    have la: "length (rows A ! i) = ncols A"
      using wf_rows[OF assms(1) that] .
    have lb: "length (col B j) = ncols A"
      using assms(2,3) by (simp add: col_def wf_mat_def)
    have "dot (rows A ! i) (col B j)
            = (\<Sum>k<length (rows A ! i). (rows A ! i) ! k * (col B j) ! k)"
      unfolding dot_def by (rule sum_list_map2_nth) (simp add: la lb)
    also have "\<dots> = (\<Sum>k<ncols A. entry A i k * entry B k j)"
      unfolding la
    proof (rule sum.cong[OF refl])
      fix k assume "k \<in> {..<ncols A}"
      then have "k < length (rows B)"
        using assms(2,3) by (simp add: wf_mat_def)
      then show "rows A ! i ! k * col B j ! k = entry A i k * entry B k j"
        by (simp add: entry_def col_def)
    qed
    finally show ?thesis .
  qed
  have "map (\<lambda>r. map (\<lambda>j. dot r (col B j)) [0..<ncols B]) (rows A)
          = map (\<lambda>r. map (\<lambda>j. dot r (col B j)) [0..<ncols B])
              (map (\<lambda>i. rows A ! i) [0..<nrows A])"
    using rows_by_index[OF assms(1)] by simp
  also have "\<dots> = map (\<lambda>i. map (\<lambda>j. \<Sum>k<ncols A. entry A i k * entry B k j) [0..<ncols B])
                      [0..<nrows A]"
    by (simp add: cell)
  finally show ?thesis
    using assms(3) by (simp add: np_matmul_def product_of_def)
qed

lemma ridge_matrix_entries:
  assumes "wf_mat X" "nrows X = 2 * n"
  shows "ridge_matrix bt n X = Inr (ridge_of bt X)"
proof -
  let ?T = "transpose_of X"
  have mm: "np_matmul X (np_transpose X) = Inr (product_of X ?T)"
    unfolding np_transpose_entries[OF assms(1)]
    by (rule np_matmul_entries[OF assms(1) wf_transpose_of]) (simp add: transpose_of_def)
  have sh: "nrows (product_of X ?T) = nrows X" "ncols (product_of X ?T) = nrows X"
    by (simp_all add: product_of_def transpose_of_def)
  have "map2 (map2 (+)) (rows (product_of X ?T)) (rows (smul bt (np_identity (2 * n))))
          = rows (ridge_of bt X)"
  proof (rule nth_equalityI)
    show "length (map2 (map2 (+)) (rows (product_of X ?T)) (rows (smul bt (np_identity (2 * n)))))
            = length (rows (ridge_of bt X))"
      using assms(2) by (simp add: product_of_def smul_def np_identity_def ridge_of_def)
    fix i
    assume "i < length (map2 (map2 (+)) (rows (product_of X ?T))
                          (rows (smul bt (np_identity (2 * n)))))"
    then have i: "i < nrows X"
      by (simp add: product_of_def)
    have "map2 (+) (map (\<lambda>j. \<Sum>k<ncols X. entry X i k * entry ?T k j) [0..<nrows X])
                   (map ((*) bt) (map (\<lambda>j. if i = j then 1 else 0) [0..<nrows X]))
            = map (\<lambda>j. (\<Sum>k<ncols X. entry X i k * entry X j k) + (if i = j then bt else 0))
                [0..<nrows X]"
    proof (rule nth_equalityI)
      fix j
      assume "j < length (map2 (+)
                  (map (\<lambda>j. \<Sum>k<ncols X. entry X i k * entry ?T k j) [0..<nrows X])
                  (map ((*) bt) (map (\<lambda>j. if i = j then 1 else 0) [0..<nrows X])))"
      then have j: "j < nrows X" by simp
      have "(\<Sum>k<ncols X. entry X i k * entry ?T k j) = (\<Sum>k<ncols X. entry X i k * entry X j k)"
        by (rule sum.cong[OF refl]) (simp add: entry_transpose_of j)
      with j show "map2 (+) (map (\<lambda>j. \<Sum>k<ncols X. entry X i k * entry ?T k j) [0..<nrows X])
                     (map ((*) bt) (map (\<lambda>j. if i = j then 1 else 0) [0..<nrows X])) ! j
            = map (\<lambda>j. (\<Sum>k<ncols X. entry X i k * entry X j k) + (if i = j then bt else 0))
                [0..<nrows X] ! j"
        by simp
    qed simp
    with i assms(2)
    show "map2 (map2 (+)) (rows (product_of X ?T)) (rows (smul bt (np_identity (2 * n)))) ! i
            = rows (ridge_of bt X) ! i"
      by (simp add: product_of_def smul_def np_identity_def ridge_of_def transpose_of_def)
  qed
  then have "madd (product_of X ?T) (smul bt (np_identity (2 * n))) = Inr (ridge_of bt X)"
    using assms(2) sh by (simp add: madd_def smul_def np_identity_def ridge_of_def)
  with mm show ?thesis
    by (simp add: ridge_matrix_def)
qed

lemma wf_target_matrix:
  assumes "wf_mat data"
  shows "wf_mat (target_matrix data t_listen)"
proof -
  let ?D = "Mat (nrows data - t_listen) (ncols data) (drop t_listen (rows data))"
  have "wf_mat ?D"
    using assms by (auto simp: wf_mat_def list_all_iff dest: in_set_dropD)
  then show ?thesis
    unfolding target_matrix_def by (simp add: np_transpose_entries wf_transpose_of)
qed

text \<open>
  C3, as the code has it. Let a call \<^verbatim>\<open>train(data, t, t_listen)\<close> reach line 154 with the design
  matrix \<open>X\<close> and the target matrix \<open>Y\<close>, on data with one row per grid point. The argument of
  \<^verbatim>\<open>np.linalg.inv\<close> is the ridge matrix \<open>R = X X\<^sup>T + beta I\<close>. When \<^verbatim>\<open>np.linalg.inv\<close> raises an
  error for \<open>R\<close>, the call fails with that error and stores nothing. When it returns a matrix
  \<open>B\<close> (an array of the shape of \<open>R\<close>), the call returns and stores the product \<open>(Y X\<^sup>T) B\<close> as
  readout weights: this is \<open>Y X\<^sup>T R\<^sup>-\<^sup>1\<close> when \<open>B\<close> is the inverse of \<open>R\<close>.
\<close>

theorem train_ridge_regression:
  assumes drv: "(case u st of None \<Rightarrow> spline L st data t | Some g \<Rightarrow> Inr g) = Inr f"
    and ode: "odeint L (f_LR (st\<lparr>u := Some f\<rparr>)) (replicate (N st) 0) t = Inr LR_traj"
    and X: "design_matrix (N st) LR_traj (length t) t_listen = Inr X"
    and data: "wf_mat data" "nrows data = length t"
    and rT: "last_row LR_traj = Inr rT"
  shows "ridge_matrix (beta st) (N st) X = Inr (ridge_of (beta st) X)
       \<and> (case linalg_inv L (ridge_of (beta st) X) of
            Inl e \<Rightarrow> train L st data t t_listen = Inl e
          | Inr B \<Rightarrow>
              wf_mat B \<and> nrows B = 2 * N st \<longrightarrow>
                train L st data t t_listen
                  = Inr (LR_traj,
                         st\<lparr>u := Some f,
                            W_out := Some (product_of
                                             (product_of (target_matrix data t_listen)
                                                (transpose_of X)) B),
                            r_T := Some rT\<rparr>))
       \<and> (\<forall>B. linalg_inv L (ridge_of (beta st) X) = Inr B \<and> is_inverse (ridge_of (beta st) X) B
              \<longrightarrow> train L st data t t_listen
                    = Inr (LR_traj,
                           st\<lparr>u := Some f,
                              W_out := Some (product_of
                                               (product_of (target_matrix data t_listen)
                                                  (transpose_of X)) B),
                              r_T := Some rT\<rparr>))"
proof -
  note D = design_matrix_Inr[OF X]
  let ?Y = "target_matrix data t_listen"
  let ?M1 = "product_of ?Y (transpose_of X)"
  let ?R = "ridge_of (beta st) X"
  from D have wfX: "wf_mat X" and nX: "nrows X = 2 * N st" by simp_all
  have R: "ridge_matrix (beta st) (N st) X = Inr ?R"
    by (rule ridge_matrix_entries[OF wfX nX])
  have "ncols ?Y = nrows (transpose_of X)"
    using D data(2) by (simp add: ncols_target_matrix transpose_of_def)
  then have M1: "np_matmul ?Y (np_transpose X) = Inr ?M1"
    unfolding np_transpose_entries[OF wfX]
    by (rule np_matmul_entries[OF wf_target_matrix[OF data(1)] wf_transpose_of])
  have ro: "readout L (beta st) (N st) X ?Y = bindE (linalg_inv L ?R) (np_matmul ?M1)"
    by (simp add: readout_def M1 R)
  have "train L st data t t_listen = Inl e" if "linalg_inv L ?R = Inl e" for e
    unfolding train_def Let_def using drv ode X ro that by simp
  moreover have "train L st data t t_listen
                   = Inr (LR_traj, st\<lparr>u := Some f, W_out := Some (product_of ?M1 B),
                                      r_T := Some rT\<rparr>)"
    if B: "linalg_inv L ?R = Inr B" and wfB: "wf_mat B" and nB: "nrows B = 2 * N st" for B
  proof -
    have "ncols ?M1 = nrows B"
      using nB nX by (simp add: product_of_def transpose_of_def)
    then have "np_matmul ?M1 B = Inr (product_of ?M1 B)"
      by (rule np_matmul_entries[OF wf_product_of wfB])
    then have "readout L (beta st) (N st) X ?Y = Inr (product_of ?M1 B)"
      by (simp add: ro B)
    from train_eq[OF drv ode X this rT] show ?thesis .
  qed
  note ret = this
  have "train L st data t t_listen
          = Inr (LR_traj, st\<lparr>u := Some f, W_out := Some (product_of ?M1 B), r_T := Some rT\<rparr>)"
    if B: "linalg_inv L ?R = Inr B" and iB: "is_inverse ?R B" for B
  proof (rule ret[OF B])
    from iB show "wf_mat B" by (simp add: is_inverse_def)
    from iB nX show "nrows B = 2 * N st" by (simp add: is_inverse_def ridge_of_def)
  qed
  with calculation ret show ?thesis
    using R by (simp split: sum.split)
qed


lemma ramp_inverse:
  "is_inverse (Mat 2 2 [[6, 9], [9, 18]]) (Mat 2 2 [[2 / 3, - 1 / 3], [- 1 / 3, 2 / 9]])"
  by (simp add: is_inverse_def wf_mat_def product_of_def entry_def identity_of_def
      eval_nat_numeral)

theorem train_ridge_regression_witness:
  "wf_mat ramp_data \<and> nrows ramp_data = length [0, 1, 2 :: real]
   \<and> design_matrix (N unit_esn) ramp_traj (length [0, 1, 2 :: real]) 0
       = Inr (Mat 2 3 [[0, 1, 2], [0, 1, 4]])
   \<and> ridge_matrix (beta unit_esn) (N unit_esn) (Mat 2 3 [[0, 1, 2], [0, 1, 4]])
       = Inr (Mat 2 2 [[6, 9], [9, 18]])
   \<and> linalg_inv (fixed_lib ramp_traj) (Mat 2 2 [[6, 9], [9, 18]])
       = Inr (Mat 2 2 [[2 / 3, - 1 / 3], [- 1 / 3, 2 / 9]])
   \<and> is_inverse (Mat 2 2 [[6, 9], [9, 18]]) (Mat 2 2 [[2 / 3, - 1 / 3], [- 1 / 3, 2 / 9]])
   \<and> train (fixed_lib ramp_traj) unit_esn ramp_data [0, 1, 2] 0
       = Inr (ramp_traj, unit_esn\<lparr>u := Some (\<lambda>x. [1]),
                                  W_out := Some (Mat 1 2 [[2 / 3, 4 / 9]]), r_T := Some [2]\<rparr>)
   \<and> design_matrix (N bare_esn) ramp_traj (length [0, 1, 2 :: real]) 1
       = Inr (Mat 2 2 [[0, 2], [0, 4]])
   \<and> ridge_matrix (beta bare_esn) (N bare_esn) (Mat 2 2 [[0, 2], [0, 4]])
       = Inr (Mat 2 2 [[4, 8], [8, 16]])
   \<and> linalg_inv (fixed_lib ramp_traj) (Mat 2 2 [[4, 8], [8, 16]]) = Inl LinAlgError
   \<and> train (fixed_lib ramp_traj) bare_esn ramp_data [0, 1, 2] 1 = Inl LinAlgError"
proof -
  have wf: "wf_mat ramp_data"
    by (simp add: ramp_data_def wf_mat_def)
  have rows: "nrows ramp_data = length [0, 1, 2 :: real]"
    by (simp add: ramp_data_def)
  have rT: "last_row ramp_traj = Inr [2]"
    by (simp add: last_row_def ramp_traj_def)
  have drv: "(case u unit_esn of None \<Rightarrow> spline (fixed_lib ramp_traj) unit_esn ramp_data [0, 1, 2]
         | Some g \<Rightarrow> Inr g) = Inr (\<lambda>x. [1])"
    by (simp add: spline_def unit_esn_def ramp_data_def fixed_lib_def col_def)
  have ode: "odeint (fixed_lib ramp_traj) (f_LR (unit_esn\<lparr>u := Some (\<lambda>x. [1])\<rparr>))
          (replicate (N unit_esn) 0) [0, 1, 2] = Inr ramp_traj"
    by (simp add: fixed_lib_def)
  have X: "design_matrix (N unit_esn) ramp_traj (length [0, 1, 2 :: real]) 0
          = Inr (Mat 2 3 [[0, 1, 2], [0, 1, 4]])"
    using ramp_design by (simp add: unit_esn_def numeral_3_eq_3)
  have rd: "ridge_of (beta unit_esn) (Mat 2 3 [[0, 1, 2], [0, 1, 4]]) = Mat 2 2 [[6, 9], [9, 18]]"
    by (simp add: ridge_of_def entry_def unit_esn_def eval_nat_numeral)
  have inv: "linalg_inv (fixed_lib ramp_traj) (Mat 2 2 [[6, 9], [9, 18]])
          = Inr (Mat 2 2 [[2 / 3, - 1 / 3], [- 1 / 3, 2 / 9]])"
    by (simp add: fixed_lib_def inv2_def)
  have W: "product_of (product_of (target_matrix ramp_data 0)
                         (transpose_of (Mat 2 3 [[0, 1, 2], [0, 1, 4]])))
             (Mat 2 2 [[2 / 3, - 1 / 3], [- 1 / 3, 2 / 9]]) = Mat 1 2 [[2 / 3, 4 / 9]]"
    by (simp add: ramp_target product_of_def transpose_of_def entry_def eval_nat_numeral)
  note T = train_ridge_regression[OF drv ode X wf rows rT]
  from T[THEN conjunct1] have R: "ridge_matrix (beta unit_esn) (N unit_esn)
      (Mat 2 3 [[0, 1, 2], [0, 1, 4]]) = Inr (Mat 2 2 [[6, 9], [9, 18]])"
    by (simp only: rd)
  have hyp: "linalg_inv (fixed_lib ramp_traj) (ridge_of (beta unit_esn)
                 (Mat 2 3 [[0, 1, 2], [0, 1, 4]]))
               = Inr (Mat 2 2 [[2 / 3, - 1 / 3], [- 1 / 3, 2 / 9]])
             \<and> is_inverse (ridge_of (beta unit_esn) (Mat 2 3 [[0, 1, 2], [0, 1, 4]]))
                 (Mat 2 2 [[2 / 3, - 1 / 3], [- 1 / 3, 2 / 9]])"
    unfolding rd by (intro conjI inv ramp_inverse)
  from T[THEN conjunct2, THEN conjunct2, THEN spec, THEN mp, OF hyp]
  have good: "train (fixed_lib ramp_traj) unit_esn ramp_data [0, 1, 2] 0
       = Inr (ramp_traj, unit_esn\<lparr>u := Some (\<lambda>x. [1]),
                                  W_out := Some (Mat 1 2 [[2 / 3, 4 / 9]]), r_T := Some [2]\<rparr>)"
    by (simp only: W)
  have drv0: "(case u bare_esn of None \<Rightarrow> spline (fixed_lib ramp_traj) bare_esn ramp_data [0, 1, 2]
         | Some g \<Rightarrow> Inr g) = Inr (\<lambda>x. [1])"
    by (simp add: spline_def bare_esn_def unit_esn_def ramp_data_def fixed_lib_def col_def)
  have ode0: "odeint (fixed_lib ramp_traj) (f_LR (bare_esn\<lparr>u := Some (\<lambda>x. [1])\<rparr>))
          (replicate (N bare_esn) 0) [0, 1, 2] = Inr ramp_traj"
    by (simp add: fixed_lib_def)
  have "design_matrix 1 ramp_traj 3 1 = Inr (Mat 2 2 [[0, 2], [0, 4]])"
    by (simp add: design_matrix_def ramp_traj_def row_at_def q_def set_col_def np_zeros_def
        numeral_3_eq_3 numeral_2_eq_2)
  then have X0: "design_matrix (N bare_esn) ramp_traj (length [0, 1, 2 :: real]) 1
          = Inr (Mat 2 2 [[0, 2], [0, 4]])"
    by (simp add: bare_esn_def unit_esn_def numeral_3_eq_3)
  have rd0: "ridge_of (beta bare_esn) (Mat 2 2 [[0, 2], [0, 4]]) = Mat 2 2 [[4, 8], [8, 16]]"
    by (simp add: ridge_of_def entry_def bare_esn_def unit_esn_def eval_nat_numeral)
  have inv0: "linalg_inv (fixed_lib ramp_traj) (Mat 2 2 [[4, 8], [8, 16]]) = Inl LinAlgError"
    by (simp add: fixed_lib_def inv2_def)
  note T0 = train_ridge_regression[OF drv0 ode0 X0 wf rows rT]
  from T0[THEN conjunct1] have R0: "ridge_matrix (beta bare_esn) (N bare_esn)
      (Mat 2 2 [[0, 2], [0, 4]]) = Inr (Mat 2 2 [[4, 8], [8, 16]])"
    by (simp only: rd0)
  from T0[THEN conjunct2, THEN conjunct1]
  have bad: "train (fixed_lib ramp_traj) bare_esn ramp_data [0, 1, 2] 1 = Inl LinAlgError"
    by (simp only: rd0 inv0 sum.case)
  show ?thesis
    by (intro conjI wf rows X R inv ramp_inverse good X0 R0 inv0 bad)
qed

lemma tenth_singular:
  "\<not> invertible (Mat 2 2 [[1 / 100, 1 / 1000], [1 / 1000, 1 / 10000]])"
proof
  assume "invertible (Mat 2 2 [[1 / 100, 1 / 1000], [1 / 1000, 1 / 10000]])"
  then obtain B where nc: "ncols B = 2"
    and mm: "product_of (Mat 2 2 [[1 / 100, 1 / 1000], [1 / 1000, 1 / 10000]]) B = identity_of 2"
    by (auto simp: invertible_def is_inverse_def)
  from mm nc have "entry B 0 0 / 100 + entry B 1 0 / 1000 = 1"
    "entry B 0 0 / 1000 + entry B 1 0 / 10000 = 0"
    by (simp_all add: product_of_def identity_of_def entry_def eval_nat_numeral)
  then show False by simp
qed

lemma tenth_train:
  "train (off_lib tenth_traj (1 / 10 ^ 22)) bare_esn ones_data grid4 2
     = Inr (tenth_traj, bare_esn\<lparr>u := Some (\<lambda>x. [1]), W_out := Some (Mat 1 2 [[0, 0]]),
                                 r_T := Some [1 / 10]\<rparr>)"
proof -
  have drv: "(case u bare_esn of
                None \<Rightarrow> spline (off_lib tenth_traj (1 / 10 ^ 22)) bare_esn ones_data grid4
              | Some g \<Rightarrow> Inr g) = Inr (\<lambda>x. [1])"
    by (simp add: spline_def bare_esn_def unit_esn_def ones_data_def off_lib_def fixed_lib_def
        col_def)
  have ode: "odeint (off_lib tenth_traj (1 / 10 ^ 22)) (f_LR (bare_esn\<lparr>u := Some (\<lambda>x. [1])\<rparr>))
          (replicate (N bare_esn) 0) grid4 = Inr tenth_traj"
    by (simp add: off_lib_def fixed_lib_def)
  have X: "design_matrix (N bare_esn) tenth_traj (length grid4) 2
          = Inr (Mat 2 2 [[0, 1 / 10], [0, 1 / 100]])"
    by (simp add: design_matrix_def tenth_traj_def row_at_def q_def set_col_def np_zeros_def
        bare_esn_def unit_esn_def grid4_def eval_nat_numeral)
  have Y: "target_matrix ones_data 2 = Mat 1 2 [[1, 1]]"
    by (simp add: target_matrix_def ones_data_def np_transpose_def col_def eval_nat_numeral)
  have ro: "readout (off_lib tenth_traj (1 / 10 ^ 22)) (beta bare_esn) (N bare_esn)
              (Mat 2 2 [[0, 1 / 10], [0, 1 / 100]]) (target_matrix ones_data 2)
            = Inr (Mat 1 2 [[0, 0]])"
    unfolding Y
    by (simp add: readout_def ridge_matrix_def np_matmul_def np_transpose_def col_def dot_def
        madd_def smul_def np_identity_def off_lib_def inv2_off_def bare_esn_def unit_esn_def
        numeral_2_eq_2)
  have rT: "last_row tenth_traj = Inr [1 / 10]"
    by (simp add: last_row_def tenth_traj_def)
  show ?thesis
    by (rule train_eq[OF drv ode X ro rT])
qed

text \<open>
  C3 as the specification states it lets \<^verbatim>\<open>train\<close> fail whenever the ridge matrix is not
  invertible. \<^verbatim>\<open>np.linalg.inv\<close> factorizes in floating point and raises only when it meets a
  pivot that is exactly zero. In \<open>off_lib traj dl\<close> the inversion has the error \<open>dl\<close> in the
  determinant. The model \<open>bare_esn\<close> has no ridge penalty; with two columns in the design
  matrix, only one of them written, the ridge matrix has rank one. The call returns and stores
  weights.
\<close>

theorem singular_ridge_counterexample:
  "design_matrix (N bare_esn) tenth_traj (length grid4) 2
     = Inr (Mat 2 2 [[0, 1 / 10], [0, 1 / 100]])
   \<and> ridge_of (beta bare_esn) (Mat 2 2 [[0, 1 / 10], [0, 1 / 100]])
       = Mat 2 2 [[1 / 100, 1 / 1000], [1 / 1000, 1 / 10000]]
   \<and> \<not> invertible (Mat 2 2 [[1 / 100, 1 / 1000], [1 / 1000, 1 / 10000]])
   \<and> linalg_inv (off_lib tenth_traj (1 / 10 ^ 22))
         (Mat 2 2 [[1 / 100, 1 / 1000], [1 / 1000, 1 / 10000]])
       = Inr (Mat 2 2 [[10 ^ 18, - (10 ^ 19)], [- (10 ^ 19), 10 ^ 20]])
   \<and> train (off_lib tenth_traj (1 / 10 ^ 22)) bare_esn ones_data grid4 2
       = Inr (tenth_traj, bare_esn\<lparr>u := Some (\<lambda>x. [1]), W_out := Some (Mat 1 2 [[0, 0]]),
                                   r_T := Some [1 / 10]\<rparr>)"
proof -
  have X: "design_matrix (N bare_esn) tenth_traj (length grid4) 2
          = Inr (Mat 2 2 [[0, 1 / 10], [0, 1 / 100]])"
    by (simp add: design_matrix_def tenth_traj_def row_at_def q_def set_col_def np_zeros_def
        bare_esn_def unit_esn_def grid4_def eval_nat_numeral)
  have rd: "ridge_of (beta bare_esn) (Mat 2 2 [[0, 1 / 10], [0, 1 / 100]])
       = Mat 2 2 [[1 / 100, 1 / 1000], [1 / 1000, 1 / 10000]]"
    by (simp add: ridge_of_def entry_def bare_esn_def unit_esn_def eval_nat_numeral)
  have inv: "linalg_inv (off_lib tenth_traj (1 / 10 ^ 22))
         (Mat 2 2 [[1 / 100, 1 / 1000], [1 / 1000, 1 / 10000]])
       = Inr (Mat 2 2 [[10 ^ 18, - (10 ^ 19)], [- (10 ^ 19), 10 ^ 20]])"
    by (simp add: off_lib_def inv2_off_def)
  show ?thesis
    by (intro conjI X rd tenth_singular inv tenth_train)
qed

section \<open>The spectral radius after a rescaling\<close>

lemma cdot_scale:
  "(\<Sum>(x, y)\<leftarrow>zip (map ((*) c) r) v. of_real x * y)
     = (of_real c :: complex) * (\<Sum>(x, y)\<leftarrow>zip r v. of_real x * y)"
proof (induction r arbitrary: v)
  case Nil
  then show ?case by simp
next
  case (Cons x r)
  then show ?case by (cases v) (auto simp: algebra_simps)
qed

lemma cmatvec_smul: "cmatvec (smul c A) v = map ((*) (of_real c)) (cmatvec A v)"
  by (simp add: cmatvec_def smul_def cdot_scale)

lemma eigenvalue_smul:
  assumes "eigenvalue A lam"
  shows "eigenvalue (smul c A) (of_real c * lam)"
proof -
  from assms obtain v where v: "length v = ncols A" "\<exists>x \<in> set v. x \<noteq> 0"
    "cmatvec A v = map ((*) lam) v"
    by (auto simp: eigenvalue_def)
  have "cmatvec (smul c A) v = map ((*) (of_real c * lam)) v"
    by (simp add: cmatvec_smul v(3) mult.assoc)
  with v(1,2) show ?thesis
    unfolding eigenvalue_def by (auto simp: smul_def)
qed

lemma smul_smul: "smul c (smul e A) = smul (c * e) A"
  by (simp add: smul_def mult.assoc)

lemma map_mult_one: "map ((*) (1 :: real)) xs = xs"
  by (induction xs) auto

lemma smul_one: "smul 1 A = A"
  by (cases A) (simp add: smul_def map_mult_one map_idI)

lemma eigenvalue_smul_back:
  assumes "eigenvalue (smul c A) k" "c \<noteq> 0"
  shows "eigenvalue A (k / of_real c)"
proof -
  have "eigenvalue (smul (1 / c) (smul c A)) (of_real (1 / c) * k)"
    by (rule eigenvalue_smul[OF assms(1)])
  then show ?thesis
    using assms(2) by (simp add: smul_smul smul_one divide_inverse mult.commute)
qed

lemma eigenvalue_smul_zero:
  assumes "eigenvalue (smul 0 A) k"
  shows "k = 0"
proof -
  from assms obtain v x where v: "x \<in> set v" "x \<noteq> 0"
    "cmatvec (smul 0 A) v = map ((*) k) v"
    by (auto simp: eigenvalue_def)
  from v(1) obtain i where i: "i < length v" "v ! i = x"
    by (auto simp: in_set_conv_nth)
  have "map ((*) k) v ! i = 0"
    using v(3) i(1) by (metis cmatvec_smul length_map mult_zero_left nth_map of_real_0)
  with i show ?thesis
    using v(2) by simp
qed

lemma dominant_smul:
  assumes "dominant A lam"
  shows "dominant (smul c A) (of_real c * lam)"
proof (cases "c = 0")
  case True
  from assms have "eigenvalue (smul c A) (of_real c * lam)"
    by (simp add: dominant_def eigenvalue_smul)
  with True show ?thesis
    by (auto simp: dominant_def dest: eigenvalue_smul_zero)
next
  case False
  have bound: "cmod k \<le> cmod (of_real c * lam)" if "eigenvalue (smul c A) k" for k
  proof -
    from eigenvalue_smul_back[OF that False] assms have "cmod (k / of_real c) \<le> cmod lam"
      by (simp add: dominant_def)
    then have "cmod k / \<bar>c\<bar> \<le> cmod lam"
      by (simp add: norm_divide)
    with False have "cmod k \<le> \<bar>c\<bar> * cmod lam"
      by (simp add: field_simps)
    then show ?thesis
      by (simp add: norm_mult)
  qed
  from assms have "eigenvalue (smul c A) (of_real c * lam)"
    by (simp add: dominant_def eigenvalue_smul)
  with bound show ?thesis
    by (simp add: dominant_def)
qed

lemma spectral_radius_smul:
  assumes "spectral_radius A r"
  shows "spectral_radius (smul c A) (\<bar>c\<bar> * r)"
proof -
  from assms obtain lam where "dominant A lam" "cmod lam = r"
    by (auto simp: spectral_radius_def)
  then have "dominant (smul c A) (of_real c * lam)" "cmod (of_real c * lam) = \<bar>c\<bar> * r"
    by (simp_all add: dominant_smul norm_mult)
  then show ?thesis
    unfolding spectral_radius_def by blast
qed

lemma spectral_radius_unique:
  assumes "spectral_radius A r" "spectral_radius A r'"
  shows "r = r'"
  using assms unfolding spectral_radius_def dominant_def
  by (metis order_antisym)

lemma spectral_radius_nonneg: "spectral_radius A r \<Longrightarrow> 0 \<le> r"
  by (auto simp: spectral_radius_def)

lemma adj_matrix_Inr:
  assumes "adj_matrix L raw = Inr Mo"
  shows "\<exists>ev. eigs L raw = Inr ev \<and> cmod ev \<noteq> 0 \<and> Mo = smul (1 / cmod ev) raw"
  using assms unfolding adj_matrix_def bindE_Inr_iff Let_def
  by (auto split: if_splits)

lemma adj_matrix_spectral_radius:
  assumes "adj_matrix L raw = Inr Mo" "eigs_exact L raw"
  shows "spectral_radius Mo 1"
proof -
  from adj_matrix_Inr[OF assms(1)] obtain ev where
    ev: "eigs L raw = Inr ev" "cmod ev \<noteq> 0" "Mo = smul (1 / cmod ev) raw"
    by blast
  from assms(2) ev(1) have "dominant raw ev"
    by (simp add: eigs_exact_def)
  then have "spectral_radius raw (cmod ev)"
    unfolding spectral_radius_def by blast
  from spectral_radius_smul[OF this, of "1 / cmod ev"] ev(2,3) show ?thesis
    by simp
qed

text \<open>
  C1, as the code has it. Let the stored raw matrix \<^verbatim>\<open>M_orig\<close> be what \<^verbatim>\<open>adj_matrix\<close> returns
  for a draw \<open>raw\<close> at which the eigensolver is exact; \<^verbatim>\<open>adj_matrix\<close> returns only when the
  modulus of the dominant eigenvalue is not zero. After any assignment \<^verbatim>\<open>self.rho = r\<close> the
  reservoir matrix \<open>M\<close> has the spectral radius \<open>\<bar>r\<bar>\<close>, in exact arithmetic: that is \<open>r\<close> when
  \<open>r \<ge> 0\<close>.
\<close>

theorem set_rho_spectral_radius:
  assumes "adj_matrix L raw = Inr Mo"
    and "eigs_exact L raw"
    and "M_orig st = Mo"
  shows "spectral_radius (M (set_rho r st)) \<bar>r\<bar>"
proof -
  have "spectral_radius (smul r Mo) (\<bar>r\<bar> * 1)"
    by (rule spectral_radius_smul[OF adj_matrix_spectral_radius[OF assms(1,2)]])
  with assms(3) show ?thesis
    by (simp add: set_rho_def)
qed

lemma vec3: "length v = 3 \<Longrightarrow> \<exists>x y z. v = [x, y, z]"
  by (auto simp: numeral_3_eq_3 length_Suc_conv)

lemma diag_raw_dominant: "dominant diag_raw 2"
proof -
  have ev: "eigenvalue diag_raw 2"
    unfolding eigenvalue_def
    by (rule exI[of _ "[1, 0, 0]"]) (simp add: diag_raw_def cmatvec_def)
  have bound: "cmod k \<le> cmod 2" if "eigenvalue diag_raw k" for k
  proof -
    from that obtain v where v: "length v = 3" "\<exists>x \<in> set v. x \<noteq> 0"
      "cmatvec diag_raw v = map ((*) k) v"
      by (auto simp: eigenvalue_def diag_raw_def)
    from vec3[OF v(1)] obtain x y z where xyz: "v = [x, y, z]" by blast
    with v(2,3) have "k = 2 \<or> k = 1"
      by (auto simp: diag_raw_def cmatvec_def)
    then show ?thesis by auto
  qed
  from ev bound show ?thesis
    by (simp add: dominant_def)
qed

lemma diag_raw_eigs: "eigs rest_lib diag_raw = Inr 2"
  by (simp add: rest_lib_def eigs_diag_def is_diag_def diagonal_def diag_raw_def np_diag_def
      numeral_3_eq_3)

lemma diag_adj: "adj_matrix rest_lib diag_raw = Inr (M_orig diag_esn)"
  by (simp add: adj_matrix_def diag_raw_eigs) (simp add: diag_raw_def diag_esn_def smul_def)

lemma diag_eigs_exact: "eigs_exact rest_lib diag_raw"
  by (simp add: eigs_exact_def diag_raw_eigs diag_raw_dominant)

theorem set_rho_spectral_radius_witness:
  "adj_matrix rest_lib diag_raw = Inr (M_orig diag_esn) \<and> eigs_exact rest_lib diag_raw
   \<and> M (set_rho (3 / 4) diag_esn) = Mat 3 3 [[3 / 4, 0, 0], [0, 3 / 8, 0], [0, 0, 3 / 8]]
   \<and> spectral_radius (M (set_rho (3 / 4) diag_esn)) \<bar>3 / 4\<bar>"
proof -
  have "M (set_rho (3 / 4) diag_esn) = Mat 3 3 [[3 / 4, 0, 0], [0, 3 / 8, 0], [0, 0, 3 / 8]]"
    by (simp add: set_rho_def diag_esn_def smul_def)
  with set_rho_spectral_radius[OF diag_adj diag_eigs_exact refl, of "3 / 4"]
    diag_adj diag_eigs_exact
  show ?thesis by blast
qed

text \<open>
  C1 as the specification states it gives \<open>M\<close> the spectral radius \<open>r\<close> after any assignment.
  For the raw draw \<open>diag(2, 1, 1)\<close> and the assignment \<^verbatim>\<open>self.rho = -1\<close> the matrix \<open>M\<close> is
  \<open>diag(-1, -1/2, -1/2)\<close>, and \<open>-1\<close> is not its spectral radius.
\<close>

theorem set_rho_negative_counterexample:
  "adj_matrix rest_lib diag_raw = Inr (M_orig diag_esn) \<and> eigs_exact rest_lib diag_raw
   \<and> M (set_rho (- 1) diag_esn) = Mat 3 3 [[- 1, 0, 0], [0, - 1 / 2, 0], [0, 0, - 1 / 2]]
   \<and> \<not> spectral_radius (M (set_rho (- 1) diag_esn)) (- 1)"
proof -
  have "M (set_rho (- 1) diag_esn) = Mat 3 3 [[- 1, 0, 0], [0, - 1 / 2, 0], [0, 0, - 1 / 2]]"
    by (simp add: set_rho_def diag_esn_def smul_def)
  moreover have "\<not> spectral_radius (M (set_rho (- 1) diag_esn)) (- 1)"
    using spectral_radius_nonneg by fastforce
  ultimately show ?thesis
    using diag_adj diag_eigs_exact by blast
qed

section \<open>The driving interpolant\<close>

lemma predict_data_Inr:
  assumes "predict L st t_predict (Some data) (Some t) = Inr (prediction, st')"
  shows "\<exists>f. spline L st data t = Inr f \<and> st' = st\<lparr>u := Some f\<rparr>"
  using assms by (auto simp: predict_def Let_def bindE_Inr_iff)

lemma predict_no_data_Inr:
  assumes "predict L st t_predict None topt = Inr (prediction, st')"
  shows "st' = st"
  using assms by (auto simp: predict_def Let_def bindE_Inr_iff split: option.splits)

text \<open>
  C9, as the code has it. A call of \<^verbatim>\<open>train\<close> that returns has built the interpolant from its
  \<open>(data, t)\<close> only when the model held none (\<^verbatim>\<open>self.u\<close> was \<^verbatim>\<open>None\<close>); when the model held
  one, it holds the same one afterwards, whatever data the call supplied. A call of
  \<^verbatim>\<open>predict\<close> with data has built the interpolant from that data and its time grid, and a
  call without data has left the interpolant as it was.
\<close>

theorem driver_built_or_reused:
  "(train L st data t t_listen = Inr (LR_traj, st1) \<longrightarrow>
      (case u st of
         None \<Rightarrow> \<exists>f. spline L st data t = Inr f \<and> u st1 = Some f
       | Some g \<Rightarrow> u st1 = Some g))
   \<and> (predict L st t_predict (Some data) (Some t) = Inr (prediction, st2) \<longrightarrow>
        (\<exists>f. spline L st data t = Inr f \<and> u st2 = Some f))
   \<and> (predict L st t_predict None topt = Inr (prediction', st3) \<longrightarrow> u st3 = u st)"
proof (intro conjI impI)
  assume "train L st data t t_listen = Inr (LR_traj, st1)"
  from train_Inr[OF this] show "case u st of
         None \<Rightarrow> \<exists>f. spline L st data t = Inr f \<and> u st1 = Some f
       | Some g \<Rightarrow> u st1 = Some g"
    by (auto split: option.splits)
next
  assume "predict L st t_predict (Some data) (Some t) = Inr (prediction, st2)"
  from predict_data_Inr[OF this] show "\<exists>f. spline L st data t = Inr f \<and> u st2 = Some f"
    by auto
next
  assume "predict L st t_predict None topt = Inr (prediction', st3)"
  from predict_no_data_Inr[OF this] show "u st3 = u st"
    by simp
qed

lemma ramp_retrain:
  "train (fixed_lib ramp_traj) ramp_trained ramp_data [0, 1, 2] 0
     = Inr (ramp_traj, ramp_trained\<lparr>u := Some (\<lambda>x. [1]),
                                    W_out := Some (Mat 1 2 [[2 / 3, 4 / 9]]), r_T := Some [2]\<rparr>)"
proof (rule train_eq)
  show "(case u ramp_trained of
           None \<Rightarrow> spline (fixed_lib ramp_traj) ramp_trained ramp_data [0, 1, 2]
         | Some g \<Rightarrow> Inr g) = Inr (\<lambda>x. [1])"
    by (simp add: ramp_trained_def)
  show "odeint (fixed_lib ramp_traj) (f_LR (ramp_trained\<lparr>u := Some (\<lambda>x. [1])\<rparr>))
          (replicate (N ramp_trained) 0) [0, 1, 2] = Inr ramp_traj"
    by (simp add: fixed_lib_def)
  show "design_matrix (N ramp_trained) ramp_traj (length [0, 1, 2 :: real]) 0
          = Inr (Mat 2 3 [[0, 1, 2], [0, 1, 4]])"
    using ramp_design by (simp add: ramp_trained_def unit_esn_def numeral_3_eq_3)
  show "readout (fixed_lib ramp_traj) (beta ramp_trained) (N ramp_trained)
          (Mat 2 3 [[0, 1, 2], [0, 1, 4]]) (target_matrix ramp_data 0)
          = Inr (Mat 1 2 [[2 / 3, 4 / 9]])"
    using ramp_readout by (simp add: ramp_trained_def unit_esn_def ramp_target)
  show "last_row ramp_traj = Inr [2]"
    by (simp add: last_row_def ramp_traj_def)
qed

lemma ramp_project: "project ramp_trained ramp_traj = Inr [[0], [10 / 9], [28 / 9]]"
  by (simp add: project_def ramp_trained_def unit_esn_def ramp_traj_def q_def matvec_def dot_def)

lemma ramp_predict_data:
  "predict (fixed_lib ramp_traj) ramp_trained [0, 1, 2] (Some ramp_data) (Some [0, 1, 2])
     = Inr ([[0], [10 / 9], [28 / 9]], ramp_trained\<lparr>u := Some (\<lambda>x. [1])\<rparr>)"
proof -
  have sp: "spline (fixed_lib ramp_traj) ramp_trained ramp_data [0, 1, 2] = Inr (\<lambda>x. [1])"
    by (simp add: spline_def ramp_trained_def unit_esn_def ramp_data_def fixed_lib_def col_def)
  have ode: "odeint (fixed_lib ramp_traj) f r0 t = Inr ramp_traj" for f r0 t
    by (simp add: fixed_lib_def)
  have lr: "last_row ramp_traj = Inr [2]"
    by (simp add: last_row_def ramp_traj_def)
  have same: "ramp_trained\<lparr>u := Some (\<lambda>x. [1])\<rparr> = ramp_trained"
    by (simp add: ramp_trained_def)
  show ?thesis
    by (simp add: predict_def sp ode lr same ramp_project)
qed

lemma ramp_predict_free:
  "predict (fixed_lib ramp_traj) ramp_trained [0, 1, 2] None None
     = Inr ([[0], [10 / 9], [28 / 9]], ramp_trained)"
proof -
  have ode: "odeint (fixed_lib ramp_traj) f r0 t = Inr ramp_traj" for f r0 t
    by (simp add: fixed_lib_def)
  have rT: "r_T ramp_trained = Some [2]"
    by (simp add: ramp_trained_def)
  show ?thesis
    by (simp add: predict_def ode rT ramp_project)
qed

theorem driver_built_or_reused_witness:
  "train (fixed_lib ramp_traj) ramp_trained ramp_data [0, 1, 2] 0
     = Inr (ramp_traj, ramp_trained\<lparr>u := Some (\<lambda>x. [1]),
                                    W_out := Some (Mat 1 2 [[2 / 3, 4 / 9]]), r_T := Some [2]\<rparr>)
   \<and> predict (fixed_lib ramp_traj) ramp_trained [0, 1, 2] (Some ramp_data) (Some [0, 1, 2])
       = Inr ([[0], [10 / 9], [28 / 9]], ramp_trained\<lparr>u := Some (\<lambda>x. [1])\<rparr>)
   \<and> predict (fixed_lib ramp_traj) ramp_trained [0, 1, 2] None None
       = Inr ([[0], [10 / 9], [28 / 9]], ramp_trained)
   \<and> (case u ramp_trained of
         None \<Rightarrow> \<exists>f. spline (fixed_lib ramp_traj) ramp_trained ramp_data [0, 1, 2] = Inr f
                    \<and> u (ramp_trained\<lparr>u := Some (\<lambda>x. [1]),
                            W_out := Some (Mat 1 2 [[2 / 3, 4 / 9]]), r_T := Some [2]\<rparr>) = Some f
       | Some g \<Rightarrow> u (ramp_trained\<lparr>u := Some (\<lambda>x. [1]),
                         W_out := Some (Mat 1 2 [[2 / 3, 4 / 9]]), r_T := Some [2]\<rparr>) = Some g)
   \<and> (\<exists>f. spline (fixed_lib ramp_traj) ramp_trained ramp_data [0, 1, 2] = Inr f
          \<and> u (ramp_trained\<lparr>u := Some (\<lambda>x. [1])\<rparr>) = Some f)"
  using driver_built_or_reused[of "fixed_lib ramp_traj" ramp_trained ramp_data "[0, 1, 2]" 0
      ramp_traj "ramp_trained\<lparr>u := Some (\<lambda>x. [1]),
                                W_out := Some (Mat 1 2 [[2 / 3, 4 / 9]]), r_T := Some [2]\<rparr>"
      "[0, 1, 2]" "[[0], [10 / 9], [28 / 9]]" "ramp_trained\<lparr>u := Some (\<lambda>x. [1])\<rparr>"
      None "[[0], [10 / 9], [28 / 9]]" ramp_trained]
    ramp_retrain ramp_predict_data ramp_predict_free
  by blast

lemma stale_rest:
  "odeint rest_lib (f_LR (stale_esn\<lparr>u := Some (\<lambda>x. [0])\<rparr>)) (replicate (N stale_esn) 0) grid4
     = Inr [[0, 0, 0], [0, 0, 0], [0, 0, 0], [0, 0, 0]]"
  by (simp add: rest_lib_def odeint_rest_def f_LR_def drive_def matvec_def vadd_def dot_def
      stale_esn_def diag_esn_def grid4_def numeral_3_eq_3)


lemma rest_design:
  "design_matrix 3 [[0, 0, 0], [0, 0, 0], [0, 0, 0], [0, 0, 0]] 4 0
     = Inr (Mat 6 4 [[0, 0, 0, 0], [0, 0, 0, 0], [0, 0, 0, 0],
                     [0, 0, 0, 0], [0, 0, 0, 0], [0, 0, 0, 0]])"
  by (simp add: design_matrix_def row_at_def q_def set_col_def np_zeros_def
      numeral_3_eq_3 numeral_2_eq_2 eval_nat_numeral)

lemma ones_target: "target_matrix ones_data 0 = Mat 1 4 [[1, 1, 1, 1]]"
  by (simp add: target_matrix_def ones_data_def np_transpose_def col_def)

lemma rest_ridge:
  "ridge_matrix 1 3 (Mat 6 4 [[0, 0, 0, 0], [0, 0, 0, 0], [0, 0, 0, 0],
                               [0, 0, 0, 0], [0, 0, 0, 0], [0, 0, 0, 0]])
     = Inr (np_diag [1, 1, 1, 1, 1, 1])"
  by (simp add: ridge_matrix_def np_matmul_def np_transpose_def col_def dot_def
      madd_def smul_def np_identity_def np_diag_def eval_nat_numeral)

lemma inv_diag_ones:
  "inv_diag (np_diag [1, 1, 1, 1, 1, 1]) = Inr (np_diag [1, 1, 1, 1, 1, 1])"
  by (simp add: inv_diag_def is_diag_def diagonal_def np_diag_def eval_nat_numeral)

lemma rest_readout:
  "readout rest_lib 1 3 (Mat 6 4 [[0, 0, 0, 0], [0, 0, 0, 0], [0, 0, 0, 0],
                                   [0, 0, 0, 0], [0, 0, 0, 0], [0, 0, 0, 0]])
     (Mat 1 4 [[1, 1, 1, 1]]) = Inr (Mat 1 6 [[0, 0, 0, 0, 0, 0]])"
proof -
  have "np_matmul (Mat 1 4 [[1, 1, 1, 1]])
          (np_transpose (Mat 6 4 [[0, 0, 0, 0], [0, 0, 0, 0], [0, 0, 0, 0],
                                  [0, 0, 0, 0], [0, 0, 0, 0], [0, 0, 0, 0]]))
          = Inr (Mat 1 6 [[0, 0, 0, 0, 0, 0]])"
    by (simp add: np_matmul_def np_transpose_def col_def dot_def eval_nat_numeral)
  moreover have "np_matmul (Mat 1 6 [[0, 0, 0, 0, 0, 0]]) (np_diag [1, 1, 1, 1, 1, 1])
          = Inr (Mat 1 6 [[0, 0, 0, 0, 0, 0]])"
    by (simp add: np_matmul_def np_diag_def col_def dot_def eval_nat_numeral)
  ultimately show ?thesis
    by (simp add: readout_def rest_ridge rest_lib_def inv_diag_ones)
qed

lemma stale_train:
  "train rest_lib stale_esn ones_data grid4 0
     = Inr ([[0, 0, 0], [0, 0, 0], [0, 0, 0], [0, 0, 0]],
            stale_esn\<lparr>u := Some (\<lambda>x. [0]), W_out := Some (Mat 1 6 [[0, 0, 0, 0, 0, 0]]),
                      r_T := Some [0, 0, 0]\<rparr>)"
proof (rule train_eq)
  show "(case u stale_esn of None \<Rightarrow> spline rest_lib stale_esn ones_data grid4
         | Some g \<Rightarrow> Inr g) = Inr (\<lambda>x. [0])"
    by (simp add: stale_esn_def)
  show "odeint rest_lib (f_LR (stale_esn\<lparr>u := Some (\<lambda>x. [0])\<rparr>)) (replicate (N stale_esn) 0)
          grid4 = Inr [[0, 0, 0], [0, 0, 0], [0, 0, 0], [0, 0, 0]]"
    by (rule stale_rest)
  show "design_matrix (N stale_esn) [[0, 0, 0], [0, 0, 0], [0, 0, 0], [0, 0, 0]]
          (length grid4) 0
          = Inr (Mat 6 4 [[0, 0, 0, 0], [0, 0, 0, 0], [0, 0, 0, 0],
                          [0, 0, 0, 0], [0, 0, 0, 0], [0, 0, 0, 0]])"
    using rest_design by (simp add: stale_esn_def diag_esn_def grid4_def eval_nat_numeral)
  show "readout rest_lib (beta stale_esn) (N stale_esn)
          (Mat 6 4 [[0, 0, 0, 0], [0, 0, 0, 0], [0, 0, 0, 0],
                    [0, 0, 0, 0], [0, 0, 0, 0], [0, 0, 0, 0]]) (target_matrix ones_data 0)
          = Inr (Mat 1 6 [[0, 0, 0, 0, 0, 0]])"
    using rest_readout by (simp add: stale_esn_def diag_esn_def ones_target)
  show "last_row [[0, 0, 0], [0, 0, 0], [0, 0, 0], [0 :: real, 0, 0]] = Inr [0, 0, 0]"
    by (simp add: last_row_def)
qed

lemma ones_spline: "spline rest_lib stale_esn ones_data grid4 = Inr (\<lambda>x. [1])"
  by (simp add: spline_def rest_lib_def splprep_const_def stale_esn_def diag_esn_def
      ones_data_def grid4_def col_def eval_nat_numeral)

text \<open>
  C9 as the specification states it has every call of \<^verbatim>\<open>train\<close> build the interpolant from
  the data it is given. The model \<open>stale_esn\<close> holds the interpolant of the signal \<open>0\<close>; trained
  on the signal \<open>1\<close> it returns and still holds the interpolant of the signal \<open>0\<close>, which is not
  the interpolant \<^verbatim>\<open>spline(data, t)\<close> of the data supplied.
\<close>

theorem train_stale_driver_counterexample:
  "spline rest_lib stale_esn ones_data grid4 = Inr (\<lambda>x. [1])
   \<and> train rest_lib stale_esn ones_data grid4 0
       = Inr ([[0, 0, 0], [0, 0, 0], [0, 0, 0], [0, 0, 0]],
              stale_esn\<lparr>u := Some (\<lambda>x. [0]), W_out := Some (Mat 1 6 [[0, 0, 0, 0, 0, 0]]),
                        r_T := Some [0, 0, 0]\<rparr>)
   \<and> u (stale_esn\<lparr>u := Some (\<lambda>x. [0]), W_out := Some (Mat 1 6 [[0, 0, 0, 0, 0, 0]]),
                   r_T := Some [0, 0, 0]\<rparr>) \<noteq> Some (\<lambda>x. [1])"
proof -
  have "(\<lambda>x :: real. [0 :: real]) \<noteq> (\<lambda>x. [1])"
    by (auto simp: fun_eq_iff)
  then show ?thesis
    using ones_spline stale_train by simp
qed

section \<open>Adaptation with a zero learning rate\<close>

lemma foldE_invariant:
  assumes "foldE f ixs s = Inr s'" and "P s"
    and "\<And>s i s'. P s \<Longrightarrow> f s i = Inr s' \<Longrightarrow> P s'"
  shows "P s'"
  using assms(1,2)
proof (induction ixs arbitrary: s)
  case Nil
  then show ?case by simp
next
  case (Cons i ixs)
  from Cons.prems(1) obtain s1 where "f s i = Inr s1" "foldE f ixs s1 = Inr s'"
    by (auto simp: bindE_Inr_iff)
  with Cons.IH[of s1] Cons.prems(2) assms(3) show ?case by blast
qed

lemma foldE_fixed:
  assumes "\<And>i. i \<in> set ixs \<Longrightarrow> f s i = Inr s"
  shows "foldE f ixs s = Inr s"
  using assms by (induction ixs) auto

lemma map2_add_zeros:
  assumes "length v = length w" "\<forall>y \<in> set w. y = (0 :: real)"
  shows "map2 (+) v w = v"
  using assms by (induction v w rule: list_induct2) auto

lemma vadd_zeros:
  assumes "vadd v w = Inr v'" "\<forall>y \<in> set w. y = 0"
  shows "v' = v"
  using assms by (auto simp: vadd_def map2_add_zeros split: if_splits)

lemma dot_zero_row:
  assumes "\<forall>y \<in> set r. y = 0"
  shows "dot r v = 0"
  using assms unfolding dot_def
proof (induction r arbitrary: v)
  case Nil
  then show ?case by simp
next
  case (Cons y r)
  then show ?case by (cases v) auto
qed

lemma foldE_once: "foldE (\<lambda>s e. g s) [i] s = g s"
  by (cases "g s") simp_all

lemma fadd_zero: "fadd g (Fin 0) = g"
  by (cases g) simp_all

lemma map2_fadd_zeros:
  assumes "length v = length w" "\<forall>g \<in> set w. g = Fin 0"
  shows "map2 fadd v w = v"
  using assms by (induction v w rule: list_induct2) (auto simp: fadd_zero)

lemma fvadd_zeros:
  assumes "fvadd v w = Inr v'" "\<forall>g \<in> set w. g = Fin 0"
  shows "v' = v"
  using assms by (auto simp: fvadd_def map2_fadd_zeros split: if_splits)

lemma mapE_fdiv_zero:
  assumes "list_all regular v"
  shows "mapE (fdiv 0) v = Inr (map (\<lambda>g. Fin 0) v)"
  using assms
proof (induction v)
  case Nil
  then show ?case by simp
next
  case (Cons g v)
  then show ?case by (cases g) simp_all
qed

lemma IP_step_zero_rate:
  assumes "IP_step st x z ab t = Inr ab'" "nu st = 0" "list_all regular (fst ab)"
  shows "ab' = ab"
proof -
  from assms(1) obtain h na zt dz delta_a b' a' where
    na: "mapE (fdiv (nu st)) (fst ab) = Inr na"
    and dz: "matvec (np_diag (map ((*) (- nu st)) h)) zt = Inr dz"
    and da: "fvadd na (map Fin dz) = Inr delta_a"
    and b': "vadd (snd ab) (map ((*) (- nu st)) h) = Inr b'"
    and a': "fvadd (fst ab) delta_a = Inr a'"
    and ab': "ab' = (a', b')"
    unfolding IP_step_def Let_def bindE_Inr_iff by auto
  have zb: "\<forall>y \<in> set (map ((*) (- nu st)) h). y = 0"
    using assms(2) by simp
  from na assms(2,3) have zna: "\<forall>g \<in> set na. g = Fin 0"
    by (auto simp: mapE_fdiv_zero)
  from dz have "dz = map (\<lambda>r. dot r zt) (rows (np_diag (map ((*) (- nu st)) h)))"
    by (auto simp: matvec_def split: if_splits)
  moreover have "\<forall>r \<in> set (rows (np_diag (map ((*) (- nu st)) h))). \<forall>y \<in> set r. y = 0"
    using assms(2) by (auto simp: np_diag_def)
  ultimately have "\<forall>y \<in> set dz. y = 0"
    by (auto simp: dot_zero_row)
  then have "\<forall>g \<in> set (map Fin dz). g = Fin 0"
    by simp
  with da have "delta_a = na" by (rule fvadd_zeros)
  with zna have "\<forall>g \<in> set delta_a. g = Fin 0" by simp
  with a' have "a' = fst ab" by (rule fvadd_zeros)
  moreover from b' zb have "b' = snd ab" by (rule vadd_zeros)
  ultimately show ?thesis using ab' by simp
qed

text \<open>
  C8, as the code has it. With the learning rate \<open>nu = 0\<close>, a nonzero target spread and a gain
  whose entries are nonzero numbers, a call of \<^verbatim>\<open>IP_train\<close> that returns leaves the gain vector
  \<open>a\<close> and the bias vector \<open>b\<close> as they were, for any number of epochs, any data and either value
  of \<^verbatim>\<open>rescale\<close>. (The bias is a list of real numbers, so it is finite.)
\<close>

theorem IP_train_zero_rate:
  assumes "nu st = 0"
    and "list_all regular (a st)"
    and "IP_train L st data t_points n_epochs rescale = Inr (st', aM, aW)"
    and "sd st \<noteq> 0"
  shows "a st' = a st \<and> b st' = b st"
proof -
  define st0 where "st0 = (if rescale
      then set_sigma (sigma (set_rho (rho st) st)) (set_rho (rho st) st) else st)"
  have keep: "a st0 = a st" "b st0 = b st" "nu st0 = nu st"
    by (simp_all add: st0_def set_sigma_def set_rho_def)
  from assms(3) obtain f x z ab where
    loop: "foldE (\<lambda>ab e. foldE (IP_step (st0\<lparr>u := Some f\<rparr>) x z) [0..<length t_points] ab)
             [0..<n_epochs] (a (st0\<lparr>u := Some f\<rparr>), b (st0\<lparr>u := Some f\<rparr>)) = Inr ab"
    and st': "a st' = fst ab" "b st' = snd ab"
    unfolding IP_train_def Let_def bindE_Inr_iff st0_def[symmetric] by auto
  have step: "ab2 = (a st, b st)"
    if "ab1 = (a st, b st)" "IP_step (st0\<lparr>u := Some f\<rparr>) x z ab1 k = Inr ab2" for ab1 ab2 k
    using IP_step_zero_rate[OF that(2)] that(1) keep assms(1,2) by simp
  have epoch: "ab2 = (a st, b st)"
    if "ab1 = (a st, b st)"
      "foldE (IP_step (st0\<lparr>u := Some f\<rparr>) x z) [0..<length t_points] ab1 = Inr ab2"
    for ab1 ab2 and e :: nat
    using foldE_invariant[OF that(2), of "\<lambda>s. s = (a st, b st)"] that(1) step by blast
  have "ab = (a st, b st)"
    using foldE_invariant[OF loop, of "\<lambda>s. s = (a st, b st)"] keep epoch by simp
  with st' show ?thesis by simp
qed


lemma ip_run:
  "IP_train rest_lib ip_esn zero_data grid4 1 True
     = Inr (ip_esn\<lparr>u := Some (\<lambda>x. [0])\<rparr>,
            fin_mat (Mat 3 3 [[4, 0, 0], [0, 2, 0], [0, 0, 2]]),
            fin_mat (Mat 3 1 [[1 / 2], [- 1 / 2], [1 / 4]]))"
proof -
  define st1 where "st1 = (set_sigma (sigma (set_rho (rho ip_esn) ip_esn))
                             (set_rho (rho ip_esn) ip_esn))\<lparr>u := Some (\<lambda>x. [0])\<rparr>"
  have st1: "st1 = ip_esn\<lparr>u := Some (\<lambda>x. [0])\<rparr>"
    by (simp add: st1_def set_sigma_def set_rho_def ip_esn_def smul_def)
  have sp: "spline rest_lib (set_sigma (sigma (set_rho (rho ip_esn) ip_esn))
                               (set_rho (rho ip_esn) ip_esn)) zero_data grid4 = Inr (\<lambda>x. [0])"
    by (simp add: spline_def rest_lib_def splprep_const_def set_sigma_def set_rho_def
        ip_esn_def zero_data_def grid4_def col_def eval_nat_numeral)
  have ode: "odeint rest_lib (f_LR st1) (replicate (N st1) 0) grid4
               = Inr [[0, 0, 0], [0, 0, 0], [0, 0, 0], [0, 0, 0]]"
    by (simp add: st1 rest_lib_def odeint_rest_def f_LR_def drive_def matvec_def vadd_def dot_def
        ip_esn_def grid4_def numeral_3_eq_3)
  have z: "mapE (\<lambda>t. bindE (row_at [[0, 0, 0], [0, 0, 0], [0, 0, 0], [0, 0, 0]] t) (\<lambda>xt.
                   bindE (matvec (M st1) xt) (\<lambda>mx.
                   bindE (matvec (W_in st1) ((\<lambda>x. [0]) (grid4 ! t))) (\<lambda>wu. vadd mx wu))))
             [0..<length grid4] = Inr [[0, 0, 0], [0, 0, 0], [0, 0, 0], [0, 0, 0]]"
    by (simp add: st1 row_at_def matvec_def vadd_def dot_def ip_esn_def grid4_def
        eval_nat_numeral)
  have step: "IP_step st1 [[0, 0, 0], [0, 0, 0], [0, 0, 0], [0, 0, 0]]
                [[0, 0, 0], [0, 0, 0], [0, 0, 0], [0, 0, 0]] ([Fin 1, Fin 1, Fin 1], [0, 0, 0]) k
                = Inr ([Fin 1, Fin 1, Fin 1], [0, 0, 0])" if "k \<in> {0, 1, 2, 3}" for k
    using that
    by (auto simp: IP_step_def st1 ip_esn_def row_at_def H_def fvadd_def matvec_def np_diag_def
        vadd_def dot_def eval_nat_numeral Let_def)
  have loop: "foldE (\<lambda>ab e. foldE (IP_step st1 [[0, 0, 0], [0, 0, 0], [0, 0, 0], [0, 0, 0]]
                                     [[0, 0, 0], [0, 0, 0], [0, 0, 0], [0, 0, 0]])
                              [0..<length grid4] ab)
               [0..<1] (a st1, b st1) = Inr ([Fin 1, Fin 1, Fin 1], [0, 0, 0])"
  proof -
    have ab: "(a st1, b st1) = ([Fin 1, Fin 1, Fin 1], [0, 0, 0])"
      by (simp add: st1 ip_esn_def)
    have inner: "foldE (IP_step st1 [[0, 0, 0], [0, 0, 0], [0, 0, 0], [0, 0, 0]]
                                     [[0, 0, 0], [0, 0, 0], [0, 0, 0], [0, 0, 0]])
                   [0..<length grid4] ([Fin 1, Fin 1, Fin 1], [0, 0, 0])
                 = Inr ([Fin 1, Fin 1, Fin 1], [0, 0, 0])"
      by (rule foldE_fixed, rule step) (auto simp: grid4_def)
    show ?thesis
      unfolding ab by (rule foldE_fixed) (rule inner)
  qed
  have aM: "fmatmul (fdiag [Fin 1, Fin 1, Fin 1]) (fin_mat (M st1))
              = Inr (fin_mat (Mat 3 3 [[2, 0, 0], [0, 1, 0], [0, 0, 1]]))"
    by (simp add: st1 ip_esn_def fmatmul_def fdiag_def fin_mat_def fdot_def eval_nat_numeral)
  have aW: "fmatmul (fdiag [Fin 1, Fin 1, Fin 1]) (fin_mat (W_in st1))
              = Inr (fin_mat (Mat 3 1 [[1 / 2], [- 1 / 2], [1 / 4]]))"
    by (simp add: st1 ip_esn_def fmatmul_def fdiag_def fin_mat_def fdot_def eval_nat_numeral)
  have "IP_train rest_lib ip_esn zero_data grid4 1 True
          = Inr (st1\<lparr>a := [Fin 1, Fin 1, Fin 1], b := [0, 0, 0]\<rparr>,
                 fsmul (rho st1) (fin_mat (Mat 3 3 [[2, 0, 0], [0, 1, 0], [0, 0, 1]])),
                 fsmul (sigma st1) (fin_mat (Mat 3 1 [[1 / 2], [- 1 / 2], [1 / 4]])))"
    unfolding IP_train_def Let_def
    by (simp only: if_True sp bindE.simps st1_def[symmetric] ode z loop aM aW fst_conv snd_conv)
  also have "\<dots> = Inr (ip_esn\<lparr>u := Some (\<lambda>x. [0])\<rparr>,
            fin_mat (Mat 3 3 [[4, 0, 0], [0, 2, 0], [0, 0, 2]]),
            fin_mat (Mat 3 1 [[1 / 2], [- 1 / 2], [1 / 4]]))"
    by (simp add: st1 ip_esn_def fsmul_def fin_mat_def)
  finally show ?thesis .
qed

theorem IP_train_zero_rate_witness:
  "nu ip_esn = 0 \<and> list_all regular (a ip_esn) \<and> sd ip_esn \<noteq> 0
   \<and> IP_train rest_lib ip_esn zero_data grid4 1 True
       = Inr (ip_esn\<lparr>u := Some (\<lambda>x. [0])\<rparr>,
              fin_mat (Mat 3 3 [[4, 0, 0], [0, 2, 0], [0, 0, 2]]),
              fin_mat (Mat 3 1 [[1 / 2], [- 1 / 2], [1 / 4]]))
   \<and> a (ip_esn\<lparr>u := Some (\<lambda>x. [0])\<rparr>) = a ip_esn
   \<and> b (ip_esn\<lparr>u := Some (\<lambda>x. [0])\<rparr>) = b ip_esn"
proof -
  have nu0: "nu ip_esn = 0"
    by (simp add: ip_esn_def)
  have reg: "list_all regular (a ip_esn)"
    by (simp add: ip_esn_def)
  have sd1: "sd ip_esn \<noteq> 0"
    by (simp add: ip_esn_def)
  from IP_train_zero_rate[OF nu0 reg ip_run sd1] nu0 reg ip_run sd1 show ?thesis
    by simp
qed

lemma zero_gain_run:
  "IP_train rest_lib zero_gain_esn zero_data grid4 1 True
     = Inr (zero_gain_esn\<lparr>u := Some (\<lambda>x. [0]), a := [Fin 1, NaN, Fin 1]\<rparr>,
            FMat 3 3 [[Fin 4, Fin 0, Fin 0], [NaN, NaN, NaN], [Fin 0, Fin 0, Fin 2]],
            FMat 3 1 [[Fin (1 / 2)], [NaN], [Fin (1 / 4)]])"
proof -
  define st1 where "st1 = (set_sigma (sigma (set_rho (rho zero_gain_esn) zero_gain_esn))
                      (set_rho (rho zero_gain_esn) zero_gain_esn))\<lparr>u := Some (\<lambda>x. [0])\<rparr>"
  have st1: "st1 = zero_gain_esn\<lparr>u := Some (\<lambda>x. [0])\<rparr>"
    by (simp add: st1_def set_sigma_def set_rho_def zero_gain_esn_def ip_esn_def smul_def)
  have sp: "spline rest_lib (set_sigma (sigma (set_rho (rho zero_gain_esn) zero_gain_esn))
                               (set_rho (rho zero_gain_esn) zero_gain_esn)) zero_data grid4
              = Inr (\<lambda>x. [0])"
    by (simp add: spline_def rest_lib_def splprep_const_def set_sigma_def set_rho_def
        zero_gain_esn_def ip_esn_def zero_data_def grid4_def col_def eval_nat_numeral)
  have ode: "odeint rest_lib (f_LR st1) (replicate (N st1) 0) grid4
               = Inr [[0, 0, 0], [0, 0, 0], [0, 0, 0], [0, 0, 0]]"
    by (simp add: st1 rest_lib_def odeint_rest_def f_LR_def drive_def matvec_def vadd_def dot_def
        zero_gain_esn_def ip_esn_def grid4_def numeral_3_eq_3)
  have z: "mapE (\<lambda>t. bindE (row_at [[0, 0, 0], [0, 0, 0], [0, 0, 0], [0, 0, 0]] t) (\<lambda>xt.
                   bindE (matvec (M st1) xt) (\<lambda>mx.
                   bindE (matvec (W_in st1) ((\<lambda>x. [0]) (grid4 ! t))) (\<lambda>wu. vadd mx wu))))
             [0..<length grid4] = Inr [[0, 0, 0], [0, 0, 0], [0, 0, 0], [0, 0, 0]]"
    by (simp add: st1 row_at_def matvec_def vadd_def dot_def zero_gain_esn_def ip_esn_def
        grid4_def eval_nat_numeral)
  have first: "IP_step st1 [[0, 0, 0], [0, 0, 0], [0, 0, 0], [0, 0, 0]]
                [[0, 0, 0], [0, 0, 0], [0, 0, 0], [0, 0, 0]] ([Fin 1, Fin 0, Fin 1], [0, 0, 0]) 0
                = Inr ([Fin 1, NaN, Fin 1], [0, 0, 0])"
    by (simp add: IP_step_def st1 zero_gain_esn_def ip_esn_def row_at_def H_def fvadd_def
        matvec_def np_diag_def vadd_def dot_def eval_nat_numeral Let_def)
  have step: "IP_step st1 [[0, 0, 0], [0, 0, 0], [0, 0, 0], [0, 0, 0]]
                [[0, 0, 0], [0, 0, 0], [0, 0, 0], [0, 0, 0]] ([Fin 1, NaN, Fin 1], [0, 0, 0]) k
                = Inr ([Fin 1, NaN, Fin 1], [0, 0, 0])" if "k \<in> {1, 2, 3}" for k
    using that
    by (auto simp: IP_step_def st1 zero_gain_esn_def ip_esn_def row_at_def H_def fvadd_def
        matvec_def np_diag_def vadd_def dot_def eval_nat_numeral Let_def)
  have rest: "foldE (IP_step st1 [[0, 0, 0], [0, 0, 0], [0, 0, 0], [0, 0, 0]]
                                     [[0, 0, 0], [0, 0, 0], [0, 0, 0], [0, 0, 0]])
                   [1, 2, 3] ([Fin 1, NaN, Fin 1], [0, 0, 0])
                 = Inr ([Fin 1, NaN, Fin 1], [0, 0, 0])"
    by (rule foldE_fixed, rule step) auto
  have grid: "[0..<length grid4] = [0, 1, 2, 3]"
    by (simp add: grid4_def eval_nat_numeral)
  have ab: "(a st1, b st1) = ([Fin 1, Fin 0, Fin 1], [0, 0, 0])"
    by (simp add: st1 zero_gain_esn_def ip_esn_def)
  have inner: "foldE (IP_step st1 [[0, 0, 0], [0, 0, 0], [0, 0, 0], [0, 0, 0]]
                                     [[0, 0, 0], [0, 0, 0], [0, 0, 0], [0, 0, 0]])
                   [0, 1, 2, 3] ([Fin 1, Fin 0, Fin 1], [0, 0, 0])
                 = Inr ([Fin 1, NaN, Fin 1], [0, 0, 0])"
    by (simp only: foldE.simps(2)[of _ 0] first bindE.simps rest)
  have once: "[0..<1] = [0 :: nat]"
    by simp
  have loop: "foldE (\<lambda>ab e. foldE (IP_step st1 [[0, 0, 0], [0, 0, 0], [0, 0, 0], [0, 0, 0]]
                                     [[0, 0, 0], [0, 0, 0], [0, 0, 0], [0, 0, 0]])
                              [0..<length grid4] ab)
               [0..<1] (a st1, b st1) = Inr ([Fin 1, NaN, Fin 1], [0, 0, 0])"
    by (simp only: once ab grid foldE_once inner)
  have aM: "fmatmul (fdiag [Fin 1, NaN, Fin 1]) (fin_mat (M st1))
              = Inr (FMat 3 3 [[Fin 2, Fin 0, Fin 0], [NaN, NaN, NaN], [Fin 0, Fin 0, Fin 1]])"
    by (simp add: st1 zero_gain_esn_def ip_esn_def fmatmul_def fdiag_def fin_mat_def fdot_def
        eval_nat_numeral)
  have aW: "fmatmul (fdiag [Fin 1, NaN, Fin 1]) (fin_mat (W_in st1))
              = Inr (FMat 3 1 [[Fin (1 / 2)], [NaN], [Fin (1 / 4)]])"
    by (simp add: st1 zero_gain_esn_def ip_esn_def fmatmul_def fdiag_def fin_mat_def fdot_def
        eval_nat_numeral)
  have "IP_train rest_lib zero_gain_esn zero_data grid4 1 True
          = Inr (st1\<lparr>a := [Fin 1, NaN, Fin 1], b := [0, 0, 0]\<rparr>,
                 fsmul (rho st1)
                   (FMat 3 3 [[Fin 2, Fin 0, Fin 0], [NaN, NaN, NaN], [Fin 0, Fin 0, Fin 1]]),
                 fsmul (sigma st1) (FMat 3 1 [[Fin (1 / 2)], [NaN], [Fin (1 / 4)]]))"
    unfolding IP_train_def Let_def
    by (simp only: if_True sp bindE.simps st1_def[symmetric] ode z loop aM aW fst_conv snd_conv)
  also have "\<dots> = Inr (zero_gain_esn\<lparr>u := Some (\<lambda>x. [0]), a := [Fin 1, NaN, Fin 1]\<rparr>,
            FMat 3 3 [[Fin 4, Fin 0, Fin 0], [NaN, NaN, NaN], [Fin 0, Fin 0, Fin 2]],
            FMat 3 1 [[Fin (1 / 2)], [NaN], [Fin (1 / 4)]])"
    by (simp add: st1 zero_gain_esn_def ip_esn_def fsmul_def)
  finally show ?thesis .
qed

text \<open>
  C8 as the specification states it holds for every finite gain, and zero is finite. The model
  \<open>zero_gain_esn\<close> is \<open>ip_esn\<close> with the gain \<open>[1, 0, 1]\<close>, a target spread of \<open>1\<close> and \<open>nu = 0\<close>.
  The first step of \<^verbatim>\<open>IP_train\<close> computes \<^verbatim>\<open>self.nu/self.a\<close>, whose middle entry is \<open>0 / 0\<close>: the
  call returns with the gain \<open>[1, nan, 1]\<close>, and with a row of \<^verbatim>\<open>nan\<close> in both matrices.
\<close>

theorem IP_train_zero_gain_counterexample:
  "nu zero_gain_esn = 0 \<and> sd zero_gain_esn = 1
   \<and> a zero_gain_esn = [Fin 1, Fin 0, Fin 1]
   \<and> IP_train rest_lib zero_gain_esn zero_data grid4 1 True
       = Inr (zero_gain_esn\<lparr>u := Some (\<lambda>x. [0]), a := [Fin 1, NaN, Fin 1]\<rparr>,
              FMat 3 3 [[Fin 4, Fin 0, Fin 0], [NaN, NaN, NaN], [Fin 0, Fin 0, Fin 2]],
              FMat 3 1 [[Fin (1 / 2)], [NaN], [Fin (1 / 4)]])
   \<and> a (zero_gain_esn\<lparr>u := Some (\<lambda>x. [0]), a := [Fin 1, NaN, Fin 1]\<rparr>) \<noteq> a zero_gain_esn"
proof -
  have c1: "nu zero_gain_esn = 0" "sd zero_gain_esn = 1"
    "a zero_gain_esn = [Fin 1, Fin 0, Fin 1]"
    by (simp_all add: zero_gain_esn_def ip_esn_def)
  have c2: "a (zero_gain_esn\<lparr>u := Some (\<lambda>x. [0]), a := [Fin 1, NaN, Fin 1]\<rparr>) \<noteq> a zero_gain_esn"
    by (simp add: zero_gain_esn_def)
  show ?thesis
    by (intro conjI c1 zero_gain_run c2)
qed

section \<open>Anti-Hebbian adaptation with a zero learning rate\<close>

lemma wf_smul: "wf_mat A \<Longrightarrow> wf_mat (smul c A)"
  by (auto simp: wf_mat_def smul_def list_all_iff)

lemma wf_outer: "wf_mat (outer v w)"
  by (auto simp: wf_mat_def outer_def list_all_iff)

lemma map2_sub_zeros:
  assumes "length v = length w"
  shows "map2 (-) v (map ((*) (0 :: real)) w) = v"
  using assms by (induction v w rule: list_induct2) auto

lemma msub_smul_zero:
  assumes "msub A (smul 0 X) = Inr A'" "wf_mat A" "wf_mat X"
  shows "A' = A"
proof -
  from assms(1) have sh: "nrows A = nrows X" "ncols A = ncols X"
    and A': "A' = Mat (nrows A) (ncols A)
               (map2 (map2 (-)) (rows A) (map (map ((*) 0)) (rows X)))"
    by (simp_all add: msub_def smul_def split: if_splits)
  have len: "length (rows A) = length (rows X)"
    using assms(2,3) sh by (simp add: wf_mat_def)
  have rl: "length (rows A ! i) = length (rows X ! i)" if "i < length (rows A)" for i
    using assms(2,3) sh len that by (simp add: wf_mat_def list_all_length)
  have "map2 (map2 (-)) (rows A) (map (map ((*) 0)) (rows X)) = rows A"
  proof (rule nth_equalityI)
    show "length (map2 (map2 (-)) (rows A) (map (map ((*) 0)) (rows X))) = length (rows A)"
      using len by simp
    fix i assume "i < length (map2 (map2 (-)) (rows A) (map (map ((*) 0)) (rows X)))"
    then have i: "i < length (rows A)" "i < length (rows X)"
      using len by simp_all
    then have "map2 (map2 (-)) (rows A) (map (map ((*) 0)) (rows X)) ! i
                 = map2 (-) (rows A ! i) (map ((*) 0) (rows X ! i))"
      by simp
    also have "\<dots> = rows A ! i"
      by (rule map2_sub_zeros) (rule rl[OF i(1)])
    finally show "map2 (map2 (-)) (rows A) (map (map ((*) 0)) (rows X)) ! i = rows A ! i" .
  qed
  with A' have "A' = Mat (nrows A) (ncols A) (rows A)"
    by simp
  then show ?thesis
    by (simp only: mat.collapse)
qed

lemma set_row_shape:
  assumes "set_row X i r = Inr X'" "wf_mat X"
  shows "wf_mat X' \<and> nrows X' = nrows X \<and> ncols X' = ncols X"
proof -
  from assms(1) have r: "length r = ncols X"
    and X': "X' = Mat (nrows X) (ncols X) ((rows X)[i := r])"
    by (simp_all add: set_row_def split: if_splits)
  from assms(2) have wf: "length (rows X) = nrows X" "\<forall>y \<in> set (rows X). length y = ncols X"
    by (simp_all add: wf_mat_def list_all_iff)
  have "length y = ncols X" if "y \<in> set ((rows X)[i := r])" for y
  proof -
    from that have "y = r \<or> y \<in> set (rows X)"
      using subsetD[OF set_update_subset_insert] by fastforce
    with r wf(2) show ?thesis by blast
  qed
  then have "list_all (\<lambda>y. length y = ncols X) ((rows X)[i := r])"
    by (simp add: list_all_iff)
  with wf(1) show ?thesis
    unfolding X' wf_mat_def by simp
qed

lemma hebb_step_zero_rate:
  assumes "hebb_step st x XM t = Inr XM'" "eta st = 0" "wf_mat (fst XM)" "wf_mat (snd XM)"
  shows "wf_mat (fst XM') \<and> snd XM' = snd XM"
proof -
  from assms(1) obtain X' where
    rows: "foldE (\<lambda>X i. bindE (row_at x (t + 1)) (\<lambda>xa.
                        bindE (row_at xa i) (\<lambda>s.
                        bindE (row_at x t) (\<lambda>xb. set_row X i (map ((*) s) xb)))))
              [0..<N st] (fst XM) = Inr X'"
    and sub: "msub (snd XM) (smul (eta st) X') = Inr (snd XM')" and fst: "fst XM' = X'"
    unfolding hebb_step_def bindE_Inr_iff by auto
  have wf: "wf_mat X'"
  proof (rule foldE_invariant[where P = wf_mat, OF rows assms(3)])
    fix X i X2
    assume "wf_mat X"
      and "bindE (row_at x (t + 1)) (\<lambda>xa. bindE (row_at xa i) (\<lambda>s.
             bindE (row_at x t) (\<lambda>xb. set_row X i (map ((*) s) xb)))) = Inr X2"
    then show "wf_mat X2"
      unfolding bindE_Inr_iff using set_row_shape by blast
  qed
  from sub assms(2) have "snd XM' = snd XM"
    using msub_smul_zero[OF _ assms(4) wf] by simp
  with wf fst show ?thesis by simp
qed

lemma hebb_learn_zero_rate:
  assumes "hebb_learn L st data t t_listen rescale = Inr st'" "eta st = 0" "wf_mat (M_orig st)"
  shows "M st' = smul (rho st) (M_orig st)"
proof -
  define st0 where "st0 = (if rescale then set_rho (rho st) st else st)"
  have keep: "M_orig st0 = M_orig st" "eta st0 = eta st" "rho st0 = rho st"
    by (simp_all add: st0_def set_rho_def)
  from assms(1) obtain f x XM where
    loop: "foldE (\<lambda>XM e. foldE (hebb_step (st0\<lparr>u := Some f\<rparr>) x)
                             [t_listen..<nrows data - 1] XM)
             [0..<epochs (st0\<lparr>u := Some f\<rparr>)]
             (np_zeros (N (st0\<lparr>u := Some f\<rparr>)) (N (st0\<lparr>u := Some f\<rparr>)),
              M_orig (st0\<lparr>u := Some f\<rparr>)) = Inr XM"
    and st': "st' = st0\<lparr>u := Some f, M := smul (rho (st0\<lparr>u := Some f\<rparr>)) (snd XM)\<rparr>"
    unfolding hebb_learn_def Let_def bindE_Inr_iff st0_def[symmetric] by auto
  let ?P = "\<lambda>XM. wf_mat (fst XM) \<and> snd XM = M_orig st"
  have step: "?P XM2" if "?P XM1" "hebb_step (st0\<lparr>u := Some f\<rparr>) x XM1 k = Inr XM2"
    for XM1 XM2 k
    using hebb_step_zero_rate[OF that(2)] that(1) keep assms(2,3) by simp
  have epoch: "?P XM2"
    if "?P XM1" "foldE (hebb_step (st0\<lparr>u := Some f\<rparr>) x) [t_listen..<nrows data - 1] XM1
                   = Inr XM2" for XM1 XM2
    by (rule foldE_invariant[where P = ?P, OF that(2) that(1)]) (rule step)
  have "?P XM"
  proof (rule foldE_invariant[where P = ?P, OF loop])
    show "?P (np_zeros (N (st0\<lparr>u := Some f\<rparr>)) (N (st0\<lparr>u := Some f\<rparr>)),
              M_orig (st0\<lparr>u := Some f\<rparr>))"
      using keep by (simp add: wf_np_zeros)
  qed (rule epoch)
  with st' keep show ?thesis by simp
qed


lemma rescale_to_Inr:
  assumes "rescale_to L r Ml = Inr Ml'"
  shows "\<exists>ev. eigs L (fst Ml) = Inr ev \<and> cmod ev \<noteq> 0
           \<and> Ml' = (smul (r / cmod ev) (fst Ml), snd Ml @ [fst Ml])"
  using assms unfolding rescale_to_def Let_def bindE_Inr_iff
  by (auto split: if_splits)

lemma hebb_vector_step_plain:
  assumes "hebb_vector_step L st sc x Ml t = Inr Ml'" and "eta st = 0" and "wf_mat (fst Ml)"
    and "sc \<noteq> 2"
  shows "fst Ml' = fst Ml"
proof -
  from assms(1,4) obtain xa xb where
    sub: "msub (fst Ml) (smul (eta st) (outer xa xb)) = Inr (fst Ml')"
    unfolding hebb_vector_step_def bindE_Inr_iff by auto
  from sub assms(2) show ?thesis
    using msub_smul_zero[OF _ assms(3) wf_outer] by simp
qed

lemma hebb_vector_step_rescaled:
  assumes "hebb_vector_step L st 2 x Ml t = Inr Ml'" and "eta st = 0" and "wf_mat (fst Ml)"
    and "eigs L (fst Ml) = Inr ev" and "cmod ev = rho st"
  shows "fst Ml' = fst Ml"
proof -
  from assms(1) obtain xa xb M' where
    sub: "msub (fst Ml) (smul (eta st) (outer xa xb)) = Inr M'"
    and res: "rescale_to L (rho st) (M', snd Ml) = Inr Ml'"
    unfolding hebb_vector_step_def bindE_Inr_iff by auto
  from sub assms(2) have M': "M' = fst Ml"
    using msub_smul_zero[OF _ assms(3) wf_outer] by simp
  from rescale_to_Inr[OF res] M' assms(4) have nz: "cmod ev \<noteq> 0"
    and Ml': "Ml' = (smul (rho st / cmod ev) (fst Ml), snd Ml @ [fst Ml])"
    by auto
  from nz assms(5) have "rho st / cmod ev = 1" by simp
  with Ml' show ?thesis
    by (simp add: smul_one)
qed

lemma hebb_learn_vector_zero_rate:
  assumes run: "hebb_learn_vector L st data t t_listen reset_M scale_M = Inr (st', lg)"
    and "eta st = 0" and "wf_mat (M_orig st)" and "wf_mat (M st)"
    and M0: "M0 = (if reset_M then smul (rho st) (M_orig st) else M st)"
  shows "(scale_M \<noteq> 1 \<and> scale_M \<noteq> 2 \<longrightarrow> M st' = M0)
       \<and> (scale_M = 1 \<longrightarrow>
            (\<exists>ev. eigs L M0 = Inr ev \<and> cmod ev \<noteq> 0 \<and> M st' = smul (rho st / cmod ev) M0))
       \<and> (scale_M = 2 \<longrightarrow>
            (\<forall>ev. eigs L M0 = Inr ev \<and> cmod ev = rho st \<and> rho st \<noteq> 0 \<longrightarrow> M st' = M0))"
proof -
  define st0 where "st0 = (if reset_M then set_rho (rho st) st else st)"
  have keep: "M st0 = M0" "eta st0 = eta st" "rho st0 = rho st"
    using M0 by (simp_all add: st0_def set_rho_def)
  have wf: "wf_mat M0"
    using assms(3,4) M0 by (simp add: wf_smul)
  from run obtain f x Ml where
    loop: "foldE (\<lambda>Ml e. foldE (hebb_vector_step L (st0\<lparr>u := Some f\<rparr>) scale_M x)
                                [t_listen..<nrows data - 1] Ml)
               [0..<epochs (st0\<lparr>u := Some f\<rparr>)] (M (st0\<lparr>u := Some f\<rparr>), []) = Inr Ml"
    and fin: "(if scale_M = 1
               then bindE (rescale_to L (rho (st0\<lparr>u := Some f\<rparr>)) Ml)
                      (\<lambda>Ml'. Inr (st0\<lparr>u := Some f, M := fst Ml'\<rparr>, snd Ml'))
               else Inr (st0\<lparr>u := Some f, M := fst Ml\<rparr>, snd Ml)) = Inr (st', lg)"
    unfolding hebb_learn_vector_def Let_def bindE_Inr_iff st0_def[symmetric] by auto
  let ?P = "\<lambda>Ml. fst Ml = M0"
  have kept: "?P Ml"
    if step: "\<And>Ml1 Ml2 k. ?P Ml1 \<Longrightarrow>
                hebb_vector_step L (st0\<lparr>u := Some f\<rparr>) scale_M x Ml1 k = Inr Ml2 \<Longrightarrow> ?P Ml2"
  proof -
    have epoch: "?P Ml2"
      if "?P Ml1" "foldE (hebb_vector_step L (st0\<lparr>u := Some f\<rparr>) scale_M x)
                     [t_listen..<nrows data - 1] Ml1 = Inr Ml2" for Ml1 Ml2
      by (rule foldE_invariant[where P = ?P, OF that(2) that(1)]) (rule step)
    show ?thesis
    proof (rule foldE_invariant[where P = ?P, OF loop])
      show "?P (M (st0\<lparr>u := Some f\<rparr>), [])" using keep by simp
    qed (rule epoch)
  qed
  have plain: "?P Ml" if "scale_M \<noteq> 2"
  proof (rule kept)
    fix Ml1 Ml2 k
    assume P: "?P Ml1"
      and s: "hebb_vector_step L (st0\<lparr>u := Some f\<rparr>) scale_M x Ml1 k = Inr Ml2"
    have "fst Ml2 = fst Ml1"
      by (rule hebb_vector_step_plain[OF s]) (use keep assms(2) P wf that in simp_all)
    with P show "?P Ml2" by simp
  qed
  have c0: "M st' = M0" if "scale_M \<noteq> 1 \<and> scale_M \<noteq> 2"
    using fin that plain by auto
  have c1: "\<exists>ev. eigs L M0 = Inr ev \<and> cmod ev \<noteq> 0 \<and> M st' = smul (rho st / cmod ev) M0"
    if "scale_M = 1"
  proof -
    from that fin obtain Ml' where
      r: "rescale_to L (rho (st0\<lparr>u := Some f\<rparr>)) Ml = Inr Ml'"
      and st': "st' = st0\<lparr>u := Some f, M := fst Ml'\<rparr>"
      by (auto simp: bindE_Inr_iff)
    from that have P: "?P Ml" using plain by simp
    from rescale_to_Inr[OF r] P keep st' show ?thesis
      by auto
  qed
  have c2: "M st' = M0" if sc: "scale_M = 2" and ev: "eigs L M0 = Inr ev" "cmod ev = rho st" for ev
  proof -
    have "?P Ml"
    proof (rule kept)
      fix Ml1 Ml2 k
      assume P: "?P Ml1"
        and s: "hebb_vector_step L (st0\<lparr>u := Some f\<rparr>) scale_M x Ml1 k = Inr Ml2"
      have "fst Ml2 = fst Ml1"
        by (rule hebb_vector_step_rescaled[OF s[unfolded sc], where ev = ev])
          (use keep assms(2) P wf ev in simp_all)
      with P show "?P Ml2" by simp
    qed
    with fin sc show ?thesis by auto
  qed
  from c0 c1 c2 show ?thesis by blast
qed

text \<open>
  C7, as the code has it. Let \<open>eta = 0\<close>; the matrices \<open>M\<close> and \<open>M_orig\<close> are arrays (their rows
  have the length their shape gives). For any number of epochs and any data:
  \<^item> a call of \<^verbatim>\<open>hebb_learn\<close> that returns has stored \<open>rho * M_orig\<close> in \<open>M\<close>, whatever \<open>M\<close> was:
    it leaves \<open>M\<close> unchanged exactly from the states with \<open>M = rho * M_orig\<close>;
  \<^item> a call of \<^verbatim>\<open>hebb_learn_vector\<close> starts from \<open>M0\<close>, which is \<open>rho * M_orig\<close> with
    \<^verbatim>\<open>reset_M\<close> and \<open>M\<close> without. With \<^verbatim>\<open>scale_M\<close> other than \<open>1\<close> and \<open>2\<close> it stores \<open>M0\<close>, so
    without the reset it leaves \<open>M\<close> unchanged from every state. With \<^verbatim>\<open>scale_M = 1\<close> it stores
    \<open>(rho / |ev|) * M0\<close> for the nonzero value \<open>ev\<close> that the eigensolver returns for \<open>M0\<close>.
    With \<^verbatim>\<open>scale_M = 2\<close> it stores \<open>M0\<close> if \<open>rho\<close> is not zero and the eigensolver returns for
    \<open>M0\<close> a value of modulus \<open>rho\<close>.
\<close>

theorem anti_hebbian_zero_rate:
  assumes "eta st = 0" and "wf_mat (M_orig st)" and "wf_mat (M st)"
  shows "(hebb_learn L st data t t_listen rescale = Inr st1
            \<longrightarrow> M st1 = smul (rho st) (M_orig st))
       \<and> (hebb_learn_vector L st data t t_listen reset_M scale_M = Inr (st2, lg) \<longrightarrow>
            (let M0 = (if reset_M then smul (rho st) (M_orig st) else M st) in
               (scale_M \<noteq> 1 \<and> scale_M \<noteq> 2 \<longrightarrow> M st2 = M0)
             \<and> (scale_M = 1 \<longrightarrow>
                  (\<exists>ev. eigs L M0 = Inr ev \<and> cmod ev \<noteq> 0
                      \<and> M st2 = smul (rho st / cmod ev) M0))
             \<and> (scale_M = 2 \<longrightarrow>
                  (\<forall>ev. eigs L M0 = Inr ev \<and> cmod ev = rho st \<and> rho st \<noteq> 0
                      \<longrightarrow> M st2 = M0))))"
proof (intro conjI impI)
  assume "hebb_learn L st data t t_listen rescale = Inr st1"
  from hebb_learn_zero_rate[OF this assms(1,2)] show "M st1 = smul (rho st) (M_orig st)" .
next
  assume "hebb_learn_vector L st data t t_listen reset_M scale_M = Inr (st2, lg)"
  from hebb_learn_vector_zero_rate[OF this assms refl]
  show "let M0 = (if reset_M then smul (rho st) (M_orig st) else M st) in
               (scale_M \<noteq> 1 \<and> scale_M \<noteq> 2 \<longrightarrow> M st2 = M0)
             \<and> (scale_M = 1 \<longrightarrow>
                  (\<exists>ev. eigs L M0 = Inr ev \<and> cmod ev \<noteq> 0
                      \<and> M st2 = smul (rho st / cmod ev) M0))
             \<and> (scale_M = 2 \<longrightarrow>
                  (\<forall>ev. eigs L M0 = Inr ev \<and> cmod ev = rho st \<and> rho st \<noteq> 0
                      \<longrightarrow> M st2 = M0))"
    unfolding Let_def .
qed

lemma hebb_learn_eq:
  assumes "st0 = (if rescale then set_rho (rho st) st else st)"
    and "spline L st0 data t = Inr f"
    and "odeint L (f_LR (st0\<lparr>u := Some f\<rparr>)) (replicate (N st0) 0) t = Inr x"
    and "foldE (\<lambda>XM e. foldE (hebb_step (st0\<lparr>u := Some f\<rparr>) x) [t_listen..<nrows data - 1] XM)
           [0..<epochs st0] (np_zeros (N st0) (N st0), M_orig st0) = Inr XM"
  shows "hebb_learn L st data t t_listen rescale
           = Inr (st0\<lparr>u := Some f, M := smul (rho st0) (snd XM)\<rparr>)"
  using assms unfolding hebb_learn_def Let_def by simp

lemma hebb_learn_vector_eq:
  assumes "st0 = (if reset_M then set_rho (rho st) st else st)"
    and "spline L st0 data t = Inr f"
    and "odeint L (f_LR (st0\<lparr>u := Some f\<rparr>)) (replicate (N st0) 0) t = Inr x"
    and "foldE (\<lambda>Ml e. foldE (hebb_vector_step L (st0\<lparr>u := Some f\<rparr>) scale_M x)
                            [t_listen..<nrows data - 1] Ml)
           [0..<epochs st0] (M st0, []) = Inr Ml"
    and "(if scale_M = 1 then rescale_to L (rho st0) Ml else Inr Ml) = Inr Ml'"
  shows "hebb_learn_vector L st data t t_listen reset_M scale_M
           = Inr (st0\<lparr>u := Some f, M := fst Ml'\<rparr>, snd Ml')"
proof (cases "scale_M = 1")
  case True
  with assms(5) have "rescale_to L (rho st0) Ml = Inr Ml'" by simp
  with True assms(1-4) show ?thesis
    unfolding hebb_learn_vector_def Let_def by simp
next
  case False
  with assms(5) have "Ml' = Ml" by simp
  with False assms(1-4) show ?thesis
    unfolding hebb_learn_vector_def Let_def by simp
qed



lemma eigs_half_diag:
  "eigs rest_lib (Mat 3 3 [[1, 0, 0], [0, 1 / 2, 0], [0, 0, 1 / 2]]) = Inr 1"
  by (simp add: rest_lib_def eigs_diag_def is_diag_def diagonal_def np_diag_def
      numeral_3_eq_3)

lemma quiet_reset: "set_rho (rho quiet_esn) quiet_esn = quiet_esn"
  by (simp add: set_rho_def quiet_esn_def diag_esn_def smul_def)

lemma drift_spline: "spline drift_lib quiet_esn ones_data grid4 = Inr (\<lambda>x. [1])"
  by (simp add: spline_def drift_lib_def rest_lib_def splprep_const_def quiet_esn_def
      diag_esn_def ones_data_def grid4_def col_def eval_nat_numeral)

lemma drift_ode:
  "odeint drift_lib (f_LR driven_esn) (replicate (N quiet_esn) 0) grid4 = Inr drift_traj"
  by (simp add: drift_lib_def)

lemma drift_range: "[1..<nrows ones_data - 1] = [1, 2]"
  by (simp add: ones_data_def eval_nat_numeral)

lemma quiet_epochs: "[0..<epochs quiet_esn] = [0]"
  by (simp add: quiet_esn_def diag_esn_def)

lemma drift_hebb_step_1:
  "hebb_step driven_esn drift_traj (Mat 3 3 [[0, 0, 0], [0, 0, 0], [0, 0, 0]], half_diag) 1
     = Inr (Mat 3 3 [[0, 0, 0], [1 / 4, 0, 0], [0, 0, 0]], half_diag)"
  by (simp add: hebb_step_def quiet_esn_def diag_esn_def drift_traj_def row_at_def set_row_def
      msub_def smul_def eval_nat_numeral)

lemma drift_hebb_step_2:
  "hebb_step driven_esn drift_traj (Mat 3 3 [[0, 0, 0], [1 / 4, 0, 0], [0, 0, 0]], half_diag) 2
     = Inr (Mat 3 3 [[0, 0, 0], [0, 0, 0], [0, 1 / 4, 0]], half_diag)"
  by (simp add: hebb_step_def quiet_esn_def diag_esn_def drift_traj_def row_at_def set_row_def
      msub_def smul_def eval_nat_numeral)

lemma drift_hebb_learn:
  "hebb_learn drift_lib quiet_esn ones_data grid4 1 True = Inr driven_esn"
proof -
  have s0: "(np_zeros (N quiet_esn) (N quiet_esn), M_orig quiet_esn)
              = (Mat 3 3 [[0, 0, 0], [0, 0, 0], [0, 0, 0]], half_diag)"
    by (simp add: quiet_esn_def diag_esn_def np_zeros_def eval_nat_numeral)
  have loop: "foldE (\<lambda>XM e. foldE (hebb_step driven_esn drift_traj)
                               [1..<nrows ones_data - 1] XM)
                [0..<epochs quiet_esn] (np_zeros (N quiet_esn) (N quiet_esn), M_orig quiet_esn)
              = Inr (Mat 3 3 [[0, 0, 0], [0, 0, 0], [0, 1 / 4, 0]], half_diag)"
    by (simp only: s0 quiet_epochs drift_range foldE_once foldE.simps bindE.simps
        drift_hebb_step_1 drift_hebb_step_2)
  have "hebb_learn drift_lib quiet_esn ones_data grid4 1 True
          = Inr (driven_esn
                   \<lparr>M := smul (rho quiet_esn)
                           (snd (Mat 3 3 [[0, 0, 0], [0, 0, 0], [0, 1 / 4, 0]], half_diag))\<rparr>)"
    by (rule hebb_learn_eq[OF _ drift_spline drift_ode loop]) (simp add: quiet_reset)
  then show ?thesis
    by (simp add: smul_def quiet_esn_def diag_esn_def)
qed

lemma drift_vector_step:
  assumes "k \<in> {1, 2}" "sc \<noteq> 2"
  shows "hebb_vector_step drift_lib driven_esn sc drift_traj (half_diag, lg) k
           = Inr (half_diag, lg)"
  using assms
  by (auto simp: hebb_vector_step_def quiet_esn_def diag_esn_def drift_traj_def row_at_def
      outer_def msub_def smul_def)

lemma drift_rescale:
  "rescale_to drift_lib (rho quiet_esn) (half_diag, lg) = Inr (half_diag, lg @ [half_diag])"
proof -
  have "eigs drift_lib half_diag = Inr 1"
    using eigs_half_diag by (simp add: drift_lib_def)
  then show ?thesis
    by (simp add: rescale_to_def) (simp add: quiet_esn_def diag_esn_def smul_def)
qed

lemma drift_vector_step_2:
  assumes "k \<in> {1, 2}"
  shows "hebb_vector_step drift_lib driven_esn 2 drift_traj (half_diag, lg) k
           = Inr (half_diag, lg @ [half_diag])"
proof -
  have "msub half_diag (smul (eta driven_esn) (outer (drift_traj ! (k + 1)) (drift_traj ! k)))
          = Inr half_diag"
    using assms
    by (auto simp: quiet_esn_def diag_esn_def drift_traj_def outer_def msub_def smul_def)
  moreover have "row_at drift_traj (k + 1) = Inr (drift_traj ! (k + 1))"
    "row_at drift_traj k = Inr (drift_traj ! k)"
    using assms by (auto simp: row_at_def drift_traj_def)
  moreover have "rescale_to drift_lib (rho driven_esn) (half_diag, lg)
                   = Inr (half_diag, lg @ [half_diag])"
    using drift_rescale[of lg] by simp
  ultimately show ?thesis
    by (simp add: hebb_vector_step_def)
qed

lemma drift_hebb_learn_vector:
  assumes "sc \<noteq> 2"
  shows "hebb_learn_vector drift_lib quiet_esn ones_data grid4 1 reset_M sc
           = Inr (driven_esn, if sc = 1 then [half_diag] else [])"
proof -
  have s0: "(M quiet_esn, []) = (half_diag, [])"
    by (simp add: quiet_esn_def diag_esn_def)
  have inner: "foldE (hebb_vector_step drift_lib driven_esn sc drift_traj)
                 [1..<nrows ones_data - 1] (half_diag, []) = Inr (half_diag, [])"
    by (rule foldE_fixed, rule drift_vector_step) (auto simp: ones_data_def assms)
  have loop: "foldE (\<lambda>Ml e. foldE (hebb_vector_step drift_lib driven_esn sc drift_traj)
                               [1..<nrows ones_data - 1] Ml)
                [0..<epochs quiet_esn] (M quiet_esn, []) = Inr (half_diag, [])"
    unfolding s0 by (rule foldE_fixed) (rule inner)
  have fin: "(if sc = 1 then rescale_to drift_lib (rho quiet_esn) (half_diag, [])
              else Inr (half_diag, []))
             = Inr (half_diag, if sc = 1 then [half_diag] else [])"
    by (simp add: drift_rescale)
  have "hebb_learn_vector drift_lib quiet_esn ones_data grid4 1 reset_M sc
          = Inr (driven_esn\<lparr>M := fst (half_diag, if sc = 1 then [half_diag] else [])\<rparr>,
                 snd (half_diag, if sc = 1 then [half_diag] else ([] :: mat list)))"
    by (rule hebb_learn_vector_eq[OF _ drift_spline drift_ode loop fin])
      (simp add: quiet_reset)
  then show ?thesis
    by (simp add: quiet_esn_def diag_esn_def)
qed

lemma drift_hebb_learn_vector_2:
  "hebb_learn_vector drift_lib quiet_esn ones_data grid4 1 False 2
     = Inr (driven_esn, [half_diag, half_diag])"
proof -
  have s0: "(M quiet_esn, []) = (half_diag, [])"
    by (simp add: quiet_esn_def diag_esn_def)
  have s1: "hebb_vector_step drift_lib driven_esn 2 drift_traj (half_diag, []) 1
              = Inr (half_diag, [half_diag])"
    using drift_vector_step_2[of 1 "[]"] by simp
  have s2: "hebb_vector_step drift_lib driven_esn 2 drift_traj (half_diag, [half_diag]) 2
              = Inr (half_diag, [half_diag, half_diag])"
    using drift_vector_step_2[of 2 "[half_diag]"] by simp
  have loop: "foldE (\<lambda>Ml e. foldE (hebb_vector_step drift_lib driven_esn 2 drift_traj)
                               [1..<nrows ones_data - 1] Ml)
                [0..<epochs quiet_esn] (M quiet_esn, [])
              = Inr (half_diag, [half_diag, half_diag])"
    by (simp only: s0 quiet_epochs drift_range foldE_once foldE.simps bindE.simps s1 s2)
  have fin: "(if (2 :: int) = 1
              then rescale_to drift_lib (rho quiet_esn) (half_diag, [half_diag, half_diag])
              else Inr (half_diag, [half_diag, half_diag]))
             = Inr (half_diag, [half_diag, half_diag])"
    by simp
  have "hebb_learn_vector drift_lib quiet_esn ones_data grid4 1 False 2
          = Inr (driven_esn\<lparr>M := fst (half_diag, [half_diag, half_diag])\<rparr>,
                 snd (half_diag, [half_diag, half_diag]))"
    by (rule hebb_learn_vector_eq[OF _ drift_spline drift_ode loop fin]) simp
  then show ?thesis
    by (simp add: quiet_esn_def diag_esn_def)
qed

theorem anti_hebbian_zero_rate_witness:
  "eta quiet_esn = 0 \<and> wf_mat (M_orig quiet_esn) \<and> wf_mat (M quiet_esn)
   \<and> hebb_learn drift_lib quiet_esn ones_data grid4 1 True = Inr driven_esn
   \<and> M driven_esn = smul (rho quiet_esn) (M_orig quiet_esn)
   \<and> hebb_learn_vector drift_lib quiet_esn ones_data grid4 1 False 0 = Inr (driven_esn, [])
   \<and> M driven_esn = M quiet_esn
   \<and> hebb_learn_vector drift_lib quiet_esn ones_data grid4 1 True 1
       = Inr (driven_esn, [half_diag])
   \<and> (\<exists>ev. eigs drift_lib (smul (rho quiet_esn) (M_orig quiet_esn)) = Inr ev \<and> cmod ev \<noteq> 0
          \<and> M driven_esn
              = smul (rho quiet_esn / cmod ev) (smul (rho quiet_esn) (M_orig quiet_esn)))
   \<and> hebb_learn_vector drift_lib quiet_esn ones_data grid4 1 False 2
       = Inr (driven_esn, [half_diag, half_diag])
   \<and> eigs drift_lib (M quiet_esn) = Inr 1 \<and> cmod 1 = rho quiet_esn \<and> rho quiet_esn \<noteq> 0"
proof -
  have h1: "eta quiet_esn = 0"
    by (simp add: quiet_esn_def)
  have h2: "wf_mat (M_orig quiet_esn)"
    by (simp add: quiet_esn_def diag_esn_def wf_mat_def)
  have h3: "wf_mat (M quiet_esn)"
    by (simp add: quiet_esn_def diag_esn_def wf_mat_def)
  note T = anti_hebbian_zero_rate[OF h1 h2 h3]
  have run0: "hebb_learn_vector drift_lib quiet_esn ones_data grid4 1 False 0
                = Inr (driven_esn, [])"
    using drift_hebb_learn_vector[of 0 False] by simp
  have run1: "hebb_learn_vector drift_lib quiet_esn ones_data grid4 1 True 1
                = Inr (driven_esn, [half_diag])"
    using drift_hebb_learn_vector[of 1 True] by simp
  have ev: "eigs drift_lib (M quiet_esn) = Inr 1"
    using eigs_half_diag by (simp add: drift_lib_def quiet_esn_def diag_esn_def)
  have md: "cmod 1 = rho quiet_esn"
    by (simp add: quiet_esn_def diag_esn_def)
  have nz: "rho quiet_esn \<noteq> 0"
    by (simp add: quiet_esn_def diag_esn_def)
  from T[THEN conjunct1, THEN mp, OF drift_hebb_learn]
  have c1: "M driven_esn = smul (rho quiet_esn) (M_orig quiet_esn)" .
  from T[THEN conjunct2, THEN mp, OF drift_hebb_learn_vector_2] ev md nz
  have c2: "M driven_esn = M quiet_esn"
    by (simp add: Let_def)
  from T[THEN conjunct2, THEN mp, OF run0]
  have "M driven_esn = M quiet_esn"
    by (simp add: Let_def)
  from T[THEN conjunct2, THEN mp, OF run1]
  have c3: "\<exists>ev. eigs drift_lib (smul (rho quiet_esn) (M_orig quiet_esn)) = Inr ev
          \<and> cmod ev \<noteq> 0
          \<and> M driven_esn
              = smul (rho quiet_esn / cmod ev) (smul (rho quiet_esn) (M_orig quiet_esn))"
    by (simp add: Let_def)
  show ?thesis
    by (intro conjI h1 h2 h3 drift_hebb_learn c1 run0 c2 run1 c3 drift_hebb_learn_vector_2
        ev md nz)
qed

lemma folded_hebb_learn:
  "hebb_learn rest_lib ip_folded zero_data grid4 0 True
     = Inr (ip_folded\<lparr>M := Mat 3 3 [[2, 0, 0], [0, 1, 0], [0, 0, 1]]\<rparr>)"
proof -
  define st0 where "st0 = ip_folded\<lparr>M := Mat 3 3 [[2, 0, 0], [0, 1, 0], [0, 0, 1]]\<rparr>"
  have st0: "st0 = (if True then set_rho (rho ip_folded) ip_folded else ip_folded)"
    by (simp add: st0_def set_rho_def ip_folded_def ip_esn_def smul_def)
  have sp: "spline rest_lib st0 zero_data grid4 = Inr (\<lambda>x. [0])"
    by (simp add: spline_def rest_lib_def splprep_const_def st0_def ip_folded_def ip_esn_def
        zero_data_def grid4_def col_def eval_nat_numeral)
  have ode: "odeint rest_lib (f_LR (st0\<lparr>u := Some (\<lambda>x. [0])\<rparr>)) (replicate (N st0) 0) grid4
               = Inr [[0, 0, 0], [0, 0, 0], [0, 0, 0], [0, 0, 0]]"
    by (simp add: rest_lib_def odeint_rest_def f_LR_def drive_def matvec_def vadd_def dot_def
        st0_def ip_folded_def ip_esn_def grid4_def numeral_3_eq_3)
  have loop: "foldE (\<lambda>XM e. foldE (hebb_step (st0\<lparr>u := Some (\<lambda>x. [0])\<rparr>)
                                      [[0, 0, 0], [0, 0, 0], [0, 0, 0], [0, 0, 0]])
                               [0..<nrows zero_data - 1] XM)
                [0..<epochs st0] (np_zeros (N st0) (N st0), M_orig st0)
              = Inr (np_zeros (N st0) (N st0), M_orig st0)"
    by (simp add: st0_def ip_folded_def ip_esn_def)
  have "hebb_learn rest_lib ip_folded zero_data grid4 0 True
          = Inr (st0\<lparr>u := Some (\<lambda>x. [0]),
                     M := smul (rho st0) (snd (np_zeros (N st0) (N st0), M_orig st0))\<rparr>)"
    by (rule hebb_learn_eq[OF st0 sp ode loop])
  then show ?thesis
    by (simp add: st0_def ip_folded_def ip_esn_def smul_def)
qed

lemma neg_vector_step:
  assumes "k \<in> {1, 2}"
  shows "hebb_vector_step rest_lib (neg_esn\<lparr>u := Some (\<lambda>x. [0])\<rparr>) 1
           [[0, 0, 0], [0, 0, 0], [0, 0, 0], [0, 0, 0]]
           (Mat 3 3 [[- 1, 0, 0], [0, - 1 / 2, 0], [0, 0, - 1 / 2]], []) k
         = Inr (Mat 3 3 [[- 1, 0, 0], [0, - 1 / 2, 0], [0, 0, - 1 / 2]], [])"
  using assms
  by (auto simp: hebb_vector_step_def neg_esn_def set_rho_def quiet_esn_def diag_esn_def
      row_at_def outer_def msub_def smul_def)

lemma neg_rescale:
  "rescale_to rest_lib (rho neg_esn) (Mat 3 3 [[- 1, 0, 0], [0, - 1 / 2, 0], [0, 0, - 1 / 2]], [])
     = Inr (Mat 3 3 [[1, 0, 0], [0, 1 / 2, 0], [0, 0, 1 / 2]],
            [Mat 3 3 [[- 1, 0, 0], [0, - 1 / 2, 0], [0, 0, - 1 / 2]]])"
proof -
  have "eigs rest_lib (Mat 3 3 [[- 1, 0, 0], [0, - 1 / 2, 0], [0, 0, - 1 / 2]]) = Inr (- 1)"
    by (simp add: rest_lib_def eigs_diag_def is_diag_def diagonal_def np_diag_def
        numeral_3_eq_3)
  then show ?thesis
    by (simp add: rescale_to_def neg_esn_def set_rho_def smul_def)
qed

lemma neg_hebb_learn_vector:
  "hebb_learn_vector rest_lib neg_esn zero_data grid4 1 True 1
     = Inr (neg_esn\<lparr>u := Some (\<lambda>x. [0]),
                    M := Mat 3 3 [[1, 0, 0], [0, 1 / 2, 0], [0, 0, 1 / 2]]\<rparr>,
            [Mat 3 3 [[- 1, 0, 0], [0, - 1 / 2, 0], [0, 0, - 1 / 2]]])"
proof -
  have st0: "neg_esn = (if True then set_rho (rho neg_esn) neg_esn else neg_esn)"
    by (simp add: neg_esn_def set_rho_def)
  have sp: "spline rest_lib neg_esn zero_data grid4 = Inr (\<lambda>x. [0])"
    by (simp add: spline_def rest_lib_def splprep_const_def neg_esn_def set_rho_def
        quiet_esn_def diag_esn_def zero_data_def grid4_def col_def eval_nat_numeral)
  have ode: "odeint rest_lib (f_LR (neg_esn\<lparr>u := Some (\<lambda>x. [0])\<rparr>)) (replicate (N neg_esn) 0)
               grid4 = Inr [[0, 0, 0], [0, 0, 0], [0, 0, 0], [0, 0, 0]]"
    by (simp add: rest_lib_def odeint_rest_def f_LR_def drive_def matvec_def vadd_def dot_def
        neg_esn_def set_rho_def quiet_esn_def diag_esn_def smul_def grid4_def numeral_3_eq_3)
  have s0: "(M neg_esn, []) = (Mat 3 3 [[- 1, 0, 0], [0, - 1 / 2, 0], [0, 0, - 1 / 2]], [])"
    by (simp add: neg_esn_def set_rho_def quiet_esn_def diag_esn_def smul_def)
  have inner: "foldE (hebb_vector_step rest_lib (neg_esn\<lparr>u := Some (\<lambda>x. [0])\<rparr>) 1
                        [[0, 0, 0], [0, 0, 0], [0, 0, 0], [0, 0, 0]])
                 [1..<nrows zero_data - 1]
                 (Mat 3 3 [[- 1, 0, 0], [0, - 1 / 2, 0], [0, 0, - 1 / 2]], [])
               = Inr (Mat 3 3 [[- 1, 0, 0], [0, - 1 / 2, 0], [0, 0, - 1 / 2]], [])"
    by (rule foldE_fixed, rule neg_vector_step) (auto simp: zero_data_def)
  have loop: "foldE (\<lambda>Ml e. foldE (hebb_vector_step rest_lib (neg_esn\<lparr>u := Some (\<lambda>x. [0])\<rparr>) 1
                                      [[0, 0, 0], [0, 0, 0], [0, 0, 0], [0, 0, 0]])
                               [1..<nrows zero_data - 1] Ml)
                [0..<epochs neg_esn] (M neg_esn, [])
              = Inr (Mat 3 3 [[- 1, 0, 0], [0, - 1 / 2, 0], [0, 0, - 1 / 2]], [])"
    unfolding s0 by (rule foldE_fixed) (rule inner)
  have fin: "(if (1 :: int) = 1
              then rescale_to rest_lib (rho neg_esn)
                     (Mat 3 3 [[- 1, 0, 0], [0, - 1 / 2, 0], [0, 0, - 1 / 2]], [])
              else Inr (Mat 3 3 [[- 1, 0, 0], [0, - 1 / 2, 0], [0, 0, - 1 / 2]], []))
             = Inr (Mat 3 3 [[1, 0, 0], [0, 1 / 2, 0], [0, 0, 1 / 2]],
                    [Mat 3 3 [[- 1, 0, 0], [0, - 1 / 2, 0], [0, 0, - 1 / 2]]])"
    using neg_rescale by simp
  have "hebb_learn_vector rest_lib neg_esn zero_data grid4 1 True 1
          = Inr (neg_esn\<lparr>u := Some (\<lambda>x. [0]),
                   M := fst (Mat 3 3 [[1, 0, 0], [0, 1 / 2, 0], [0, 0, 1 / 2]],
                             [Mat 3 3 [[- 1, 0, 0], [0, - 1 / 2, 0], [0, 0, - 1 / 2]]])\<rparr>,
                 snd (Mat 3 3 [[1, 0, 0], [0, 1 / 2, 0], [0, 0, 1 / 2]],
                      [Mat 3 3 [[- 1, 0, 0], [0, - 1 / 2, 0], [0, 0, - 1 / 2]]]))"
    by (rule hebb_learn_vector_eq[OF st0 sp ode loop fin])
  then show ?thesis
    by simp
qed

text \<open>
  C7 as the specification states it leaves \<open>M\<close> unchanged from every model state. Two runs with
  \<open>eta = 0\<close> change it. The model \<open>ip_folded\<close> is the object that \<^verbatim>\<open>IP_train\<close> leaves of \<open>ip_esn\<close>,
  with \<open>M = diag(4, 2, 2)\<close>; \<^verbatim>\<open>hebb_learn\<close> stores \<open>rho * M_orig = diag(2, 1, 1)\<close>. The model
  \<open>neg_esn\<close> has \<open>rho = -1\<close> and \<open>M = rho * M_orig = diag(-1, -1/2, -1/2)\<close>;
  \<^verbatim>\<open>hebb_learn_vector\<close> with \<^verbatim>\<open>scale_M = 1\<close> multiplies it by \<open>rho / 1 = -1\<close>.
\<close>

theorem anti_hebbian_zero_rate_counterexample:
  "eta ip_folded = 0
   \<and> IP_train rest_lib ip_esn zero_data grid4 1 True
       = Inr (ip_esn\<lparr>u := Some (\<lambda>x. [0])\<rparr>,
              fin_mat (Mat 3 3 [[4, 0, 0], [0, 2, 0], [0, 0, 2]]),
              fin_mat (Mat 3 1 [[1 / 2], [- 1 / 2], [1 / 4]]))
   \<and> ip_folded = ip_esn\<lparr>u := Some (\<lambda>x. [0]), M := Mat 3 3 [[4, 0, 0], [0, 2, 0], [0, 0, 2]],
                         W_in := Mat 3 1 [[1 / 2], [- 1 / 2], [1 / 4]]\<rparr>
   \<and> hebb_learn rest_lib ip_folded zero_data grid4 0 True
       = Inr (ip_folded\<lparr>M := Mat 3 3 [[2, 0, 0], [0, 1, 0], [0, 0, 1]]\<rparr>)
   \<and> M (ip_folded\<lparr>M := Mat 3 3 [[2, 0, 0], [0, 1, 0], [0, 0, 1]]\<rparr>) \<noteq> M ip_folded
   \<and> eta neg_esn = 0
   \<and> M neg_esn = smul (rho neg_esn) (M_orig neg_esn)
   \<and> hebb_learn_vector rest_lib neg_esn zero_data grid4 1 True 1
       = Inr (neg_esn\<lparr>u := Some (\<lambda>x. [0]),
                      M := Mat 3 3 [[1, 0, 0], [0, 1 / 2, 0], [0, 0, 1 / 2]]\<rparr>,
              [Mat 3 3 [[- 1, 0, 0], [0, - 1 / 2, 0], [0, 0, - 1 / 2]]])
   \<and> M (neg_esn\<lparr>u := Some (\<lambda>x. [0]),
                 M := Mat 3 3 [[1, 0, 0], [0, 1 / 2, 0], [0, 0, 1 / 2]]\<rparr>) \<noteq> M neg_esn"
proof -
  have e1: "eta ip_folded = 0"
    by (simp add: ip_folded_def ip_esn_def)
  have f1: "ip_folded = ip_esn\<lparr>u := Some (\<lambda>x. [0]), M := Mat 3 3 [[4, 0, 0], [0, 2, 0], [0, 0, 2]],
                         W_in := Mat 3 1 [[1 / 2], [- 1 / 2], [1 / 4]]\<rparr>"
    by (simp add: ip_folded_def ip_esn_def)
  have n1: "M (ip_folded\<lparr>M := Mat 3 3 [[2, 0, 0], [0, 1, 0], [0, 0, 1]]\<rparr>) \<noteq> M ip_folded"
    by (simp add: ip_folded_def)
  have e2: "eta neg_esn = 0"
    by (simp add: neg_esn_def set_rho_def quiet_esn_def)
  have m2: "M neg_esn = smul (rho neg_esn) (M_orig neg_esn)"
    by (simp add: neg_esn_def set_rho_def)
  have n2: "M (neg_esn\<lparr>u := Some (\<lambda>x. [0]),
                 M := Mat 3 3 [[1, 0, 0], [0, 1 / 2, 0], [0, 0, 1 / 2]]\<rparr>) \<noteq> M neg_esn"
    by (simp add: neg_esn_def set_rho_def quiet_esn_def diag_esn_def smul_def)
  show ?thesis
    by (intro conjI e1 ip_run f1 folded_hebb_learn n1 e2 m2 neg_hebb_learn_vector n2)
qed

section \<open>The renormalization modes of the sparse anti-Hebbian adaptation\<close>

lemma foldE_count:
  assumes "foldE f ixs s = Inr s'" and "P s"
    and "\<And>s i s'. P s \<Longrightarrow> f s i = Inr s' \<Longrightarrow> P s' \<and> m s' = m s + (c :: nat)"
  shows "P s' \<and> m s' = m s + c * length ixs"
  using assms(1,2)
proof (induction ixs arbitrary: s)
  case Nil
  then show ?case by simp
next
  case (Cons i ixs)
  from Cons.prems(1) obtain s1 where s1: "f s i = Inr s1" "foldE f ixs s1 = Inr s'"
    by (auto simp: bindE_Inr_iff)
  from assms(3)[OF Cons.prems(2) s1(1)] have "P s1" "m s1 = m s + c" by simp_all
  with Cons.IH[OF s1(2)] show ?case by simp
qed

lemma hebb_vector_step_Inr:
  assumes "hebb_vector_step L st sc x Ml t = Inr Ml'"
  shows "(sc = 2 \<longrightarrow> (\<exists>M' ev. snd Ml' = snd Ml @ [M'] \<and> eigs L M' = Inr ev \<and> cmod ev \<noteq> 0
                          \<and> fst Ml' = smul (rho st / cmod ev) M'))
       \<and> (sc \<noteq> 2 \<longrightarrow> snd Ml' = snd Ml)"
proof -
  from assms obtain M' where
    res: "(if sc = 2 then rescale_to L (rho st) (M', snd Ml) else Inr (M', snd Ml)) = Inr Ml'"
    unfolding hebb_vector_step_def bindE_Inr_iff by auto
  show ?thesis
  proof (cases "sc = 2")
    case True
    with res have "rescale_to L (rho st) (M', snd Ml) = Inr Ml'" by simp
    from rescale_to_Inr[OF this] True show ?thesis by auto
  next
    case False
    with res show ?thesis by auto
  qed
qed

lemma hebb_vector_step_modes: "sc \<noteq> 2 \<Longrightarrow> hebb_vector_step L st sc = hebb_vector_step L st 0"
  by (simp add: hebb_vector_step_def fun_eq_iff)

lemma hebb_learn_vector_Inr:
  assumes "hebb_learn_vector L st data t t_listen reset_M scale_M = Inr (st', lg)"
  shows "\<exists>st0 f x Ml Ml'. st0 = (if reset_M then set_rho (rho st) st else st)
          \<and> spline L st0 data t = Inr f
          \<and> odeint L (f_LR (st0\<lparr>u := Some f\<rparr>)) (replicate (N st0) 0) t = Inr x
          \<and> foldE (\<lambda>Ml e. foldE (hebb_vector_step L (st0\<lparr>u := Some f\<rparr>) scale_M x)
                                 [t_listen..<nrows data - 1] Ml)
                [0..<epochs st0] (M st0, []) = Inr Ml
          \<and> (if scale_M = 1 then rescale_to L (rho st0) Ml else Inr Ml) = Inr Ml'
          \<and> st' = st0\<lparr>u := Some f, M := fst Ml'\<rparr> \<and> lg = snd Ml'"
  using assms unfolding hebb_learn_vector_def Let_def bindE_Inr_iff
  by (cases "scale_M = 1") (auto simp: bindE_Inr_iff)


lemma rescaled_spectral_radius:
  assumes "eigs L A = Inr ev" "cmod ev \<noteq> 0" "eigs_exact L A"
  shows "spectral_radius (smul (r / cmod ev) A) \<bar>r\<bar>"
proof -
  from assms(1,3) have "dominant A ev"
    by (simp add: eigs_exact_def)
  then have "spectral_radius A (cmod ev)"
    unfolding spectral_radius_def by blast
  from spectral_radius_smul[OF this, of "r / cmod ev"] assms(2) show ?thesis
    by simp
qed

text \<open>
  C5, as the code has it. A call of \<^verbatim>\<open>hebb_learn_vector\<close> that returns has called the
  eigensolver once when \<^verbatim>\<open>scale_M\<close> is \<open>1\<close>, once after every single-step update, that is
  \<open>epochs * (T - 1 - t_listen)\<close> times for \<open>T\<close> rows of data, when \<^verbatim>\<open>scale_M\<close> is \<open>2\<close>, and not at
  all for any other value. When it was called, the stored matrix is the last matrix handed to
  it multiplied by \<open>rho\<close> over the modulus of the eigenvalue returned, and has the spectral radius
  \<open>\<bar>rho\<bar>\<close> if the eigensolver was exact there. With \<^verbatim>\<open>scale_M = 1\<close> that last matrix is the
  one the call would store with \<^verbatim>\<open>scale_M = 0\<close>.
\<close>

theorem hebb_learn_vector_rescale_modes:
  assumes "hebb_learn_vector L st data t t_listen reset_M scale_M = Inr (st', lg)"
  shows "length lg = (if scale_M = 1 then 1
                      else if scale_M = 2 then epochs st * (nrows data - 1 - t_listen)
                      else 0)
       \<and> (lg \<noteq> [] \<longrightarrow>
            (\<exists>ev. eigs L (last lg) = Inr ev \<and> cmod ev \<noteq> 0
                  \<and> M st' = smul (rho st / cmod ev) (last lg)
                  \<and> (eigs_exact L (last lg) \<longrightarrow> spectral_radius (M st') \<bar>rho st\<bar>)))
       \<and> (scale_M = 1 \<longrightarrow>
            (\<exists>st0. hebb_learn_vector L st data t t_listen reset_M 0 = Inr (st0, [])
                   \<and> lg = [M st0]))"
proof -
  from hebb_learn_vector_Inr[OF assms] obtain st0 f x Ml Ml' where
    st0: "st0 = (if reset_M then set_rho (rho st) st else st)"
    and sp: "spline L st0 data t = Inr f"
    and ode: "odeint L (f_LR (st0\<lparr>u := Some f\<rparr>)) (replicate (N st0) 0) t = Inr x"
    and loop: "foldE (\<lambda>Ml e. foldE (hebb_vector_step L (st0\<lparr>u := Some f\<rparr>) scale_M x)
                                 [t_listen..<nrows data - 1] Ml)
                [0..<epochs st0] (M st0, []) = Inr Ml"
    and fin: "(if scale_M = 1 then rescale_to L (rho st0) Ml else Inr Ml) = Inr Ml'"
    and st': "st' = st0\<lparr>u := Some f, M := fst Ml'\<rparr>" and lg: "lg = snd Ml'"
    by blast
  have keep: "rho st0 = rho st" "epochs st0 = epochs st"
    by (simp_all add: st0 set_rho_def)
  define c :: nat where "c = (if scale_M = 2 then 1 else 0)"
  let ?P = "\<lambda>Ml. scale_M = 2 \<longrightarrow> snd Ml \<noteq> [] \<longrightarrow>
              (\<exists>ev. eigs L (last (snd Ml)) = Inr ev \<and> cmod ev \<noteq> 0
                    \<and> fst Ml = smul (rho st / cmod ev) (last (snd Ml)))"
  have step: "?P Ml2 \<and> length (snd Ml2) = length (snd Ml1) + c"
    if "?P Ml1" "hebb_vector_step L (st0\<lparr>u := Some f\<rparr>) scale_M x Ml1 k = Inr Ml2"
    for Ml1 Ml2 k
    using hebb_vector_step_Inr[OF that(2)] that(1) keep
    by (cases "scale_M = 2") (auto simp: c_def)
  have epoch: "?P Ml2 \<and> length (snd Ml2)
                 = length (snd Ml1) + c * (nrows data - 1 - t_listen)"
    if "?P Ml1" "foldE (hebb_vector_step L (st0\<lparr>u := Some f\<rparr>) scale_M x)
                   [t_listen..<nrows data - 1] Ml1 = Inr Ml2" for Ml1 Ml2 and e :: nat
  proof -
    have "?P Ml2 \<and> length (snd Ml2)
            = length (snd Ml1) + c * length [t_listen..<nrows data - 1]"
      by (rule foldE_count[where P = ?P and m = "\<lambda>Ml. length (snd Ml)",
            OF that(2) that(1)]) (rule step)
    then show ?thesis by simp
  qed
  have all: "?P Ml \<and> length (snd Ml)
               = length (snd (M st0, [] :: mat list))
                 + c * (nrows data - 1 - t_listen) * length [0..<epochs st0]"
    by (rule foldE_count[where P = ?P and m = "\<lambda>Ml. length (snd Ml)", OF loop])
      (simp, rule epoch)
  then have P: "?P Ml" and len: "length (snd Ml) = c * (nrows data - 1 - t_listen) * epochs st"
    using keep by simp_all
  show ?thesis
  proof (cases "scale_M = 1")
    case True
    with fin have r: "rescale_to L (rho st0) Ml = Inr Ml'" by simp
    from rescale_to_Inr[OF r] obtain ev where
      ev: "eigs L (fst Ml) = Inr ev" "cmod ev \<noteq> 0"
      "Ml' = (smul (rho st0 / cmod ev) (fst Ml), snd Ml @ [fst Ml])"
      by blast
    from True len have nil: "snd Ml = []" by (simp add: c_def)
    have lgv: "lg = [fst Ml]"
      using lg ev(3) nil by simp
    have Mv: "M st' = smul (rho st / cmod ev) (fst Ml)"
      using st' ev(3) keep by simp
    have loop0: "foldE (\<lambda>Ml e. foldE (hebb_vector_step L (st0\<lparr>u := Some f\<rparr>) 0 x)
                                 [t_listen..<nrows data - 1] Ml)
                [0..<epochs st0] (M st0, []) = Inr Ml"
      using loop True hebb_vector_step_modes[of scale_M L "st0\<lparr>u := Some f\<rparr>"] by simp
    have "hebb_learn_vector L st data t t_listen reset_M 0
            = Inr (st0\<lparr>u := Some f, M := fst Ml\<rparr>, snd Ml)"
      by (rule hebb_learn_vector_eq[OF st0 sp ode loop0]) simp
    with nil lgv have m0: "\<exists>s0. hebb_learn_vector L st data t t_listen reset_M 0 = Inr (s0, [])
                   \<and> lg = [M s0]"
      by simp
    have sr: "spectral_radius (M st') \<bar>rho st\<bar>" if "eigs_exact L (last lg)"
      using rescaled_spectral_radius[OF ev(1,2)] that lgv Mv by simp
    from True lgv Mv ev(1,2) m0 sr show ?thesis
      by auto
  next
    case False
    with fin have Ml': "Ml' = Ml" by simp
    with lg st' have lgv: "lg = snd Ml" and Mv: "M st' = fst Ml" by simp_all
    have count: "length lg = (if scale_M = 2 then epochs st * (nrows data - 1 - t_listen)
                              else 0)"
      using len lgv by (simp add: c_def)
    have lastp: "\<exists>ev. eigs L (last lg) = Inr ev \<and> cmod ev \<noteq> 0
                  \<and> M st' = smul (rho st / cmod ev) (last lg)
                  \<and> (eigs_exact L (last lg) \<longrightarrow> spectral_radius (M st') \<bar>rho st\<bar>)"
      if "lg \<noteq> []"
    proof -
      from that count have two: "scale_M = 2" by (auto split: if_splits)
      with P that lgv obtain ev where
        ev: "eigs L (last lg) = Inr ev" "cmod ev \<noteq> 0"
        "fst Ml = smul (rho st / cmod ev) (last lg)"
        by auto
      with Mv rescaled_spectral_radius[OF ev(1,2)] show ?thesis
        by auto
    qed
    from False count lastp show ?thesis
      by auto
  qed
qed


lemma diag_reset: "set_rho (rho diag_esn) diag_esn = diag_esn"
  by (simp add: set_rho_def diag_esn_def smul_def)

lemma diag_spline: "spline rest_lib diag_esn zero_data grid4 = Inr (\<lambda>x. [0])"
  by (simp add: spline_def rest_lib_def splprep_const_def diag_esn_def
      zero_data_def grid4_def col_def eval_nat_numeral)

lemma diag_rest:
  "odeint rest_lib (f_LR (diag_esn\<lparr>u := Some (\<lambda>x. [0])\<rparr>)) (replicate (N diag_esn) 0) grid4
     = Inr [[0, 0, 0], [0, 0, 0], [0, 0, 0], [0, 0, 0]]"
  by (simp add: rest_lib_def odeint_rest_def f_LR_def drive_def matvec_def vadd_def dot_def
      diag_esn_def grid4_def numeral_3_eq_3)

lemma diag_vector_step:
  assumes "k \<in> {1, 2}"
  shows "hebb_vector_step rest_lib (diag_esn\<lparr>u := Some (\<lambda>x. [0])\<rparr>) 2
           [[0, 0, 0], [0, 0, 0], [0, 0, 0], [0, 0, 0]]
           (Mat 3 3 [[1, 0, 0], [0, 1 / 2, 0], [0, 0, 1 / 2]], lg) k
         = Inr (Mat 3 3 [[1, 0, 0], [0, 1 / 2, 0], [0, 0, 1 / 2]],
                lg @ [Mat 3 3 [[1, 0, 0], [0, 1 / 2, 0], [0, 0, 1 / 2]]])"
proof -
  have sub: "msub (Mat 3 3 [[1, 0, 0], [0, 1 / 2, 0], [0, 0, 1 / 2]])
               (smul (eta (diag_esn\<lparr>u := Some (\<lambda>x. [0])\<rparr>)) (outer [0, 0, 0] [0, 0, 0]))
             = Inr (Mat 3 3 [[1, 0, 0], [0, 1 / 2, 0], [0, 0, 1 / 2]])"
    by (simp add: msub_def smul_def outer_def diag_esn_def)
  have res: "rescale_to rest_lib (rho (diag_esn\<lparr>u := Some (\<lambda>x. [0])\<rparr>))
               (Mat 3 3 [[1, 0, 0], [0, 1 / 2, 0], [0, 0, 1 / 2]], lg)
             = Inr (Mat 3 3 [[1, 0, 0], [0, 1 / 2, 0], [0, 0, 1 / 2]],
                    lg @ [Mat 3 3 [[1, 0, 0], [0, 1 / 2, 0], [0, 0, 1 / 2]]])"
    by (simp add: rescale_to_def eigs_half_diag) (simp add: diag_esn_def smul_def)
  from assms have rows: "row_at [[0, 0, 0], [0, 0, 0], [0, 0, 0], [0 :: real, 0, 0]] (k + 1)
                           = Inr [0, 0, 0]"
    "row_at [[0, 0, 0], [0, 0, 0], [0, 0, 0], [0 :: real, 0, 0]] k = Inr [0, 0, 0]"
    by (auto simp: row_at_def)
  show ?thesis
    unfolding hebb_vector_step_def
    by (simp only: rows bindE.simps sub res fst_conv snd_conv) simp
qed

lemma diag_mode2_run:
  "hebb_learn_vector rest_lib diag_esn zero_data grid4 1 True 2
     = Inr (diag_esn\<lparr>u := Some (\<lambda>x. [0]),
                     M := Mat 3 3 [[1, 0, 0], [0, 1 / 2, 0], [0, 0, 1 / 2]]\<rparr>,
            [Mat 3 3 [[1, 0, 0], [0, 1 / 2, 0], [0, 0, 1 / 2]],
             Mat 3 3 [[1, 0, 0], [0, 1 / 2, 0], [0, 0, 1 / 2]]])"
proof -
  have ixs: "[1..<nrows zero_data - 1] = [1, 2]"
    by (simp add: zero_data_def eval_nat_numeral)
  have ep: "[0..<epochs diag_esn] = [0]"
    by (simp add: diag_esn_def)
  have s0: "(M diag_esn, []) = (Mat 3 3 [[1, 0, 0], [0, 1 / 2, 0], [0, 0, 1 / 2]], [])"
    by (simp add: diag_esn_def)
  have loop: "foldE (\<lambda>Ml e. foldE (hebb_vector_step rest_lib (diag_esn\<lparr>u := Some (\<lambda>x. [0])\<rparr>) 2
                                      [[0, 0, 0], [0, 0, 0], [0, 0, 0], [0, 0, 0]])
                               [1..<nrows zero_data - 1] Ml)
                [0..<epochs diag_esn] (M diag_esn, [])
              = Inr (Mat 3 3 [[1, 0, 0], [0, 1 / 2, 0], [0, 0, 1 / 2]],
                     [Mat 3 3 [[1, 0, 0], [0, 1 / 2, 0], [0, 0, 1 / 2]],
                      Mat 3 3 [[1, 0, 0], [0, 1 / 2, 0], [0, 0, 1 / 2]]])"
    unfolding ixs ep s0 by (simp add: diag_vector_step)
  have fin: "(if (2 :: int) = 1
              then rescale_to rest_lib (rho diag_esn)
                     (Mat 3 3 [[1, 0, 0], [0, 1 / 2, 0], [0, 0, 1 / 2]],
                      [Mat 3 3 [[1, 0, 0], [0, 1 / 2, 0], [0, 0, 1 / 2]],
                       Mat 3 3 [[1, 0, 0], [0, 1 / 2, 0], [0, 0, 1 / 2]]])
              else Inr (Mat 3 3 [[1, 0, 0], [0, 1 / 2, 0], [0, 0, 1 / 2]],
                        [Mat 3 3 [[1, 0, 0], [0, 1 / 2, 0], [0, 0, 1 / 2]],
                         Mat 3 3 [[1, 0, 0], [0, 1 / 2, 0], [0, 0, 1 / 2]]]))
             = Inr (Mat 3 3 [[1, 0, 0], [0, 1 / 2, 0], [0, 0, 1 / 2]],
                    [Mat 3 3 [[1, 0, 0], [0, 1 / 2, 0], [0, 0, 1 / 2]],
                     Mat 3 3 [[1, 0, 0], [0, 1 / 2, 0], [0, 0, 1 / 2]]])"
    by simp
  have "hebb_learn_vector rest_lib diag_esn zero_data grid4 1 True 2
          = Inr (diag_esn\<lparr>u := Some (\<lambda>x. [0]),
                   M := fst (Mat 3 3 [[1, 0, 0], [0, 1 / 2, 0], [0, 0, 1 / 2]],
                             [Mat 3 3 [[1, 0, 0], [0, 1 / 2, 0], [0, 0, 1 / 2]],
                              Mat 3 3 [[1, 0, 0], [0, 1 / 2, 0], [0, 0, 1 / 2]]])\<rparr>,
                 snd (Mat 3 3 [[1, 0, 0], [0, 1 / 2, 0], [0, 0, 1 / 2]],
                      [Mat 3 3 [[1, 0, 0], [0, 1 / 2, 0], [0, 0, 1 / 2]],
                       Mat 3 3 [[1, 0, 0], [0, 1 / 2, 0], [0, 0, 1 / 2]]]))"
    by (rule hebb_learn_vector_eq[OF _ diag_spline diag_rest loop fin])
      (simp add: diag_reset)
  then show ?thesis
    by simp
qed

theorem hebb_learn_vector_rescale_modes_witness:
  "hebb_learn_vector rest_lib diag_esn zero_data grid4 1 True 2
     = Inr (diag_esn\<lparr>u := Some (\<lambda>x. [0]),
                     M := Mat 3 3 [[1, 0, 0], [0, 1 / 2, 0], [0, 0, 1 / 2]]\<rparr>,
            [Mat 3 3 [[1, 0, 0], [0, 1 / 2, 0], [0, 0, 1 / 2]],
             Mat 3 3 [[1, 0, 0], [0, 1 / 2, 0], [0, 0, 1 / 2]]])
   \<and> length [Mat 3 3 [[1, 0, 0], [0, 1 / 2, 0], [0, 0, 1 / 2]],
              Mat 3 3 [[1, 0, 0], [0, 1 / 2, 0], [0, 0, 1 / 2]]]
       = (if (2 :: int) = 1 then 1
          else if (2 :: int) = 2 then epochs diag_esn * (nrows zero_data - 1 - 1) else 0)
   \<and> (\<exists>ev. eigs rest_lib (last [Mat 3 3 [[1, 0, 0], [0, 1 / 2, 0], [0, 0, 1 / 2]],
                                   Mat 3 3 [[1, 0, 0], [0, 1 / 2, 0], [0, 0, 1 / 2]]]) = Inr ev
          \<and> cmod ev \<noteq> 0
          \<and> M (diag_esn\<lparr>u := Some (\<lambda>x. [0]),
                         M := Mat 3 3 [[1, 0, 0], [0, 1 / 2, 0], [0, 0, 1 / 2]]\<rparr>)
              = smul (rho diag_esn / cmod ev)
                  (last [Mat 3 3 [[1, 0, 0], [0, 1 / 2, 0], [0, 0, 1 / 2]],
                         Mat 3 3 [[1, 0, 0], [0, 1 / 2, 0], [0, 0, 1 / 2]]]))"
proof -
  note modes = hebb_learn_vector_rescale_modes[OF diag_mode2_run]
  from modes have count: "length [Mat 3 3 [[1, 0, 0], [0, 1 / 2, 0], [0, 0, 1 / 2]],
              Mat 3 3 [[1, 0, 0], [0, 1 / 2, 0], [0, 0, 1 / 2]]]
       = (if (2 :: int) = 1 then 1
          else if (2 :: int) = 2 then epochs diag_esn * (nrows zero_data - 1 - 1) else 0)"
    by (rule conjunct1)
  have ne: "[Mat 3 3 [[1, 0, 0], [0, 1 / 2, 0], [0, 0, 1 / 2]],
             Mat 3 3 [[1 :: real, 0, 0], [0, 1 / 2, 0], [0, 0, 1 / 2]]] \<noteq> []"
    by simp
  from modes ne have
    "\<exists>ev. eigs rest_lib (last [Mat 3 3 [[1, 0, 0], [0, 1 / 2, 0], [0, 0, 1 / 2]],
                                Mat 3 3 [[1, 0, 0], [0, 1 / 2, 0], [0, 0, 1 / 2]]]) = Inr ev
          \<and> cmod ev \<noteq> 0
          \<and> M (diag_esn\<lparr>u := Some (\<lambda>x. [0]),
                         M := Mat 3 3 [[1, 0, 0], [0, 1 / 2, 0], [0, 0, 1 / 2]]\<rparr>)
              = smul (rho diag_esn / cmod ev)
                  (last [Mat 3 3 [[1, 0, 0], [0, 1 / 2, 0], [0, 0, 1 / 2]],
                         Mat 3 3 [[1, 0, 0], [0, 1 / 2, 0], [0, 0, 1 / 2]]])"
    by blast
  with diag_mode2_run count show ?thesis
    by (intro conjI)
qed

text \<open>
  C5 as the specification states it has \<^verbatim>\<open>scale_M = 2\<close> renormalize once per epoch. The model
  \<open>diag_esn\<close> is configured for one epoch; on four samples with \<open>t_listen = 1\<close> the epoch has the
  two steps \<open>t = 1, 2\<close>, and the eigensolver is called twice, after each step.
\<close>

theorem rescale_every_epoch_counterexample:
  "epochs diag_esn = 1
   \<and> hebb_learn_vector rest_lib diag_esn zero_data grid4 1 True 2
       = Inr (diag_esn\<lparr>u := Some (\<lambda>x. [0]),
                       M := Mat 3 3 [[1, 0, 0], [0, 1 / 2, 0], [0, 0, 1 / 2]]\<rparr>,
              [Mat 3 3 [[1, 0, 0], [0, 1 / 2, 0], [0, 0, 1 / 2]],
               Mat 3 3 [[1, 0, 0], [0, 1 / 2, 0], [0, 0, 1 / 2]]])
   \<and> length [Mat 3 3 [[1, 0, 0], [0, 1 / 2, 0], [0, 0, 1 / 2]],
              Mat 3 3 [[1, 0, 0], [0, 1 / 2, 0], [0, 0, 1 / 2]]] \<noteq> epochs diag_esn"
proof -
  have "epochs diag_esn = 1"
    by (simp add: diag_esn_def)
  with diag_mode2_run show ?thesis
    by simp
qed

section \<open>The normalized Hebbian adaptation\<close>

lemma dot_unit_row:
  assumes "i < n" "length v = n"
  shows "dot (map (\<lambda>j. if i = j then c else 0) [0..<n]) v = c * v ! i"
proof -
  have "map2 (*) (map (\<lambda>j. if i = j then c else 0) [0..<n]) v
          = map (\<lambda>j. (if i = j then c else 0) * v ! j) [0..<n]"
    using assms(2) by (intro nth_equalityI) auto
  then have "dot (map (\<lambda>j. if i = j then c else 0) [0..<n]) v
          = (\<Sum>j\<leftarrow>[0..<n]. (if i = j then c else 0) * v ! j)"
    by (simp add: dot_def)
  also have "\<dots> = (\<Sum>j \<in> {0..<n}. (if i = j then c else 0) * v ! j)"
    by (simp add: interv_sum_list_conv_sum_set_nat)
  also have "\<dots> = (\<Sum>j \<in> {0..<n}. if j = i then c * v ! j else 0)"
    by (intro sum.cong) auto
  also have "\<dots> = c * v ! i"
    using assms(1) by (simp add: sum.delta)
  finally show ?thesis .
qed

lemma diag_matmul_entry:
  assumes "np_matmul (np_diag w) A = Inr B" "wf_mat A" "i < nrows A" "j < ncols A"
  shows "rows B ! i ! j = w ! i * rows A ! i ! j"
proof -
  from assms(1) have len: "length w = nrows A"
    and B: "rows B = map (\<lambda>r. map (\<lambda>j. dot r (col A j)) [0..<ncols A]) (rows (np_diag w))"
    by (auto simp: np_matmul_def np_diag_def split: if_splits)
  from assms(2) have lc: "length (col A j) = nrows A"
    by (simp add: col_def wf_mat_def)
  have "rows B ! i ! j = dot (map (\<lambda>k. if i = k then w ! i else 0) [0..<length w]) (col A j)"
    using assms(3,4) len by (simp add: B np_diag_def)
  also have "\<dots> = w ! i * col A j ! i"
    using assms(3) len lc by (intro dot_unit_row) simp_all
  also have "col A j ! i = rows A ! i ! j"
    using assms(2,3) by (simp add: col_def wf_mat_def)
  finally show ?thesis .
qed

lemma wf_msub:
  assumes "msub A B = Inr C" "wf_mat A" "wf_mat B"
  shows "wf_mat C \<and> nrows C = nrows A \<and> ncols C = ncols A"
proof -
  from assms(1) have sh: "nrows A = nrows B" "ncols A = ncols B"
    and C: "C = Mat (nrows A) (ncols A) (map2 (map2 (-)) (rows A) (rows B))"
    by (simp_all add: msub_def split: if_splits)
  have "length y = ncols A" if "y \<in> set (map2 (map2 (-)) (rows A) (rows B))" for y
  proof -
    from that obtain r s where "(r, s) \<in> set (zip (rows A) (rows B))" "y = map2 (-) r s"
      by auto
    then have "r \<in> set (rows A)" "s \<in> set (rows B)" "y = map2 (-) r s"
      by (auto dest: set_zip_leftD set_zip_rightD)
    with assms(2,3) sh show ?thesis
      by (simp add: wf_mat_def list_all_iff)
  qed
  then have "list_all (\<lambda>y. length y = ncols A) (map2 (map2 (-)) (rows A) (rows B))"
    by (simp add: list_all_iff)
  with assms(2,3) sh show ?thesis
    unfolding C wf_mat_def by simp
qed

lemma norm_hebb_step_Inr:
  assumes "norm_hebb_step st x Mc k = Inr Mc'" "wf_mat Mc"
  shows "\<exists>M_hat. msub Mc (smul (eta st) (outer (x ! (k + 1)) (x ! k))) = Inr M_hat
           \<and> nrows M_hat = ncols M_hat \<and> nrows Mc' = nrows M_hat \<and> ncols Mc' = ncols M_hat
           \<and> (\<forall>i < nrows M_hat. \<forall>j < ncols M_hat.
                 rows Mc' ! i ! j = rows M_hat ! i ! j / col_norms M_hat ! i)"
proof -
  from assms(1) obtain M_hat w where
    sub: "msub Mc (smul (eta st) (outer (x ! (k + 1)) (x ! k))) = Inr M_hat"
    and w: "recip 1 (col_norms M_hat) = Inr w"
    and mm: "np_matmul (np_diag w) M_hat = Inr Mc'"
    unfolding norm_hebb_step_def bindE_Inr_iff row_at_Inr_iff by auto
  have wf: "wf_mat M_hat"
    using wf_msub[OF sub assms(2) wf_smul[OF wf_outer]] by simp
  from w have wv: "w = map (\<lambda>y. 1 / y) (col_norms M_hat)"
    by (auto simp: recip_def split: if_splits)
  then have lw: "length w = ncols M_hat"
    by (simp add: col_norms_def)
  from mm lw have sq: "nrows M_hat = ncols M_hat"
    and sh: "nrows Mc' = nrows M_hat" "ncols Mc' = ncols M_hat"
    by (auto simp: np_matmul_def np_diag_def split: if_splits)
  have ent: "rows Mc' ! i ! j = rows M_hat ! i ! j / col_norms M_hat ! i"
    if "i < nrows M_hat" "j < ncols M_hat" for i j
  proof -
    have "rows Mc' ! i ! j = w ! i * rows M_hat ! i ! j"
      by (rule diag_matmul_entry[OF mm wf that])
    also have "w ! i = 1 / col_norms M_hat ! i"
      using that(1) sq by (simp add: wv col_norms_def)
    finally show ?thesis by simp
  qed
  from sub sq sh ent show ?thesis by blast
qed

lemma norm_hebb_learn_Inr:
  assumes "norm_hebb_learn L st data t t_listen reset_M = Inr st'"
  shows "\<exists>st1 x Mc. eta st1 = eta st
           \<and> foldE (\<lambda>Mc e. foldE (norm_hebb_step st1 x) [t_listen..<nrows data - 1] Mc)
                [0..<epochs st] (M_orig st) = Inr Mc
           \<and> M st' = smul (rho st) Mc"
proof -
  define st0 where "st0 = (if reset_M then set_rho (rho st) st else st)"
  have keep: "M_orig st0 = M_orig st" "eta st0 = eta st" "rho st0 = rho st"
    "epochs st0 = epochs st"
    by (simp_all add: st0_def set_rho_def)
  from assms obtain f x Mc where
    loop: "foldE (\<lambda>Mc e. foldE (norm_hebb_step (st0\<lparr>u := Some f\<rparr>) x)
                             [t_listen..<nrows data - 1] Mc)
             [0..<epochs (st0\<lparr>u := Some f\<rparr>)] (M_orig (st0\<lparr>u := Some f\<rparr>)) = Inr Mc"
    and st': "st' = st0\<lparr>u := Some f, M := smul (rho (st0\<lparr>u := Some f\<rparr>)) Mc\<rparr>"
    unfolding norm_hebb_learn_def Let_def bindE_Inr_iff st0_def[symmetric] by auto
  have "eta (st0\<lparr>u := Some f\<rparr>) = eta st"
    using keep by simp
  moreover have "foldE (\<lambda>Mc e. foldE (norm_hebb_step (st0\<lparr>u := Some f\<rparr>) x)
                             [t_listen..<nrows data - 1] Mc)
             [0..<epochs st] (M_orig st) = Inr Mc"
    using loop keep by simp
  moreover have "M st' = smul (rho st) Mc"
    using st' keep by simp
  ultimately show ?thesis by blast
qed

text \<open>
  C6, as the code has it. One step of \<^verbatim>\<open>norm_hebb_learn\<close> that returns, from a working matrix
  \<open>Mc\<close>, forms the decayed matrix \<open>M_hat = Mc - eta * outer(x[t+1], x[t])\<close> and multiplies it
  from the left by the diagonal matrix of the inverses of its column norms: the entry \<open>(i, j)\<close>
  of the new working matrix is the entry \<open>(i, j)\<close> of \<open>M_hat\<close> divided by the norm of column
  \<open>i\<close> of \<open>M_hat\<close>. A call that returns stores \<open>rho\<close> times the working matrix its loops end
  with, and computes no eigenvalue: the stored matrix has \<open>\<bar>rho\<bar>\<close> times the spectral radius of
  that working matrix.
\<close>

theorem norm_hebb_learn_row_scaling:
  "(norm_hebb_step st x Mc k = Inr Mc' \<and> wf_mat Mc \<longrightarrow>
      (\<exists>M_hat. msub Mc (smul (eta st) (outer (x ! (k + 1)) (x ! k))) = Inr M_hat
           \<and> nrows M_hat = ncols M_hat \<and> nrows Mc' = nrows M_hat \<and> ncols Mc' = ncols M_hat
           \<and> (\<forall>i < nrows M_hat. \<forall>j < ncols M_hat.
                 rows Mc' ! i ! j = rows M_hat ! i ! j / col_norms M_hat ! i)))
   \<and> (norm_hebb_learn L st data t t_listen reset_M = Inr st' \<longrightarrow>
        (\<exists>st1 y Mc. eta st1 = eta st
           \<and> foldE (\<lambda>Mc e. foldE (norm_hebb_step st1 y) [t_listen..<nrows data - 1] Mc)
                [0..<epochs st] (M_orig st) = Inr Mc
           \<and> M st' = smul (rho st) Mc
           \<and> (\<forall>r. spectral_radius Mc r \<longrightarrow> spectral_radius (M st') (\<bar>rho st\<bar> * r))))"
proof (intro conjI impI)
  assume "norm_hebb_step st x Mc k = Inr Mc' \<and> wf_mat Mc"
  then show "\<exists>M_hat. msub Mc (smul (eta st) (outer (x ! (k + 1)) (x ! k))) = Inr M_hat
           \<and> nrows M_hat = ncols M_hat \<and> nrows Mc' = nrows M_hat \<and> ncols Mc' = ncols M_hat
           \<and> (\<forall>i < nrows M_hat. \<forall>j < ncols M_hat.
                 rows Mc' ! i ! j = rows M_hat ! i ! j / col_norms M_hat ! i)"
    using norm_hebb_step_Inr by blast
next
  assume "norm_hebb_learn L st data t t_listen reset_M = Inr st'"
  from norm_hebb_learn_Inr[OF this] obtain st1 y Mc where
    *: "eta st1 = eta st"
    "foldE (\<lambda>Mc e. foldE (norm_hebb_step st1 y) [t_listen..<nrows data - 1] Mc)
       [0..<epochs st] (M_orig st) = Inr Mc"
    "M st' = smul (rho st) Mc"
    by blast
  have "\<forall>r. spectral_radius Mc r \<longrightarrow> spectral_radius (M st') (\<bar>rho st\<bar> * r)"
    using *(3) spectral_radius_smul by simp
  with * show "\<exists>st1 y Mc. eta st1 = eta st
           \<and> foldE (\<lambda>Mc e. foldE (norm_hebb_step st1 y) [t_listen..<nrows data - 1] Mc)
                [0..<epochs st] (M_orig st) = Inr Mc
           \<and> M st' = smul (rho st) Mc
           \<and> (\<forall>r. spectral_radius Mc r \<longrightarrow> spectral_radius (M st') (\<bar>rho st\<bar> * r))"
    by blast
qed


lemma norm_hebb_learn_eq:
  assumes "st0 = (if reset_M then set_rho (rho st) st else st)"
    and "spline L st0 data t = Inr f"
    and "odeint L (f_LR (st0\<lparr>u := Some f\<rparr>)) (replicate (N st0) 0) t = Inr x"
    and "foldE (\<lambda>Mc e. foldE (norm_hebb_step (st0\<lparr>u := Some f\<rparr>) x)
                            [t_listen..<nrows data - 1] Mc)
           [0..<epochs st0] (M_orig st0) = Inr Mc"
  shows "norm_hebb_learn L st data t t_listen reset_M
           = Inr (st0\<lparr>u := Some f, M := smul (rho st0) Mc\<rparr>)"
  using assms unfolding norm_hebb_learn_def Let_def by simp

lemma sqrt_quarter: "sqrt (1 / 4) = 1 / 2"
  by (simp add: real_sqrt_divide)

lemma block_col_norms:
  "col_norms (Mat 3 3 [[3 / 5, 3 / 10, 0], [4 / 5, 2 / 5, 0], [0, 0, 1 / 2]]) = [1, 1 / 2, 1 / 2]"
proof -
  have "[0..<3] = [0, 1, 2]"
    by (simp add: eval_nat_numeral)
  then show ?thesis
    by (simp add: col_norms_def col_def power2_eq_square sqrt_quarter)
qed

lemma block_step:
  "norm_hebb_step st
     [[0, 0, 0], [0, 0, 0], [0, 0, 0], [0, 0, 0]]
     (Mat 3 3 [[3 / 5, 3 / 10, 0], [4 / 5, 2 / 5, 0], [0, 0, 1 / 2]]) 2
     = Inr (Mat 3 3 [[3 / 5, 3 / 10, 0], [8 / 5, 4 / 5, 0], [0, 0, 1]])"
proof -
  have rows: "row_at [[0, 0, 0], [0, 0, 0], [0, 0, 0], [0 :: real, 0, 0]] (2 + 1) = Inr [0, 0, 0]"
    "row_at [[0, 0, 0], [0, 0, 0], [0, 0, 0], [0 :: real, 0, 0]] 2 = Inr [0, 0, 0]"
    by (simp_all add: row_at_def)
  have sub: "msub (Mat 3 3 [[3 / 5, 3 / 10, 0], [4 / 5, 2 / 5, 0], [0, 0, 1 / 2]])
               (smul (eta st) (outer [0, 0, 0] [0, 0, 0]))
             = Inr (Mat 3 3 [[3 / 5, 3 / 10, 0], [4 / 5, 2 / 5, 0], [0, 0, 1 / 2]])"
    by (simp add: msub_def smul_def outer_def)
  have rec: "recip 1 [1, 1 / 2, 1 / 2] = Inr [1, 2, 2]"
    by (simp add: recip_def)
  have mm: "np_matmul (np_diag [1, 2, 2])
              (Mat 3 3 [[3 / 5, 3 / 10, 0], [4 / 5, 2 / 5, 0], [0, 0, 1 / 2]])
            = Inr (Mat 3 3 [[3 / 5, 3 / 10, 0], [8 / 5, 4 / 5, 0], [0, 0, 1]])"
    by (simp add: np_matmul_def np_diag_def col_def dot_def eval_nat_numeral)
  show ?thesis
    unfolding norm_hebb_step_def
    by (simp only: rows bindE.simps sub block_col_norms rec mm)
qed

lemma block_run:
  "norm_hebb_learn rest_lib block_esn zero_data grid4 2 True
     = Inr (block_esn\<lparr>u := Some (\<lambda>x. [0]),
                      M := Mat 3 3 [[3 / 5, 3 / 10, 0], [8 / 5, 4 / 5, 0], [0, 0, 1]]\<rparr>)"
proof -
  have st0: "block_esn = (if True then set_rho (rho block_esn) block_esn else block_esn)"
    by (simp add: set_rho_def block_esn_def smul_def)
  have sp: "spline rest_lib block_esn zero_data grid4 = Inr (\<lambda>x. [0])"
    by (simp add: spline_def rest_lib_def splprep_const_def block_esn_def
        zero_data_def grid4_def col_def eval_nat_numeral)
  have ode: "odeint rest_lib (f_LR (block_esn\<lparr>u := Some (\<lambda>x. [0])\<rparr>))
               (replicate (N block_esn) 0) grid4
             = Inr [[0, 0, 0], [0, 0, 0], [0, 0, 0], [0, 0, 0]]"
    by (simp add: rest_lib_def odeint_rest_def f_LR_def drive_def matvec_def vadd_def dot_def
        block_esn_def grid4_def numeral_3_eq_3)
  have ixs: "[2..<nrows zero_data - 1] = [2]"
    by (simp add: zero_data_def eval_nat_numeral)
  have ep: "[0..<epochs block_esn] = [0]"
    by (simp add: block_esn_def)
  have m0: "M_orig block_esn = Mat 3 3 [[3 / 5, 3 / 10, 0], [4 / 5, 2 / 5, 0], [0, 0, 1 / 2]]"
    by (simp add: block_esn_def)
  have loop: "foldE (\<lambda>Mc e. foldE (norm_hebb_step (block_esn\<lparr>u := Some (\<lambda>x. [0])\<rparr>)
                                      [[0, 0, 0], [0, 0, 0], [0, 0, 0], [0, 0, 0]])
                               [2..<nrows zero_data - 1] Mc)
                [0..<epochs block_esn] (M_orig block_esn)
              = Inr (Mat 3 3 [[3 / 5, 3 / 10, 0], [8 / 5, 4 / 5, 0], [0, 0, 1]])"
    unfolding ixs ep m0 by (simp add: block_step)
  have "norm_hebb_learn rest_lib block_esn zero_data grid4 2 True
          = Inr (block_esn\<lparr>u := Some (\<lambda>x. [0]),
                   M := smul (rho block_esn)
                          (Mat 3 3 [[3 / 5, 3 / 10, 0], [8 / 5, 4 / 5, 0], [0, 0, 1]])\<rparr>)"
    by (rule norm_hebb_learn_eq[OF st0 sp ode loop])
  then show ?thesis
    by (simp add: smul_def block_esn_def)
qed


lemma block_orig_radius: "spectral_radius (M_orig block_esn) 1"
proof -
  let ?B = "Mat 3 3 [[3 / 5, 3 / 10, 0], [4 / 5, 2 / 5, 0], [0, 0, 1 / 2]]"
  have ev: "eigenvalue ?B 1"
    unfolding eigenvalue_def
    by (rule exI[of _ "[3, 4, 0]"]) (simp add: cmatvec_def)
  have bound: "cmod k \<le> cmod 1" if "eigenvalue ?B k" for k
  proof -
    from that obtain v where v: "length v = 3" "\<exists>x \<in> set v. x \<noteq> 0"
      "cmatvec ?B v = map ((*) k) v"
      by (auto simp: eigenvalue_def)
    from vec3[OF v(1)] obtain x y z where xyz: "v = [x, y, z]" by blast
    from v(3) xyz have e1: "3 / 5 * x + 3 / 10 * y = k * x"
      and e2: "4 / 5 * x + 2 / 5 * y = k * y" and e3: "1 / 2 * z = k * z"
      by (simp_all add: cmatvec_def)
    have "k = 0 \<or> k = 1 \<or> k = 1 / 2"
    proof (cases "z = 0")
      case False
      with e3 show ?thesis by simp
    next
      case True
      with v(2) xyz have nz: "x \<noteq> 0 \<or> y \<noteq> 0" by auto
      have "k * (2 * x + y) = 2 * (k * x) + k * y"
        by (simp add: algebra_simps)
      also have "\<dots> = 2 * (3 / 5 * x + 3 / 10 * y) + (4 / 5 * x + 2 / 5 * y)"
        using e1 e2 by simp
      also have "\<dots> = 2 * x + y"
        by simp
      finally have "(k - 1) * (2 * x + y) = 0"
        by (simp add: algebra_simps)
      then have "k = 1 \<or> y = - 2 * x" 
        by (auto simp: add_eq_0_iff)
      then show ?thesis
      proof
        assume "k = 1" then show ?thesis by simp
      next
        assume y: "y = - 2 * x"
        with e1 have "k * x = 0" by simp
        moreover from y nz have "x \<noteq> 0" by auto
        ultimately show ?thesis by simp
      qed
    qed
    then show ?thesis
    proof (elim disjE)
      assume h: "k = 1 / 2"
      have "cmod (1 / 2) = 1 / 2" by (simp add: norm_divide)
      then show ?thesis unfolding h by simp
    qed simp_all
  qed
  from ev bound have "dominant ?B 1"
    by (simp add: dominant_def)
  then have "spectral_radius ?B (cmod 1)"
    unfolding spectral_radius_def by blast
  then show ?thesis
    by (simp add: block_esn_def)
qed

lemma eigenvalue_bounds_radius:
  assumes "eigenvalue A k" "spectral_radius A r"
  shows "cmod k \<le> r"
  using assms by (auto simp: spectral_radius_def dominant_def)

theorem norm_hebb_learn_row_scaling_witness:
  "norm_hebb_step block_esn
     [[0, 0, 0], [0, 0, 0], [0, 0, 0], [0, 0, 0]]
     (Mat 3 3 [[3 / 5, 3 / 10, 0], [4 / 5, 2 / 5, 0], [0, 0, 1 / 2]]) 2
     = Inr (Mat 3 3 [[3 / 5, 3 / 10, 0], [8 / 5, 4 / 5, 0], [0, 0, 1]])
   \<and> wf_mat (Mat 3 3 [[3 / 5, 3 / 10, 0], [4 / 5, 2 / 5, 0], [0, 0, 1 / 2]])
   \<and> norm_hebb_learn rest_lib block_esn zero_data grid4 2 True
       = Inr (block_esn\<lparr>u := Some (\<lambda>x. [0]),
                        M := Mat 3 3 [[3 / 5, 3 / 10, 0], [8 / 5, 4 / 5, 0], [0, 0, 1]]\<rparr>)
   \<and> (\<exists>M_hat. msub (Mat 3 3 [[3 / 5, 3 / 10, 0], [4 / 5, 2 / 5, 0], [0, 0, 1 / 2]])
                  (smul (eta block_esn)
                     (outer ([[0, 0, 0], [0, 0, 0], [0, 0, 0], [0, 0, 0]] ! (2 + 1))
                            ([[0, 0, 0], [0, 0, 0], [0, 0, 0], [0, 0, 0]] ! 2))) = Inr M_hat
          \<and> rows (Mat 3 3 [[3 / 5, 3 / 10, 0], [8 / 5, 4 / 5, 0], [0, 0, 1]]) ! 1 ! 0
              = rows M_hat ! 1 ! 0 / col_norms M_hat ! 1)
   \<and> (\<exists>st1 y Mc. eta st1 = eta block_esn
          \<and> foldE (\<lambda>Mc e. foldE (norm_hebb_step st1 y) [2..<nrows zero_data - 1] Mc)
               [0..<epochs block_esn] (M_orig block_esn) = Inr Mc
          \<and> M (block_esn\<lparr>u := Some (\<lambda>x. [0]),
                          M := Mat 3 3 [[3 / 5, 3 / 10, 0], [8 / 5, 4 / 5, 0], [0, 0, 1]]\<rparr>)
              = smul (rho block_esn) Mc)"
proof -
  have wf: "wf_mat (Mat 3 3 [[3 / 5, 3 / 10, 0], [4 / 5, 2 / 5, 0], [0, 0, 1 / 2]])"
    by (simp add: wf_mat_def)
  note both = norm_hebb_learn_row_scaling[of block_esn
      "[[0, 0, 0], [0, 0, 0], [0, 0, 0], [0, 0, 0]]"
      "Mat 3 3 [[3 / 5, 3 / 10, 0], [4 / 5, 2 / 5, 0], [0, 0, 1 / 2]]" 2
      "Mat 3 3 [[3 / 5, 3 / 10, 0], [8 / 5, 4 / 5, 0], [0, 0, 1]]"
      rest_lib zero_data grid4 2 True
      "block_esn\<lparr>u := Some (\<lambda>x. [0]),
                 M := Mat 3 3 [[3 / 5, 3 / 10, 0], [8 / 5, 4 / 5, 0], [0, 0, 1]]\<rparr>"]
  from both block_step wf obtain M_hat where
    M_hat: "msub (Mat 3 3 [[3 / 5, 3 / 10, 0], [4 / 5, 2 / 5, 0], [0, 0, 1 / 2]])
                  (smul (eta block_esn)
                     (outer ([[0, 0, 0], [0, 0, 0], [0, 0, 0], [0, 0, 0]] ! (2 + 1))
                            ([[0, 0, 0], [0, 0, 0], [0, 0, 0], [0, 0, 0]] ! 2))) = Inr M_hat"
    "nrows M_hat = ncols M_hat"
    "nrows (Mat 3 3 [[3 / 5, 3 / 10, 0], [8 / 5, 4 / 5, 0], [0, 0, 1]]) = nrows M_hat"
    "\<forall>i < nrows M_hat. \<forall>j < ncols M_hat.
       rows (Mat 3 3 [[3 / 5, 3 / 10, 0], [8 / 5, 4 / 5, 0], [0, 0, 1]]) ! i ! j
         = rows M_hat ! i ! j / col_norms M_hat ! i"
    by blast
  from M_hat(2,3) have "1 < nrows M_hat" "0 < ncols M_hat" by simp_all
  with M_hat(4) have ent: "rows (Mat 3 3 [[3 / 5, 3 / 10, 0], [8 / 5, 4 / 5, 0], [0, 0, 1]]) ! 1 ! 0
         = rows M_hat ! 1 ! 0 / col_norms M_hat ! 1"
    by blast
  from both block_run have fin: "\<exists>st1 y Mc. eta st1 = eta block_esn
          \<and> foldE (\<lambda>Mc e. foldE (norm_hebb_step st1 y) [2..<nrows zero_data - 1] Mc)
               [0..<epochs block_esn] (M_orig block_esn) = Inr Mc
          \<and> M (block_esn\<lparr>u := Some (\<lambda>x. [0]),
                          M := Mat 3 3 [[3 / 5, 3 / 10, 0], [8 / 5, 4 / 5, 0], [0, 0, 1]]\<rparr>)
              = smul (rho block_esn) Mc"
    by blast
  from M_hat(1) ent have "\<exists>M_hat. msub (Mat 3 3 [[3 / 5, 3 / 10, 0], [4 / 5, 2 / 5, 0], [0, 0, 1 / 2]])
                  (smul (eta block_esn)
                     (outer ([[0, 0, 0], [0, 0, 0], [0, 0, 0], [0, 0, 0]] ! (2 + 1))
                            ([[0, 0, 0], [0, 0, 0], [0, 0, 0], [0, 0, 0]] ! 2))) = Inr M_hat
          \<and> rows (Mat 3 3 [[3 / 5, 3 / 10, 0], [8 / 5, 4 / 5, 0], [0, 0, 1]]) ! 1 ! 0
              = rows M_hat ! 1 ! 0 / col_norms M_hat ! 1"
    by blast
  with block_step wf block_run fin show ?thesis
    by (intro conjI)
qed

text \<open>
  C6 as the specification states it rescales the columns to unit norm after each step and
  leaves a matrix of spectral radius \<open>rho\<close>. The model \<open>block_esn\<close> has \<open>rho = 1\<close> and a raw matrix
  of spectral radius \<open>1\<close>; with one epoch of the one step \<open>t = 2\<close> on the signal \<open>0\<close>, the matrix
  stored has a first column of squared norm \<open>73/25\<close> and the eigenvalue \<open>7/5\<close>, so its spectral
  radius is not \<open>rho\<close>.
\<close>

theorem normalized_hebbian_counterexample:
  "rho block_esn = 1 \<and> spectral_radius (M_orig block_esn) 1
   \<and> norm_hebb_learn rest_lib block_esn zero_data grid4 2 True
       = Inr (block_esn\<lparr>u := Some (\<lambda>x. [0]),
                        M := Mat 3 3 [[3 / 5, 3 / 10, 0], [8 / 5, 4 / 5, 0], [0, 0, 1]]\<rparr>)
   \<and> (\<Sum>x\<leftarrow>col (M (block_esn\<lparr>u := Some (\<lambda>x. [0]),
                        M := Mat 3 3 [[3 / 5, 3 / 10, 0], [8 / 5, 4 / 5, 0], [0, 0, 1]]\<rparr>)) 0.
         x ^ 2) = 73 / 25
   \<and> eigenvalue (M (block_esn\<lparr>u := Some (\<lambda>x. [0]),
                        M := Mat 3 3 [[3 / 5, 3 / 10, 0], [8 / 5, 4 / 5, 0], [0, 0, 1]]\<rparr>))
        (7 / 5)
   \<and> \<not> spectral_radius (M (block_esn\<lparr>u := Some (\<lambda>x. [0]),
                        M := Mat 3 3 [[3 / 5, 3 / 10, 0], [8 / 5, 4 / 5, 0], [0, 0, 1]]\<rparr>))
          (rho block_esn)"
proof -
  let ?S = "Mat 3 3 [[3 / 5, 3 / 10, 0], [8 / 5, 4 / 5, 0], [0, 0, 1]]"
  have r1: "rho block_esn = 1"
    by (simp add: block_esn_def)
  have M: "M (block_esn\<lparr>u := Some (\<lambda>x. [0]), M := ?S\<rparr>) = ?S"
    by simp
  have nrm: "(\<Sum>x\<leftarrow>col ?S 0. x ^ 2) = 73 / 25"
    by (simp add: col_def power2_eq_square)
  have ev: "eigenvalue ?S (7 / 5)"
    unfolding eigenvalue_def
    by (rule exI[of _ "[3, 8, 0]"]) (simp add: cmatvec_def)
  have no: "\<not> spectral_radius ?S 1"
  proof
    assume "spectral_radius ?S 1"
    from eigenvalue_bounds_radius[OF ev this] show False
      by simp
  qed
  show ?thesis
    unfolding M r1
    by (intro conjI refl block_orig_radius block_run[unfolded M] nrm ev no)
qed

section \<open>The concrete models as constructed models\<close>

text \<open>
  \<open>diag_esn\<close> and \<open>ip_esn\<close> are what the constructors return for the column draw \<open>[0, 0, 0]\<close>,
  the values \<open>[1/2, -1/2, 1/4]\<close> and the raw adjacency draw \<open>diag(2, 1, 1)\<close>.
\<close>

lemma diag_esn_constructed:
  "AHESN_init rest_lib [0, 0, 0] [1 / 2, - 1 / 2, 1 / 4] diag_raw 3 (1 / 3) 1 1 1 1 1 1 1 1
     = Inr diag_esn"
proof -
  have W: "input_matrix 3 [0, 0, 0] [1 / 2, - 1 / 2, 1 / 4]
             = Inr (Mat 3 1 [[1 / 2], [- 1 / 2], [1 / 4]])"
    by (simp add: input_matrix_def coo_tocsr_def eval_nat_numeral)
  show ?thesis
    unfolding AHESN_init_def ESN_init_def
    by (simp only: W diag_adj bindE.simps) (simp add: diag_esn_def smul_def)
qed

lemma ip_esn_constructed:
  "IPESN_init rest_lib [0, 0, 0] [1 / 2, - 1 / 2, 1 / 4] diag_raw 3 (1 / 3) 1 2 1 1 1
     0 (1 / 2) 1 0 0 1 = Inr ip_esn"
proof -
  have W: "input_matrix 3 [0, 0, 0] [1 / 2, - 1 / 2, 1 / 4]
             = Inr (Mat 3 1 [[1 / 2], [- 1 / 2], [1 / 4]])"
    by (simp add: input_matrix_def coo_tocsr_def eval_nat_numeral)
  show ?thesis
    unfolding IPESN_init_def AHESN_init_def ESN_init_def
    by (simp only: W diag_adj bindE.simps)
      (simp add: ip_esn_def diag_esn_def smul_def eval_nat_numeral)
qed

end
